theory Spec2Isabelle
  imports Main
begin

section \<open>The HIR fragment read by match lowering\<close>

text \<open>
  The development embeds the parts of \<^verbatim>\<open>gcc/rust/backend/rust-compile-expr.cc\<close>
  that rearrange and lower match expressions, materialise integer literals, apply
  adjustments and build dynamic calls.

  A node mapping is identified by a number, a source location is either a known
  position or the default-constructed \<^verbatim>\<open>Location ()\<close>, and an attribute vector is a
  list of attribute names.  A literal is its text and its kind.  Leaf patterns carry no
  node mapping here: no function below reads one.  Of the pattern and expression classes
  of the HIR, those that the functions below tell apart are represented.
\<close>

type_synonym mappings = nat

datatype location = Locus nat | UnknownLocus

type_synonym attr_vec = "string list"

datatype lit_type =
  Lit_CHAR | Lit_STRING | Lit_BYTE | Lit_BYTE_STRING | Lit_INT | Lit_FLOAT | Lit_BOOL | Lit_ERROR

datatype literal = Literal string lit_type

fun as_string :: "literal \<Rightarrow> string" where
  "as_string (Literal s _) = s"

fun get_lit_type :: "literal \<Rightarrow> lit_type" where
  "get_lit_type (Literal _ t) = t"

datatype pattern =
    LiteralPattern literal
  | IdentifierPattern string
  | WildcardPattern
  | TuplePattern mappings "tuple_pattern_items option" location
and tuple_pattern_items =
    TuplePatternItemsMultiple "pattern list"
  | TuplePatternItemsRanged "pattern list" "pattern list"

datatype expr =
    LiteralExpr mappings literal location
  | PathInExpression mappings string location
  | IdentifierExpr mappings string location
  | TupleExpr mappings "expr list" attr_vec attr_vec location
  | Match match_expr
and match_expr =
    MatchExpr mappings expr "match_case list" attr_vec attr_vec location
and match_case =
    MatchCase mappings match_arm expr
and match_arm =
    MatchArm "pattern list" location "expr option" attr_vec

datatype expr_type = Lit | Path | Ident | Tuple | MatchT

fun get_expression_type :: "expr \<Rightarrow> expr_type" where
  "get_expression_type (LiteralExpr _ _ _) = Lit"
| "get_expression_type (PathInExpression _ _ _) = Path"
| "get_expression_type (IdentifierExpr _ _ _) = Ident"
| "get_expression_type (TupleExpr _ _ _ _ _) = Tuple"
| "get_expression_type (Match _) = MatchT"

fun get_scrutinee_expr :: "match_expr \<Rightarrow> expr" where
  "get_scrutinee_expr (MatchExpr _ s _ _ _ _) = s"

fun get_match_cases :: "match_expr \<Rightarrow> match_case list" where
  "get_match_cases (MatchExpr _ _ cs _ _ _) = cs"

fun get_arm :: "match_case \<Rightarrow> match_arm" where
  "get_arm (MatchCase _ a _) = a"

fun get_expr :: "match_case \<Rightarrow> expr" where
  "get_expr (MatchCase _ _ e) = e"

fun get_mappings :: "match_case \<Rightarrow> mappings" where
  "get_mappings (MatchCase m _ _) = m"

fun get_mappings_match :: "match_expr \<Rightarrow> mappings" where
  "get_mappings_match (MatchExpr m _ _ _ _ _) = m"

fun get_locus_match :: "match_expr \<Rightarrow> location" where
  "get_locus_match (MatchExpr _ _ _ _ _ l) = l"

fun get_mappings_expr :: "expr \<Rightarrow> mappings" where
  "get_mappings_expr (LiteralExpr m _ _) = m"
| "get_mappings_expr (PathInExpression m _ _) = m"
| "get_mappings_expr (IdentifierExpr m _ _) = m"
| "get_mappings_expr (TupleExpr m _ _ _ _) = m"
| "get_mappings_expr (Match me) = get_mappings_match me"

fun get_locus_expr :: "expr \<Rightarrow> location" where
  "get_locus_expr (LiteralExpr _ _ l) = l"
| "get_locus_expr (PathInExpression _ _ l) = l"
| "get_locus_expr (IdentifierExpr _ _ l) = l"
| "get_locus_expr (TupleExpr _ _ _ _ l) = l"
| "get_locus_expr (Match me) = get_locus_match me"

fun get_locus_arm :: "match_arm \<Rightarrow> location" where
  "get_locus_arm (MatchArm _ l _ _) = l"

fun get_patterns :: "match_arm \<Rightarrow> pattern list" where
  "get_patterns (MatchArm ps _ _ _) = ps"

text \<open>
  The ways the functions below stop without a result: a failed \<^verbatim>\<open>rust_assert\<close>
  or a \<^verbatim>\<open>gcc_unreachable\<close> (the compiler aborts), a \<^verbatim>\<open>rust_fatal_error\<close> (the
  compilation ends), and what C++ leaves undefined: an index past the end of a vector,
  a read of a variable that was never set.
\<close>

datatype error = AssertionFailure | Unreachable | FatalError | UndefinedBehaviour

section \<open>The map from first tuple elements to cases\<close>

text \<open>
  \<^verbatim>\<open>organize_tuple_patterns\<close> returns a
  \<^verbatim>\<open>std::map<std::unique_ptr<HIR::Pattern>, std::vector<HIR::MatchCase>>\<close>.
  The key type is a pointer and the map has the default comparison, so two keys are
  the same key when they are the same address, and the map is traversed in the order
  of the addresses.  A key is therefore an address together with the pattern stored
  there, and the map is a list of entries in ascending order of address.

  Every \<^verbatim>\<open>clone_pattern ()\<close> makes a new object.  Its address is chosen by the
  allocator, of which the model knows one argument: the addresses of the keys that the
  map owns at that moment.
\<close>

type_synonym addr = nat

type_synonym allocator = "addr list \<Rightarrow> addr"

type_synonym pattern_key = "addr \<times> pattern"

type_synonym pattern_map = "(pattern_key \<times> match_case list) list"

fun map_find :: "addr \<Rightarrow> pattern_map \<Rightarrow> match_case list option" where
  "map_find a [] = None"
| "map_find a ((k, cs) # m) = (if fst k = a then Some cs else map_find a m)"

fun map_push_back :: "addr \<Rightarrow> match_case \<Rightarrow> pattern_map \<Rightarrow> pattern_map" where
  "map_push_back a c [] = []"
| "map_push_back a c ((k, cs) # m) =
     (if fst k = a then (k, cs @ [c]) # m else (k, cs) # map_push_back a c m)"

fun map_assign :: "pattern_key \<Rightarrow> match_case list \<Rightarrow> pattern_map \<Rightarrow> pattern_map" where
  "map_assign k v [] = [(k, v)]"
| "map_assign k v ((k', cs) # m) =
     (if fst k < fst k' then (k, v) # (k', cs) # m
      else if fst k = fst k' then (k', v) # m
      else (k', cs) # map_assign k v m)"

definition map_keys :: "pattern_map \<Rightarrow> addr list" where
  "map_keys m = map (\<lambda>e. fst (fst e)) m"

section \<open>organize_tuple_patterns\<close>

text \<open>
  The loop over the match cases, with the map built so far.  Only
  \<^verbatim>\<open>case_arm.get_patterns ()[0]\<close> is read.  The pattern type of a pattern is its
  constructor: a wildcard is skipped with \<^verbatim>\<open>continue\<close>; any pattern other than a
  wildcard or a tuple fails the assertion; a tuple pattern with ranged items adds
  nothing.
\<close>

fun organize_cases :: "allocator \<Rightarrow> match_case list \<Rightarrow> pattern_map \<Rightarrow> error + pattern_map" where
  "organize_cases new [] m = Inr m"
| "organize_cases new (match_case # rest) m =
     (case get_patterns (get_arm match_case) of
        [] \<Rightarrow> Inl UndefinedBehaviour
      | pat # _ \<Rightarrow>
          (case pat of
             WildcardPattern \<Rightarrow> organize_cases new rest m
           | TuplePattern pm items loc \<Rightarrow>
               (case items of
                  None \<Rightarrow> Inl AssertionFailure
                | Some (TuplePatternItemsMultiple ps) \<Rightarrow>
                    (case ps of
                       [] \<Rightarrow> Inl UndefinedBehaviour
                     | first # patterns \<Rightarrow>
                         let result_pattern =
                               (if length patterns = 1 then hd patterns
                                else TuplePattern pm (Some (TuplePatternItemsMultiple patterns)) loc);
                             new_arm = MatchArm [result_pattern] UnknownLocus None [];
                             new_case = MatchCase (get_mappings match_case) new_arm (get_expr match_case);
                             a = new (map_keys m)
                         in (case map_find a m of
                               Some _ \<Rightarrow> organize_cases new rest (map_push_back a new_case m)
                             | None \<Rightarrow> organize_cases new rest (map_assign (a, first) [new_case] m)))
                | Some (TuplePatternItemsRanged _ _) \<Rightarrow> organize_cases new rest m)
           | _ \<Rightarrow> Inl AssertionFailure))"

definition organize_tuple_patterns :: "allocator \<Rightarrow> match_expr \<Rightarrow> error + pattern_map" where
  "organize_tuple_patterns new expr =
     (if get_expression_type (get_scrutinee_expr expr) = Tuple
      then organize_cases new (get_match_cases expr) []
      else Inl AssertionFailure)"

section \<open>simplify_tuple_match\<close>

text \<open>
  The scrutinee of the inner matches: the tail of the tuple, or its only element when
  one is left.
\<close>

definition remaining_of :: "mappings \<Rightarrow> expr list \<Rightarrow> attr_vec \<Rightarrow> location \<Rightarrow> expr" where
  "remaining_of tm tail toa tloc =
     (if length tail = 1 then hd tail else TupleExpr tm tail [] toa tloc)"

text \<open>The first error of a list of results, or all the values.\<close>

fun collect :: "(error + 'a) list \<Rightarrow> error + 'a list" where
  "collect [] = Inr []"
| "collect (Inl e # _) = Inl e"
| "collect (Inr x # rs) = (case collect rs of Inl e \<Rightarrow> Inl e | Inr xs \<Rightarrow> Inr (x # xs))"

lemma size_hd_tl_less:
  "length es > 1 \<Longrightarrow> length (tl es) = 1 \<Longrightarrow> size (hd (tl es)) < Suc (size_list size es)"
  by (cases es; cases "tl es") auto

lemma size_tl_less: "length es > 1 \<Longrightarrow> size_list size (tl es) < size_list size es"
  by (cases es) auto

function simplify_tuple_match :: "allocator \<Rightarrow> match_expr \<Rightarrow> error + match_expr" where
  "simplify_tuple_match new (MatchExpr m scrut cases ia oa loc) =
     (case scrut of
        TupleExpr tm elems tia toa tloc \<Rightarrow>
          if \<not> 1 < length elems then Inl AssertionFailure
          else
            (case organize_tuple_patterns new (MatchExpr m scrut cases ia oa loc) of
               Inl e \<Rightarrow> Inl e
             | Inr mp \<Rightarrow>
                 (case collect
                         (map (\<lambda>entry.
                                 case simplify_tuple_match new
                                        (MatchExpr m (remaining_of tm (tl elems) toa tloc)
                                           (snd entry) [] oa loc) of
                                   Inl e \<Rightarrow> Inl e
                                 | Inr inner_match \<Rightarrow>
                                     Inr (MatchCase m (MatchArm [snd (fst entry)] loc None [])
                                            (Match inner_match)))
                              mp) of
                    Inl e \<Rightarrow> Inl e
                  | Inr cs \<Rightarrow> Inr (MatchExpr m (hd elems) cs [] oa loc)))
      | _ \<Rightarrow> Inr (MatchExpr m scrut cases ia oa loc))"
  by pat_completeness auto
termination
proof (relation "measure (\<lambda>(new, e). size (get_scrutinee_expr e))")
  show "wf (measure (\<lambda>(new, e). size (get_scrutinee_expr e)))" by simp
next
  fix new :: allocator and m scrut cases ia oa loc tm elems tia toa tloc mp entry
  assume "scrut = TupleExpr tm elems tia toa tloc" and "\<not> \<not> 1 < length elems"
  then show "((new, MatchExpr m (remaining_of tm (tl elems) toa tloc) (snd entry) [] oa loc),
              (new, MatchExpr m scrut cases ia oa loc))
             \<in> measure (\<lambda>(new, e). size (get_scrutinee_expr e))"
    using size_hd_tl_less [of elems] size_tl_less [of elems]
    by (auto simp: remaining_of_def)
qed

declare simplify_tuple_match.simps [simp del]

section \<open>Resolved types and adjustments\<close>

text \<open>
  The classes of \<^verbatim>\<open>TyTy\<close> that the functions below cast to, each with the members
  they read; every other resolved type is its kind and its reference number.
\<close>

datatype type_kind =
    Kind_INFER | Kind_ADT | Kind_STR | Kind_REF | Kind_POINTER | Kind_PARAM | Kind_ARRAY
  | Kind_SLICE | Kind_FNDEF | Kind_FNPTR | Kind_TUPLE | Kind_BOOL | Kind_CHAR | Kind_INT
  | Kind_UINT | Kind_FLOAT | Kind_USIZE | Kind_ISIZE | Kind_NEVER | Kind_PLACEHOLDER
  | Kind_PROJECTION | Kind_DYNAMIC | Kind_CLOSURE | Kind_ERROR

datatype fn_type = FnType nat

fun get_id :: "fn_type \<Rightarrow> nat" where
  "get_id (FnType i) = i"

datatype tyty =
    FnDef fn_type
  | ReferenceType tyty
  | ParamType tyty
  | ADTType bool nat
  | DynamicObjectType "trait_item_reference list"
  | OtherType type_kind nat
and trait_item_reference =
    TraitItemReference string tyty

fun get_kind :: "tyty \<Rightarrow> type_kind" where
  "get_kind (FnDef _) = Kind_FNDEF"
| "get_kind (ReferenceType _) = Kind_REF"
| "get_kind (ParamType _) = Kind_PARAM"
| "get_kind (ADTType _ _) = Kind_ADT"
| "get_kind (DynamicObjectType _) = Kind_DYNAMIC"
| "get_kind (OtherType k _) = k"

fun get_tyty :: "trait_item_reference \<Rightarrow> tyty" where
  "get_tyty (TraitItemReference _ t) = t"

type_synonym impl_item = nat

text \<open>The lang items of operators: the one named below, and the others by number.\<close>

datatype item_type = ItemType_DEREF | ItemType_OTHER nat

datatype adjustment_type = ERROR | IMM_REF | MUT_REF | DEREF | DEREF_MUT | INDIRECTION | UNSIZE

record adjustment =
  get_type :: adjustment_type
  get_expected :: tyty
  get_deref_operator_fn :: "fn_type option"
  get_deref_adjustment_type :: adjustment_type
  get_deref_hir_item :: impl_item

section \<open>Backend trees, the context and what lies outside\<close>

text \<open>
  A backend tree is a node that one of the functions below builds itself with the tree
  builders of GCC, one of the fixed nodes, or any other node, which is a name and the
  trees under it.
\<close>

datatype tree =
    error_mark_node
  | NULL_TREE
  | size_type_node
  | void_type_node
  | INTEGER_CST tree int
  | GOTO_EXPR location tree tree
  | SWITCH_EXPR location tree tree tree
  | OBJ_TYPE_REF location tree tree tree tree
  | ARRAY_REF location tree tree tree tree tree
  | Node string "tree list"

datatype tree_code = ARRAY_TYPE | RECORD_TYPE | POINTER_TYPE | INTEGER_TYPE | OTHER_CODE

datatype signop = SIGNED | UNSIGNED

datatype diagnostic = Error_at location string "string list" | Sorry_at location string

text \<open>
  Modelled from the spec: the compilation context, whose class is not among the sources.
  The spec has a statement and block stack accessed in strict push and pop discipline,
  statements appended to the currently active block, and diagnostics that are collected
  while the compilation goes on.  \<open>statements\<close> holds the statement list of every
  open block, the active one first, \<open>scope_stack\<close> the open blocks, \<open>fn_stack\<close>
  the declarations of the functions being compiled.  \<open>other_state\<close> stands for all
  that the code outside this development keeps.
\<close>

record Context =
  statements :: "tree list list"
  scope_stack :: "tree list"
  fn_stack :: "tree list"
  diagnostics :: "diagnostic list"
  other_state :: nat

text \<open>
  A compiler outside this development (of a sub-expression, a pattern, an item, a new
  label or variable) may abort; otherwise it gives a result, the statements it appends
  to the active block, and the state it leaves.
\<close>

type_synonym 'r effect = "nat \<Rightarrow> error + ('r \<times> tree list \<times> nat)"

definition and_then :: "error + 'a \<Rightarrow> ('a \<Rightarrow> error + 'b) \<Rightarrow> error + 'b" where
  "and_then r f = (case r of Inl e \<Rightarrow> Inl e | Inr x \<Rightarrow> f x)"

lemma and_then_simps [simp]:
  "and_then (Inl e) f = Inl e"
  "and_then (Inr x) f = f x"
  by (simp_all add: and_then_def)

lemma and_then_cong [fundef_cong]:
  "r = r' \<Longrightarrow> (\<And>x. r' = Inr x \<Longrightarrow> f x = f' x) \<Longrightarrow> and_then r f = and_then r' f'"
  by (auto simp: and_then_def split: sum.splits)

text \<open>
  Modelled from the spec: the operations of the context.  A statement goes to the end of
  the active block; with no block open there is nowhere to put it.  Pushing a block
  opens it with no statements.  \<open>run\<close> lets a compiler from outside act on the
  context: its statements are added one by one.
\<close>

definition add_statement :: "tree \<Rightarrow> Context \<Rightarrow> error + Context" where
  "add_statement stmt ctx =
     (case statements ctx of
        [] \<Rightarrow> Inl UndefinedBehaviour
      | active # below \<Rightarrow> Inr (ctx\<lparr>statements := (active @ [stmt]) # below\<rparr>))"

fun add_statements :: "tree list \<Rightarrow> Context \<Rightarrow> error + Context" where
  "add_statements [] ctx = Inr ctx"
| "add_statements (stmt # stmts) ctx = and_then (add_statement stmt ctx) (add_statements stmts)"

definition run :: "'r effect \<Rightarrow> Context \<Rightarrow> error + ('r \<times> Context)" where
  "run f ctx =
     and_then (f (other_state ctx)) (\<lambda>(r, stmts, st).
     and_then (add_statements stmts (ctx\<lparr>other_state := st\<rparr>)) (\<lambda>ctx'. Inr (r, ctx')))"

definition push_block :: "tree \<Rightarrow> Context \<Rightarrow> Context" where
  "push_block scope ctx =
     ctx\<lparr>scope_stack := scope # scope_stack ctx, statements := [] # statements ctx\<rparr>"

definition peek_fn :: "Context \<Rightarrow> error + tree" where
  "peek_fn ctx = (case fn_stack ctx of [] \<Rightarrow> Inl UndefinedBehaviour | fndecl # _ \<Rightarrow> Inr fndecl)"

definition peek_enclosing_scope :: "Context \<Rightarrow> tree" where
  "peek_enclosing_scope ctx = (case scope_stack ctx of [] \<Rightarrow> NULL_TREE | scope # _ \<Rightarrow> scope)"

definition rust_error_at :: "location \<Rightarrow> string \<Rightarrow> string list \<Rightarrow> Context \<Rightarrow> Context" where
  "rust_error_at locus msg args ctx =
     ctx\<lparr>diagnostics := diagnostics ctx @ [Error_at locus msg args]\<rparr>"

definition sorry_at :: "location \<Rightarrow> string \<Rightarrow> Context \<Rightarrow> Context" where
  "sorry_at locus msg ctx = ctx\<lparr>diagnostics := diagnostics ctx @ [Sorry_at locus msg]\<rparr>"

text \<open>
  The facts of the earlier phases that the functions below look up, and the queries on
  resolved types whose code is not among the sources.  A lookup that fails gives
  \<open>None\<close>.
\<close>

record tyctx =
  lookup_type :: "mappings \<Rightarrow> tyty option"
  lookup_operator_overload :: "mappings \<Rightarrow> fn_type option"
  lookup_receiver :: "mappings \<Rightarrow> tyty option"
  lookup_autoderef_mappings :: "mappings \<Rightarrow> adjustment list option"
  lookup_resolved_name :: "mappings \<Rightarrow> nat option"
  lookup_node_to_hir :: "mappings \<Rightarrow> nat \<Rightarrow> nat option"
  is_unit :: "tyty \<Rightarrow> bool"
  is_primitive_type_kind :: "type_kind \<Rightarrow> bool"
  get_name :: "tyty \<Rightarrow> string"
  has_subsititions_defined :: "fn_type \<Rightarrow> bool"

text \<open>
  The tree accessors and builders of GCC and of the backend that the functions below
  call, and the number functions of GMP and GCC.  \<open>TyTyResolveCompile_compile\<close> takes
  the resolved type and the trait-object mode.  \<open>mpz_init_set_str\<close> gives the value
  that it stores, or \<open>None\<close> where the C function returns a value other than 0.
\<close>

record backend =
  TREE_TYPE :: "tree \<Rightarrow> tree"
  TREE_CODE :: "tree \<Rightarrow> tree_code"
  SLICE_TYPE_P :: "tree \<Rightarrow> bool"
  TYPE_DOMAIN :: "tree \<Rightarrow> tree"
  TYPE_MAX_VALUE :: "tree \<Rightarrow> tree"
  TYPE_MIN_VALUE :: "tree \<Rightarrow> tree"
  TYPE_PRECISION :: "tree \<Rightarrow> nat"
  TYPE_SIGN :: "tree \<Rightarrow> signop"
  wi_to_offset :: "tree \<Rightarrow> int"
  TyTyResolveCompile_compile :: "tyty \<Rightarrow> bool \<Rightarrow> tree"
  build_reference_type :: "tree \<Rightarrow> tree"
  address_expression :: "tree \<Rightarrow> tree \<Rightarrow> location \<Rightarrow> tree"
  indirect_expression :: "tree \<Rightarrow> tree \<Rightarrow> bool \<Rightarrow> location \<Rightarrow> tree"
  call_expression :: "tree \<Rightarrow> tree list \<Rightarrow> tree \<Rightarrow> location \<Rightarrow> tree"
  constructor_expression :: "tree \<Rightarrow> bool \<Rightarrow> tree list \<Rightarrow> int \<Rightarrow> location \<Rightarrow> tree"
  struct_field_expression :: "tree \<Rightarrow> nat \<Rightarrow> location \<Rightarrow> tree"
  var_expression :: "tree \<Rightarrow> location \<Rightarrow> tree"
  assignment_statement :: "tree \<Rightarrow> tree \<Rightarrow> location \<Rightarrow> tree"
  label_definition_statement :: "tree \<Rightarrow> tree"
  block_add_statements :: "tree \<Rightarrow> tree list \<Rightarrow> tree"
  unit_expression :: tree
  mpz_init_set_str :: "string \<Rightarrow> nat \<Rightarrow> int option"
  get_type_static_bounds :: "tree \<Rightarrow> int \<times> int"
  mpz_get_double_int :: "tree \<Rightarrow> int \<Rightarrow> bool \<Rightarrow> int"
  double_int_to_tree :: "tree \<Rightarrow> int \<Rightarrow> tree"

text \<open>
  The compilers outside this development.  \<open>temporary_variable\<close> gives the variable
  and the statement that declares it.  \<open>resolve_method_address\<close> is a function of the
  same file; it is all lookups and calls of item compilers, and its result is taken as
  it comes.
\<close>

record compilers =
  CompileExpr_Compile :: "expr \<Rightarrow> tree effect"
  CompileInherentImplItem_Compile ::
    "impl_item \<Rightarrow> fn_type option \<Rightarrow> bool \<Rightarrow> location \<Rightarrow> tree effect"
  resolve_method_address ::
    "fn_type \<Rightarrow> nat \<Rightarrow> tyty \<Rightarrow> string \<Rightarrow> mappings \<Rightarrow> location \<Rightarrow> tree effect"
  RustLangItem_ToString :: "item_type \<Rightarrow> string"
  backend_label :: "tree \<Rightarrow> string \<Rightarrow> location \<Rightarrow> tree effect"
  temporary_variable ::
    "tree \<Rightarrow> tree \<Rightarrow> tree \<Rightarrow> tree \<Rightarrow> bool \<Rightarrow> location \<Rightarrow> (tree \<times> tree) effect"
  backend_block :: "tree \<Rightarrow> tree \<Rightarrow> tree list \<Rightarrow> location \<Rightarrow> location \<Rightarrow> tree effect"
  CompilePatternCaseLabelExpr_Compile :: "pattern \<Rightarrow> tree \<Rightarrow> tree effect"
  CompilePatternBindings_Compile :: "pattern \<Rightarrow> tree \<Rightarrow> unit effect"

text \<open>
  Modelled from the spec: popping a block closes the active block, hands its statements
  to the backend and gives the block; it is popped exactly once.
\<close>

definition pop_block :: "backend \<Rightarrow> Context \<Rightarrow> error + (tree \<times> Context)" where
  "pop_block B ctx =
     (case (scope_stack ctx, statements ctx) of
        (scope # scopes, stmts # below) \<Rightarrow>
          Inr (block_add_statements B scope stmts,
               ctx\<lparr>scope_stack := scopes, statements := below\<rparr>)
      | _ \<Rightarrow> Inl UndefinedBehaviour)"

section \<open>Literal materialisation\<close>

text \<open>
  \<^verbatim>\<open>CompileExpr::compile_integer_literal\<close>.  Its argument is a literal expression.
\<close>

fun compile_integer_literal ::
  "backend \<Rightarrow> tyctx \<Rightarrow> expr \<Rightarrow> tyty \<Rightarrow> Context \<Rightarrow> error + (tree \<times> Context)" where
  "compile_integer_literal B T (LiteralExpr m literal_value locus) tyty ctx =
     (if get_lit_type literal_value \<noteq> Lit_INT then Inl AssertionFailure
      else
        let type = TyTyResolveCompile_compile B tyty False in
        (case mpz_init_set_str B (as_string literal_value) 10 of
           None \<Rightarrow> Inr (error_mark_node, rust_error_at locus ''bad number in literal'' [] ctx)
         | Some ival \<Rightarrow>
             (case get_type_static_bounds B type of
                (type_min, type_max) \<Rightarrow>
                  if ival < type_min \<or> ival > type_max
                  then Inr (error_mark_node,
                            rust_error_at locus ''integer overflows the respective type %<%s%>''
                              [get_name T tyty] ctx)
                  else Inr (double_int_to_tree B type (mpz_get_double_int B type ival True), ctx))))"

section \<open>Adjustments\<close>

text \<open>
  \<^verbatim>\<open>wi::ext\<close> extends a number from a precision, by sign or by zero, and
  \<^verbatim>\<open>to_uhwi\<close> reads it as an unsigned 64-bit number.
\<close>

definition wi_ext :: "int \<Rightarrow> nat \<Rightarrow> signop \<Rightarrow> int" where
  "wi_ext x precision signedness =
     (case signedness of
        UNSIGNED \<Rightarrow> x mod 2 ^ precision
      | SIGNED \<Rightarrow>
          (if precision = 0 then 0
           else (x + 2 ^ (precision - 1)) mod 2 ^ precision - 2 ^ (precision - 1)))"

definition to_uhwi :: "int \<Rightarrow> int" where
  "to_uhwi x = x mod 2 ^ 64"

definition resolve_deref_adjustment ::
  "backend \<Rightarrow> tyctx \<Rightarrow> compilers \<Rightarrow> adjustment \<Rightarrow> tree \<Rightarrow> location \<Rightarrow> Context
     \<Rightarrow> error + (tree \<times> Context)" where
  "resolve_deref_adjustment B T C adjustment expression locus ctx =
     (if \<not> (get_type adjustment = DEREF \<or> get_type adjustment = DEREF_MUT)
      then Inl AssertionFailure
      else
        (case get_deref_operator_fn adjustment of
           None \<Rightarrow> Inl AssertionFailure
         | Some lookup \<Rightarrow>
             and_then
               (run (CompileInherentImplItem_Compile C (get_deref_hir_item adjustment)
                       (if \<not> has_subsititions_defined T lookup then None else Some lookup)
                       True locus) ctx)
               (\<lambda>(fn_address, ctx').
                  let needs_borrow = (get_deref_adjustment_type adjustment \<noteq> ERROR);
                      adjusted_argument =
                        (if needs_borrow
                         then address_expression B expression
                                (build_reference_type B (TREE_TYPE B expression)) locus
                         else expression)
                  in Inr (call_expression B fn_address [adjusted_argument] NULL_TREE locus, ctx'))))"

definition resolve_indirection_adjustment ::
  "backend \<Rightarrow> adjustment \<Rightarrow> tree \<Rightarrow> location \<Rightarrow> tree" where
  "resolve_indirection_adjustment B adjustment expression locus =
     indirect_expression B (TyTyResolveCompile_compile B (get_expected adjustment) False)
       expression True locus"

definition resolve_unsized_adjustment ::
  "backend \<Rightarrow> adjustment \<Rightarrow> tree \<Rightarrow> location \<Rightarrow> error + tree" where
  "resolve_unsized_adjustment B adjustment expression locus =
     (let expr_type = TREE_TYPE B expression in
      if TREE_CODE B expr_type \<noteq> ARRAY_TYPE then Inl AssertionFailure
      else if get_kind (get_expected adjustment) \<noteq> Kind_SLICE then Inl AssertionFailure
      else
        let fat_pointer = TyTyResolveCompile_compile B (get_expected adjustment) False;
            data = address_expression B expression
                     (build_reference_type B (TREE_TYPE B expression)) locus;
            domain = TYPE_DOMAIN B expr_type;
            array_size =
              to_uhwi (wi_ext (wi_to_offset B (TYPE_MAX_VALUE B domain)
                                 - wi_to_offset B (TYPE_MIN_VALUE B domain) + 1)
                         (TYPE_PRECISION B (TREE_TYPE B domain))
                         (TYPE_SIGN B (TREE_TYPE B domain)));
            size = INTEGER_CST size_type_node array_size
        in Inr (constructor_expression B fat_pointer False [data, size] (- 1) locus))"

text \<open>
  The body of the cases \<^verbatim>\<open>IMM_REF\<close> and \<^verbatim>\<open>MUT_REF\<close> of
  \<^verbatim>\<open>resolve_adjustements\<close>, which they share.
\<close>

definition borrow_adjustment :: "backend \<Rightarrow> adjustment \<Rightarrow> tree \<Rightarrow> location \<Rightarrow> tree" where
  "borrow_adjustment B adjustment e locus =
     (if \<not> SLICE_TYPE_P B (TREE_TYPE B e)
      then address_expression B e
             (TyTyResolveCompile_compile B (get_expected adjustment) False) locus
      else e)"

fun resolve_adjustements ::
  "backend \<Rightarrow> tyctx \<Rightarrow> compilers \<Rightarrow> adjustment list \<Rightarrow> tree \<Rightarrow> location \<Rightarrow> Context
     \<Rightarrow> error + (tree \<times> Context)" where
  "resolve_adjustements B T C [] e locus ctx = Inr (e, ctx)"
| "resolve_adjustements B T C (adjustment # adjustments) e locus ctx =
     (case get_type adjustment of
        ERROR \<Rightarrow> Inr (error_mark_node, ctx)
      | IMM_REF \<Rightarrow>
          resolve_adjustements B T C adjustments (borrow_adjustment B adjustment e locus) locus ctx
      | MUT_REF \<Rightarrow>
          resolve_adjustements B T C adjustments (borrow_adjustment B adjustment e locus) locus ctx
      | DEREF \<Rightarrow>
          and_then (resolve_deref_adjustment B T C adjustment e locus ctx)
            (\<lambda>(e', ctx'). resolve_adjustements B T C adjustments e' locus ctx')
      | DEREF_MUT \<Rightarrow>
          and_then (resolve_deref_adjustment B T C adjustment e locus ctx)
            (\<lambda>(e', ctx'). resolve_adjustements B T C adjustments e' locus ctx')
      | INDIRECTION \<Rightarrow>
          resolve_adjustements B T C adjustments
            (resolve_indirection_adjustment B adjustment e locus) locus ctx
      | UNSIZE \<Rightarrow>
          and_then (resolve_unsized_adjustment B adjustment e locus)
            (\<lambda>e'. resolve_adjustements B T C adjustments e' locus ctx))"

section \<open>Dynamic dispatch\<close>

text \<open>
  The loop of \<^verbatim>\<open>get_fn_addr_from_dyn\<close> over the object items, from the offset
  reached: the offset of the item found, or \<open>None\<close> when \<^verbatim>\<open>ref\<close> stays null.
  \<open>sort_out_indirection\<close> is the block under the comment ``get any indirection
  sorted out'', which both functions have.
\<close>

fun find_object_item :: "trait_item_reference list \<Rightarrow> fn_type \<Rightarrow> nat \<Rightarrow> error + nat option" where
  "find_object_item [] fntype offs = Inr None"
| "find_object_item (item # bounds) fntype offs =
     (let t = get_tyty item in
      if get_kind t \<noteq> Kind_FNDEF then Inl AssertionFailure
      else (case t of
              FnDef ft \<Rightarrow>
                if get_id ft = get_id fntype then Inr (Some offs)
                else find_object_item bounds fntype (offs + 1)
            | _ \<Rightarrow> Inl UndefinedBehaviour))"

definition sort_out_indirection ::
  "backend \<Rightarrow> tyty \<Rightarrow> tree \<Rightarrow> location \<Rightarrow> error + tree" where
  "sort_out_indirection B receiver receiver_ref expr_locus =
     (if get_kind receiver = Kind_REF
      then (case receiver of
              ReferenceType indirect_ty \<Rightarrow>
                Inr (indirect_expression B (TyTyResolveCompile_compile B indirect_ty False)
                       receiver_ref True expr_locus)
            | _ \<Rightarrow> Inl UndefinedBehaviour)
      else Inr receiver_ref)"

fun get_fn_addr_from_dyn ::
  "backend \<Rightarrow> tyty \<Rightarrow> tyty \<Rightarrow> fn_type \<Rightarrow> tree \<Rightarrow> location \<Rightarrow> error + tree" where
  "get_fn_addr_from_dyn B (DynamicObjectType object_items) receiver fntype receiver_ref expr_locus =
     and_then (find_object_item object_items fntype 0) (\<lambda>found.
       case found of
         None \<Rightarrow> Inr error_mark_node
       | Some offs \<Rightarrow>
           and_then (sort_out_indirection B receiver receiver_ref expr_locus) (\<lambda>receiver_ref.
             let expected_fntype = TyTyResolveCompile_compile B (FnDef fntype) True;
                 idx = INTEGER_CST size_type_node (int offs);
                 vtable_ptr = struct_field_expression B receiver_ref 1 expr_locus;
                 vtable_array_access =
                   ARRAY_REF expr_locus (TREE_TYPE B (TREE_TYPE B vtable_ptr)) vtable_ptr idx
                     NULL_TREE NULL_TREE
             in Inr (OBJ_TYPE_REF expr_locus expected_fntype vtable_array_access receiver_ref idx)))"

fun get_receiver_from_dyn ::
  "backend \<Rightarrow> tyty \<Rightarrow> tyty \<Rightarrow> fn_type \<Rightarrow> tree \<Rightarrow> location \<Rightarrow> error + tree" where
  "get_receiver_from_dyn B (DynamicObjectType object_items) receiver fntype receiver_ref expr_locus =
     and_then (sort_out_indirection B receiver receiver_ref expr_locus) (\<lambda>receiver_ref.
       Inr (struct_field_expression B receiver_ref 0 expr_locus))"

section \<open>Operator overloads and dereference expressions\<close>

text \<open>
  \<^verbatim>\<open>resolve_operator_overload\<close> gets the mappings and the location of the operator
  expression, the compiled operands, of which the right one may be missing, and the left
  operand expression.  \<^verbatim>\<open>CompileExpr::visit (HIR::DereferenceExpr &)\<close> returns the
  value that it stores in \<^verbatim>\<open>translated\<close>.
\<close>

datatype dereference_expr = DereferenceExpr mappings expr location

definition resolve_param_receiver :: "tyty \<Rightarrow> error + tyty" where
  "resolve_param_receiver receiver =
     (if get_kind receiver = Kind_PARAM
      then (case receiver of ParamType resolved \<Rightarrow> Inr resolved | _ \<Rightarrow> Inl UndefinedBehaviour)
      else Inr receiver)"

definition resolve_operator_overload ::
  "backend \<Rightarrow> tyctx \<Rightarrow> compilers \<Rightarrow> item_type \<Rightarrow> mappings \<Rightarrow> location \<Rightarrow> tree \<Rightarrow> tree option
     \<Rightarrow> expr \<Rightarrow> expr option \<Rightarrow> Context \<Rightarrow> error + (tree \<times> Context)" where
  "resolve_operator_overload B T C lang_item_type expr_mappings expr_locus lhs rhs lhs_expr rhs_expr ctx =
     (case lookup_operator_overload T expr_mappings of
        None \<Rightarrow> Inl AssertionFailure
      | Some fntype \<Rightarrow>
     (case lookup_resolved_name T expr_mappings of
        None \<Rightarrow> Inl AssertionFailure
      | Some resolved_node_id \<Rightarrow>
     (case lookup_node_to_hir T expr_mappings resolved_node_id of
        None \<Rightarrow> Inl AssertionFailure
      | Some ref \<Rightarrow>
     (case lookup_receiver T expr_mappings of
        None \<Rightarrow> Inl AssertionFailure
      | Some receiver0 \<Rightarrow>
          and_then (resolve_param_receiver receiver0) (\<lambda>receiver.
          and_then (run (resolve_method_address C fntype ref receiver
                           (RustLangItem_ToString C lang_item_type) expr_mappings expr_locus) ctx)
            (\<lambda>(fn_expr, ctx1).
               case lookup_autoderef_mappings T expr_mappings of
                 None \<Rightarrow> Inl AssertionFailure
               | Some adjustments \<Rightarrow>
                   and_then (resolve_adjustements B T C adjustments lhs
                               (get_locus_expr lhs_expr) ctx1)
                     (\<lambda>(self, ctx2).
                        Inr (call_expression B fn_expr
                               (self # (case rhs of None \<Rightarrow> [] | Some r \<Rightarrow> [r]))
                               NULL_TREE expr_locus,
                             ctx2))))))))"

fun visit_DereferenceExpr ::
  "backend \<Rightarrow> tyctx \<Rightarrow> compilers \<Rightarrow> dereference_expr \<Rightarrow> Context \<Rightarrow> error + (tree \<times> Context)" where
  "visit_DereferenceExpr B T C (DereferenceExpr m inner locus) ctx =
     (case lookup_type T m of
        None \<Rightarrow> Inl FatalError
      | Some tyty \<Rightarrow>
          and_then (run (CompileExpr_Compile C inner) ctx) (\<lambda>(main_expr, ctx1).
          and_then
            (case lookup_operator_overload T m of
               Some fntype \<Rightarrow>
                 resolve_operator_overload B T C ItemType_DEREF m locus main_expr None inner None ctx1
             | None \<Rightarrow> Inr (main_expr, ctx1))
            (\<lambda>(main_expr, ctx2).
               let expected_type = TyTyResolveCompile_compile B tyty False in
               if SLICE_TYPE_P B (TREE_TYPE B main_expr) \<and> SLICE_TYPE_P B expected_type
               then Inr (main_expr, ctx2)
               else Inr (indirect_expression B expected_type main_expr True locus, ctx2))))"

section \<open>Lowering a match expression\<close>

text \<open>
  \<^verbatim>\<open>CompileExpr::visit (HIR::MatchExpr &)\<close>, in the order of the source: the loop
  over the alternatives of an arm, the body of the loop over the cases, the loop over the
  cases, the checks on the type of the scrutinee, the temporary, the qualifier of the
  switch for each kind of scrutinee, and the switch with its end label.  The visit gets
  the value that \<^verbatim>\<open>translated\<close> holds on entry and returns the value that it holds at
  the end.  A qualifier that was never set is \<open>None\<close>.  The output of
  \<^verbatim>\<open>printf\<close> is left out, and so is the assignment of the rearranged match to the
  node of the original one, beyond the use that the visit itself makes of it.
\<close>

fun compile_patterns ::
  "compilers \<Rightarrow> pattern list \<Rightarrow> tree \<Rightarrow> tree \<Rightarrow> Context \<Rightarrow> error + Context" where
  "compile_patterns C [] case_label match_scrutinee_expr ctx = Inr ctx"
| "compile_patterns C (kase_pattern # kase_patterns) case_label match_scrutinee_expr ctx =
     and_then (run (CompilePatternCaseLabelExpr_Compile C kase_pattern case_label) ctx)
       (\<lambda>(switch_kase_expr, ctx1).
     and_then (add_statement switch_kase_expr ctx1) (\<lambda>ctx2.
     and_then (run (CompilePatternBindings_Compile C kase_pattern match_scrutinee_expr) ctx2)
       (\<lambda>(u, ctx3). compile_patterns C kase_patterns case_label match_scrutinee_expr ctx3)))"

definition compile_case ::
  "backend \<Rightarrow> compilers \<Rightarrow> tree \<Rightarrow> tree option \<Rightarrow> tree \<Rightarrow> tree \<Rightarrow> match_case \<Rightarrow> Context
     \<Rightarrow> error + Context" where
  "compile_case B C fndecl tmp end_label match_scrutinee_expr kase ctx =
     (let kase_arm = get_arm kase in
      if \<not> 0 < length (get_patterns kase_arm) then Inl AssertionFailure
      else
        let arm_locus = get_locus_arm kase_arm in
        and_then (run (backend_label C fndecl [] arm_locus) ctx) (\<lambda>(case_label, ctx1).
        and_then (compile_patterns C (get_patterns kase_arm) case_label match_scrutinee_expr ctx1)
          (\<lambda>ctx2.
        and_then (run (CompileExpr_Compile C (get_expr kase)) ctx2) (\<lambda>(kase_expr_tree, ctx3).
        and_then
          (case tmp of
             Some t \<Rightarrow>
               add_statement
                 (assignment_statement B (var_expression B t arm_locus) kase_expr_tree arm_locus)
                 ctx3
           | None \<Rightarrow> Inr ctx3)
          (\<lambda>ctx4.
        add_statement (GOTO_EXPR arm_locus void_type_node end_label) ctx4)))))"

fun compile_cases ::
  "backend \<Rightarrow> compilers \<Rightarrow> tree \<Rightarrow> tree option \<Rightarrow> tree \<Rightarrow> tree \<Rightarrow> match_case list \<Rightarrow> Context
     \<Rightarrow> error + Context" where
  "compile_cases B C fndecl tmp end_label match_scrutinee_expr [] ctx = Inr ctx"
| "compile_cases B C fndecl tmp end_label match_scrutinee_expr (kase # kases) ctx =
     and_then (compile_case B C fndecl tmp end_label match_scrutinee_expr kase ctx)
       (compile_cases B C fndecl tmp end_label match_scrutinee_expr kases)"

definition check_scrutinee_type :: "tyty \<Rightarrow> location \<Rightarrow> Context \<Rightarrow> error + Context" where
  "check_scrutinee_type scrutinee_expr_tyty locus ctx =
     (if get_kind scrutinee_expr_tyty = Kind_ADT
      then (case scrutinee_expr_tyty of
              ADTType is_enum number_of_variants \<Rightarrow>
                if \<not> is_enum then Inl AssertionFailure
                else if \<not> 0 < number_of_variants then Inl AssertionFailure
                else Inr ctx
            | _ \<Rightarrow> Inl UndefinedBehaviour)
      else if get_kind scrutinee_expr_tyty = Kind_FLOAT
      then Inr (sorry_at locus ''match on floating-point types is not yet supported'' ctx)
      else Inr ctx)"

definition allocate_temporary ::
  "backend \<Rightarrow> tyctx \<Rightarrow> compilers \<Rightarrow> tree \<Rightarrow> tyty \<Rightarrow> location \<Rightarrow> Context
     \<Rightarrow> error + (tree option \<times> Context)" where
  "allocate_temporary B T C fndecl expr_tyty locus ctx =
     (let needs_temp = \<not> is_unit T expr_tyty in
      if needs_temp
      then
        let enclosing_scope = peek_enclosing_scope ctx;
            block_type = TyTyResolveCompile_compile B expr_tyty False
        in and_then (run (temporary_variable C fndecl enclosing_scope block_type NULL_TREE
                            False locus) ctx)
             (\<lambda>((tmp, ret_var_stmt), ctx1).
                and_then (add_statement ret_var_stmt ctx1) (\<lambda>ctx2. Inr (Some tmp, ctx2)))
      else Inr (None, ctx))"

definition scrutinee_qualifier ::
  "backend \<Rightarrow> tyctx \<Rightarrow> compilers \<Rightarrow> allocator \<Rightarrow> type_kind \<Rightarrow> match_expr \<Rightarrow> tree \<Rightarrow> Context
     \<Rightarrow> error + ((match_expr \<times> tree \<times> tree option) \<times> Context)" where
  "scrutinee_qualifier B T C new scrutinee_kind expr match_scrutinee_expr ctx =
     (if is_primitive_type_kind T scrutinee_kind
      then Inr ((expr, match_scrutinee_expr, Some match_scrutinee_expr), ctx)
      else if scrutinee_kind = Kind_ADT
      then
        let locus = get_locus_expr (get_scrutinee_expr expr);
            scrutinee_first_record_expr = struct_field_expression B match_scrutinee_expr 0 locus
        in Inr ((expr, match_scrutinee_expr,
                 Some (struct_field_expression B scrutinee_first_record_expr 0 locus)), ctx)
      else if scrutinee_kind = Kind_TUPLE
      then
        (case get_expression_type (get_scrutinee_expr expr) of
           Tuple \<Rightarrow>
             and_then (simplify_tuple_match new expr) (\<lambda>outer_match.
             and_then (run (CompileExpr_Compile C (get_scrutinee_expr outer_match)) ctx)
               (\<lambda>(scrutinee, ctx1). Inr ((outer_match, scrutinee, Some scrutinee), ctx1)))
         | Path \<Rightarrow> Inr ((expr, match_scrutinee_expr, None), ctx)
         | _ \<Rightarrow> Inl Unreachable)
      else Inl Unreachable)"

definition lower_switch ::
  "backend \<Rightarrow> compilers \<Rightarrow> tree \<Rightarrow> tree option \<Rightarrow> match_expr \<Rightarrow> tree \<Rightarrow> tree option \<Rightarrow> tree
     \<Rightarrow> Context \<Rightarrow> error + (tree \<times> Context)" where
  "lower_switch B C fndecl tmp expr match_scrutinee_expr qualifier translated ctx =
     and_then (run (backend_label C fndecl [] (get_locus_match expr)) ctx) (\<lambda>(end_label, ctx1).
     let end_label_decl_statement = label_definition_statement B end_label;
         enclosing_scope = peek_enclosing_scope ctx1
     in
     and_then (run (backend_block C fndecl enclosing_scope [] UnknownLocus UnknownLocus) ctx1)
       (\<lambda>(switch_body_block, ctx2).
     and_then (compile_cases B C fndecl tmp end_label match_scrutinee_expr (get_match_cases expr)
                 (push_block switch_body_block ctx2)) (\<lambda>ctx3.
     and_then (pop_block B ctx3) (\<lambda>(match_body, ctx4).
       case qualifier of
         None \<Rightarrow> Inl UndefinedBehaviour
       | Some match_scrutinee_expr_qualifier_expr \<Rightarrow>
           and_then (add_statement
                       (SWITCH_EXPR (get_locus_match expr)
                          (TREE_TYPE B match_scrutinee_expr_qualifier_expr)
                          match_scrutinee_expr_qualifier_expr match_body) ctx4) (\<lambda>ctx5.
           and_then (add_statement end_label_decl_statement ctx5) (\<lambda>ctx6.
             Inr (case tmp of
                    Some t \<Rightarrow> var_expression B t (get_locus_match expr)
                  | None \<Rightarrow> translated,
                  ctx6)))))))"

definition visit_MatchExpr ::
  "backend \<Rightarrow> tyctx \<Rightarrow> compilers \<Rightarrow> allocator \<Rightarrow> match_expr \<Rightarrow> tree \<Rightarrow> Context
     \<Rightarrow> error + (tree \<times> Context)" where
  "visit_MatchExpr B T C new expr translated ctx =
     (case lookup_type T (get_mappings_expr (get_scrutinee_expr expr)) of
        None \<Rightarrow> Inr (error_mark_node, ctx)
      | Some scrutinee_expr_tyty \<Rightarrow>
          let scrutinee_kind = get_kind scrutinee_expr_tyty in
          if \<not> ((is_primitive_type_kind T scrutinee_kind \<and> scrutinee_kind \<noteq> Kind_NEVER)
                 \<or> scrutinee_kind = Kind_ADT \<or> scrutinee_kind = Kind_TUPLE)
          then Inl AssertionFailure
          else
            and_then (check_scrutinee_type scrutinee_expr_tyty (get_locus_match expr) ctx)
              (\<lambda>ctx0.
            case lookup_type T (get_mappings_match expr) of
              None \<Rightarrow> Inr (error_mark_node, ctx0)
            | Some expr_tyty \<Rightarrow>
                and_then (peek_fn ctx0) (\<lambda>fndecl.
                and_then (allocate_temporary B T C fndecl expr_tyty (get_locus_match expr) ctx0)
                  (\<lambda>(tmp, ctx1).
                and_then (run (CompileExpr_Compile C (get_scrutinee_expr expr)) ctx1)
                  (\<lambda>(match_scrutinee_expr, ctx2).
                and_then (scrutinee_qualifier B T C new scrutinee_kind expr
                            match_scrutinee_expr ctx2)
                  (\<lambda>((expr', match_scrutinee_expr', qualifier), ctx3).
                   lower_switch B C fndecl tmp expr' match_scrutinee_expr' qualifier
                     translated ctx3))))))"

section \<open>A reference matcher\<close>

text \<open>
  The spec compares the rearranged match with the original one under a reference
  matcher.  This one follows the source language: a scrutinee value is tried against
  the cases in order, an arm matches when one of its alternatives matches and its guard,
  if any, holds, and the value of the match is the value of the first matching case.
  A match with no matching case has no value.  A value is a literal or a tuple of
  values, and a literal pattern matches the value of the same literal.  Identifier
  patterns match every value; the variables they bind are not tracked.
\<close>

datatype val = VLit literal | VTuple "val list"

fun pattern_matches :: "pattern \<Rightarrow> val \<Rightarrow> bool"
  and items_match :: "tuple_pattern_items \<Rightarrow> val list \<Rightarrow> bool"
  and patterns_match :: "pattern list \<Rightarrow> val list \<Rightarrow> bool" where
  "pattern_matches (LiteralPattern l) v = (v = VLit l)"
| "pattern_matches (IdentifierPattern _) v = True"
| "pattern_matches WildcardPattern v = True"
| "pattern_matches (TuplePattern _ None _) v = False"
| "pattern_matches (TuplePattern _ (Some items) _) v =
     (case v of VTuple vs \<Rightarrow> items_match items vs | _ \<Rightarrow> False)"
| "items_match (TuplePatternItemsMultiple ps) vs = patterns_match ps vs"
| "items_match (TuplePatternItemsRanged lower upper) vs =
     (length lower + length upper \<le> length vs \<and>
      patterns_match lower (take (length lower) vs) \<and>
      patterns_match upper (drop (length vs - length upper) vs))"
| "patterns_match [] vs = (vs = [])"
| "patterns_match (p # ps) vs =
     (case vs of [] \<Rightarrow> False | v # vs' \<Rightarrow> pattern_matches p v \<and> patterns_match ps vs')"

type_synonym env = "string \<Rightarrow> val"

fun eval :: "env \<Rightarrow> expr \<Rightarrow> val option"
  and eval_list :: "env \<Rightarrow> expr list \<Rightarrow> val list option"
  and eval_match :: "env \<Rightarrow> match_expr \<Rightarrow> val option"
  and eval_cases :: "env \<Rightarrow> val \<Rightarrow> match_case list \<Rightarrow> val option"
  and arm_matches :: "env \<Rightarrow> val \<Rightarrow> match_arm \<Rightarrow> bool" where
  "eval env (LiteralExpr _ l _) = Some (VLit l)"
| "eval env (PathInExpression _ x _) = Some (env x)"
| "eval env (IdentifierExpr _ x _) = Some (env x)"
| "eval env (TupleExpr _ es _ _ _) = map_option VTuple (eval_list env es)"
| "eval env (Match me) = eval_match env me"
| "eval_list env [] = Some []"
| "eval_list env (e # es) =
     (case eval env e of None \<Rightarrow> None
      | Some v \<Rightarrow> (case eval_list env es of None \<Rightarrow> None | Some vs \<Rightarrow> Some (v # vs)))"
| "eval_match env (MatchExpr _ s cs _ _ _) =
     (case eval env s of None \<Rightarrow> None | Some v \<Rightarrow> eval_cases env v cs)"
| "eval_cases env v [] = None"
| "eval_cases env v (MatchCase m a e # cs) =
     (if arm_matches env v a then eval env e else eval_cases env v cs)"
| "arm_matches env v (MatchArm ps _ None _) = list_ex (\<lambda>p. pattern_matches p v) ps"
| "arm_matches env v (MatchArm ps _ (Some g) _) =
     (list_ex (\<lambda>p. pattern_matches p v) ps \<and> eval env g = Some (VLit (Literal ''true'' Lit_BOOL)))"

section \<open>Allocators, and the inputs of the examples\<close>

text \<open>
  What C++ promises of an allocator: a new object does not share its address with an
  object that is alive.  \<open>bump\<close> is one such allocator, handing out ascending
  addresses.
\<close>

definition fresh_allocator :: "allocator \<Rightarrow> bool" where
  "fresh_allocator new = (\<forall>live. new live \<notin> set live)"

definition bump :: allocator where
  "bump live = Suc (fold max live 0)"

text \<open>
  Scenario 1 of the spec,
  \<^verbatim>\<open>match (a, b) { (1, 2) => 10, (1, 3) => 20, _ => 30 }\<close>,
  and a match on a tuple whose second element is a tuple,
  \<^verbatim>\<open>match (a, (b, c)) { (1, (2, 3)) => 10 }\<close>.
\<close>

definition int_pattern :: "string \<Rightarrow> pattern" where
  "int_pattern n = LiteralPattern (Literal n Lit_INT)"

definition int_expr :: "string \<Rightarrow> expr" where
  "int_expr n = LiteralExpr 0 (Literal n Lit_INT) UnknownLocus"

definition path :: "string \<Rightarrow> expr" where
  "path x = PathInExpression 0 x UnknownLocus"

definition pair_pattern :: "pattern \<Rightarrow> pattern \<Rightarrow> pattern" where
  "pair_pattern p q = TuplePattern 7 (Some (TuplePatternItemsMultiple [p, q])) (Locus 3)"

definition scenario_match :: match_expr where
  "scenario_match =
     MatchExpr 1 (TupleExpr 2 [path ''a'', path ''b''] [] [] (Locus 1))
       [MatchCase 10
          (MatchArm [pair_pattern (int_pattern ''1'') (int_pattern ''2'')] (Locus 4) None [])
          (int_expr ''10''),
        MatchCase 11
          (MatchArm [pair_pattern (int_pattern ''1'') (int_pattern ''3'')] (Locus 5) None [])
          (int_expr ''20''),
        MatchCase 12 (MatchArm [WildcardPattern] (Locus 6) None []) (int_expr ''30'')]
       [] [] (Locus 0)"

definition nested_scrutinee :: expr where
  "nested_scrutinee =
     TupleExpr 2 [path ''a'', TupleExpr 3 [path ''b'', path ''c''] [] [] (Locus 2)]
       [] [] (Locus 1)"

definition nested_match :: match_expr where
  "nested_match =
     MatchExpr 1 nested_scrutinee
       [MatchCase 10
          (MatchArm [pair_pattern (int_pattern ''1'')
                       (pair_pattern (int_pattern ''2'') (int_pattern ''3''))]
             (Locus 4) None [])
          (int_expr ''10'')]
       [] [] (Locus 0)"

definition all_five :: env where
  "all_five x = VLit (Literal ''5'' Lit_INT)"

definition one_three :: env where
  "one_three x = (if x = ''a'' then VLit (Literal ''1'' Lit_INT) else VLit (Literal ''3'' Lit_INT))"

text \<open>
  \<^verbatim>\<open>match x { 1 => 10, 2 | 3 => 20 }\<close> with the match expression at a given node.
\<close>

definition int_match :: "mappings \<Rightarrow> match_expr" where
  "int_match m =
     MatchExpr m (PathInExpression 2 ''x'' (Locus 1))
       [MatchCase 10 (MatchArm [int_pattern ''1''] (Locus 4) None []) (int_expr ''10''),
        MatchCase 11 (MatchArm [int_pattern ''2'', int_pattern ''3''] (Locus 5) None [])
          (int_expr ''20'')]
       [] [] (Locus 0)"

text \<open>
  \<^verbatim>\<open>match x { 1 => (), _ => () }\<close>, a match of unit type.
\<close>

definition unit_match :: match_expr where
  "unit_match =
     MatchExpr 1 (PathInExpression 2 ''x'' (Locus 1))
       [MatchCase 10 (MatchArm [int_pattern ''1''] (Locus 4) None [])
          (TupleExpr 12 [] [] [] (Locus 6)),
        MatchCase 11 (MatchArm [WildcardPattern] (Locus 5) None [])
          (TupleExpr 13 [] [] [] (Locus 7))]
       [] [] (Locus 0)"

section \<open>A backend, facts and compilers for the examples\<close>

text \<open>
  A reader of decimal numbers stands for \<^verbatim>\<open>mpz_init_set_str\<close>, and trees named after
  the nodes of GCC for what the backend builds.  The type of a node is its first
  subtree.  The facts give node 1 the unit type, node 2 the type \<^verbatim>\<open>i8\<close> and node 3 a
  slice type; the expression compiler gives the expression of node 3 a value of slice
  type and every other expression a value of type \<^verbatim>\<open>i8\<close>.
\<close>

definition digit_of :: "char \<Rightarrow> int option" where
  "digit_of c =
     (let code = (of_char c :: nat)
      in if 48 \<le> code \<and> code \<le> 57 then Some (int code - 48) else None)"

fun decimal :: "string \<Rightarrow> int \<Rightarrow> int option" where
  "decimal [] acc = Some acc"
| "decimal (c # cs) acc =
     (case digit_of c of None \<Rightarrow> None | Some d \<Rightarrow> decimal cs (10 * acc + d))"

definition read_decimal :: "string \<Rightarrow> int option" where
  "read_decimal s =
     (case s of
        [] \<Rightarrow> None
      | c # cs \<Rightarrow>
          if c = CHR ''-'' then (if cs = [] then None else map_option uminus (decimal cs 0))
          else decimal s 0)"

definition example_backend :: backend where
  "example_backend = \<lparr>
     TREE_TYPE = (\<lambda>t. case t of Node _ (ty # _) \<Rightarrow> ty | _ \<Rightarrow> NULL_TREE),
     TREE_CODE = (\<lambda>t. if t = Node ''array_type'' [] then ARRAY_TYPE
                     else if t = Node ''slice'' [] then RECORD_TYPE else OTHER_CODE),
     SLICE_TYPE_P = (\<lambda>t. t = Node ''slice'' []),
     TYPE_DOMAIN = (\<lambda>t. Node ''domain'' [t]),
     TYPE_MAX_VALUE = (\<lambda>t. Node ''max'' [t]),
     TYPE_MIN_VALUE = (\<lambda>t. Node ''min'' [t]),
     TYPE_PRECISION = (\<lambda>t. 64),
     TYPE_SIGN = (\<lambda>t. UNSIGNED),
     wi_to_offset = (\<lambda>t. case t of INTEGER_CST _ n \<Rightarrow> n | _ \<Rightarrow> 0),
     TyTyResolveCompile_compile = (\<lambda>t mode.
        if get_kind t = Kind_SLICE then Node ''slice'' []
        else if get_kind t = Kind_INT then Node ''i8'' [] else Node ''type'' []),
     build_reference_type = (\<lambda>t. Node ''reference_type'' [t]),
     address_expression = (\<lambda>e t l. Node ''addr_expr'' [t, e]),
     indirect_expression = (\<lambda>t e known_valid l. Node ''indirect_ref'' [t, e]),
     call_expression = (\<lambda>f args chain l. Node ''call_expr'' (f # args)),
     constructor_expression = (\<lambda>t is_variant vals union_index l. Node ''constructor'' (t # vals)),
     struct_field_expression = (\<lambda>e i l.
        Node ''component_ref'' [Node ''field_type'' [], e, INTEGER_CST size_type_node (int i)]),
     var_expression = (\<lambda>v l. v),
     assignment_statement = (\<lambda>lhs rhs l. Node ''modify_expr'' [lhs, rhs]),
     label_definition_statement = (\<lambda>l. Node ''label_expr'' [l]),
     block_add_statements = (\<lambda>b stmts. Node ''bind_expr'' (b # stmts)),
     unit_expression = INTEGER_CST (Node ''integer_type'' []) 0,
     mpz_init_set_str = (\<lambda>s base. read_decimal s),
     get_type_static_bounds = (\<lambda>t. if t = Node ''i8'' [] then (- 128, 127) else (0, 255)),
     mpz_get_double_int = (\<lambda>t v wrap. v),
     double_int_to_tree = (\<lambda>t v. INTEGER_CST t v)
   \<rparr>"


definition example_tyctx :: tyctx where
  "example_tyctx = \<lparr>
     lookup_type = (\<lambda>m. if m = 1 then Some (OtherType Kind_TUPLE 0)
                        else if m = 2 then Some (OtherType Kind_INT 8)
                        else if m = 3 then Some (OtherType Kind_SLICE 0) else None),
     lookup_operator_overload = (\<lambda>m. None),
     lookup_receiver = (\<lambda>m. None),
     lookup_autoderef_mappings = (\<lambda>m. None),
     lookup_resolved_name = (\<lambda>m. None),
     lookup_node_to_hir = (\<lambda>m n. None),
     is_unit = (\<lambda>t. t = OtherType Kind_TUPLE 0),
     is_primitive_type_kind = (\<lambda>k. k = Kind_INT \<or> k = Kind_BOOL),
     get_name = (\<lambda>t. if t = OtherType Kind_INT 8 then ''i8'' else ''?''),
     has_subsititions_defined = (\<lambda>f. False)
   \<rparr>"

definition example_compilers :: compilers where
  "example_compilers = \<lparr>
     CompileExpr_Compile = (\<lambda>e st.
        case e of
          LiteralExpr m lit l \<Rightarrow>
            Inr (Node ''literal'' [Node ''i8'' [], Node (as_string lit) []], [], st)
        | TupleExpr m elems ia oa l \<Rightarrow> Inr (INTEGER_CST (Node ''integer_type'' []) 0, [], st)
        | _ \<Rightarrow>
            Inr (Node ''value''
                   [if get_mappings_expr e = 3 then Node ''slice'' [] else Node ''i8'' [],
                    INTEGER_CST size_type_node (int (get_mappings_expr e))],
                 [], st)),
     CompileInherentImplItem_Compile = (\<lambda>item fntype is_query_mode l st.
        Inr (Node ''fn_addr'' [], [], Suc st)),
     resolve_method_address = (\<lambda>fntype r receiver segment m l st.
        Inr (Node ''fn_addr'' [], [], Suc st)),
     RustLangItem_ToString = (\<lambda>i. ''deref''),
     backend_label = (\<lambda>fndecl name l st.
        Inr (Node ''label_decl'' [INTEGER_CST size_type_node (int st)], [], Suc st)),
     temporary_variable = (\<lambda>fndecl scope type init address_taken l st.
        Inr ((Node ''var_decl'' [type, INTEGER_CST size_type_node (int st)],
              Node ''decl_expr'' [Node ''var_decl'' [type, INTEGER_CST size_type_node (int st)]]),
             [], Suc st)),
     backend_block = (\<lambda>fndecl scope vars s e st.
        Inr (Node ''block'' [INTEGER_CST size_type_node (int st)], [], Suc st)),
     CompilePatternCaseLabelExpr_Compile = (\<lambda>p case_label st.
        Inr (Node ''case_label_expr''
               [case p of LiteralPattern lit \<Rightarrow> Node (as_string lit) [] | _ \<Rightarrow> NULL_TREE,
                case_label],
             [], st)),
     CompilePatternBindings_Compile = (\<lambda>p scrutinee st. Inr ((), [], st))
   \<rparr>"

definition example_context :: Context where
  "example_context = \<lparr>statements = [[]], scope_stack = [Node ''block'' []],
     fn_stack = [Node ''function_decl'' []], diagnostics = [], other_state = 0\<rparr>"

definition i8 :: tyty where "i8 = OtherType Kind_INT 8"

section \<open>Properties of the map\<close>

lemma fold_max_ge: "a \<le> fold max xs (a::nat)"
  by (induction xs arbitrary: a) (auto intro: order_trans [OF max.cobounded2])

lemma fold_max_mem: "x \<in> set xs \<Longrightarrow> x \<le> fold max xs (a::nat)"
proof (induction xs arbitrary: a)
  case Nil
  then show ?case by simp
next
  case (Cons y ys)
  show ?case
  proof (cases "x = y")
    case True
    have "max y a \<le> fold max ys (max y a)" by (rule fold_max_ge)
    with True show ?thesis by simp
  next
    case False
    with Cons show ?thesis by simp
  qed
qed

lemma fresh_allocator_bump: "fresh_allocator bump"
  unfolding fresh_allocator_def bump_def
  using fold_max_mem [where a = 0] by (metis Suc_n_not_le_n)

lemma map_find_None: "map_find a m = None \<longleftrightarrow> a \<notin> set (map_keys m)"
  by (induction a m rule: map_find.induct) (auto simp: map_keys_def)

definition singletons :: "pattern_map \<Rightarrow> bool" where
  "singletons m = list_all (\<lambda>e. length (snd e) = 1) m"

lemma singletons_assign: "singletons m \<Longrightarrow> singletons (map_assign k [c] m)"
  by (induction m) (auto simp: singletons_def)

lemma length_assign_new:
  "fst k \<notin> set (map_keys m) \<Longrightarrow> length (map_assign k v m) = Suc (length m)"
  by (induction m) (auto simp: map_keys_def)

text \<open>The cases that add to the map: those whose first pattern is a tuple of listed items.\<close>

fun contributes :: "match_case \<Rightarrow> bool" where
  "contributes (MatchCase _ (MatchArm (TuplePattern _ (Some (TuplePatternItemsMultiple _)) _ # _) _ _ _) _) = True"
| "contributes _ = False"

lemma organize_cases_singletons:
  "fresh_allocator new \<Longrightarrow> organize_cases new cs m = Inr mp \<Longrightarrow> singletons m \<Longrightarrow>
     singletons mp \<and> length mp = length m + length (filter contributes cs)"
proof (induction cs arbitrary: m)
  case Nil
  then show ?case by simp
next
  case (Cons c cs)
  have fr: "map_find (new (map_keys m)) m = None"
    using Cons.prems(1) by (simp add: map_find_None fresh_allocator_def)
  have nk: "new (map_keys m) \<notin> set (map_keys m)"
    using Cons.prems(1) by (simp add: fresh_allocator_def)
  obtain mm ps loc g at e where c: "c = MatchCase mm (MatchArm ps loc g at) e"
    by (metis match_case.exhaust match_arm.exhaust)
  show ?case
    using Cons.prems(2,3) Cons.IH [OF Cons.prems(1)] fr nk
    by (auto simp: c Let_def singletons_assign length_assign_new
          split: list.splits pattern.splits option.splits tuple_pattern_items.splits)
qed

text \<open>
  Claim C1.  The claim has the cases with structurally equal first elements under one
  key.  The map compares keys by address, and the first element of every case is a new
  object, so the lookup never finds it: under any allocator that keeps live objects
  apart, every case that adds to the map gets a key of its own, and every key holds
  exactly one case, whatever the patterns are.
\<close>

theorem organize_tuple_patterns_one_case_per_key:
  assumes "fresh_allocator new"
    and "organize_tuple_patterns new expr = Inr mp"
  shows "singletons mp \<and> length mp = length (filter contributes (get_match_cases expr))"
  using assms organize_cases_singletons [of new "get_match_cases expr" "[]" mp]
  by (simp add: organize_tuple_patterns_def singletons_def split: if_splits)

theorem organize_tuple_patterns_one_case_per_key_witness:
  "fresh_allocator bump \<and>
   organize_tuple_patterns bump scenario_match =
     Inr [((1, int_pattern ''1''),
           [MatchCase 10 (MatchArm [int_pattern ''2''] UnknownLocus None []) (int_expr ''10'')]),
          ((2, int_pattern ''1''),
           [MatchCase 11 (MatchArm [int_pattern ''3''] UnknownLocus None []) (int_expr ''20'')])] \<and>
   length (filter contributes (get_match_cases scenario_match)) = 2"
proof -
  have ev: "organize_tuple_patterns bump scenario_match =
     Inr [((1, int_pattern ''1''),
           [MatchCase 10 (MatchArm [int_pattern ''2''] UnknownLocus None []) (int_expr ''10'')]),
          ((2, int_pattern ''1''),
           [MatchCase 11 (MatchArm [int_pattern ''3''] UnknownLocus None []) (int_expr ''20'')])]"
    by (simp add: organize_tuple_patterns_def scenario_match_def pair_pattern_def
          bump_def map_keys_def)
  from organize_tuple_patterns_one_case_per_key [OF fresh_allocator_bump ev]
  show ?thesis using fresh_allocator_bump ev by simp
qed

section \<open>Wildcards and alternatives\<close>

fun first_is_wildcard :: "match_case \<Rightarrow> bool" where
  "first_is_wildcard (MatchCase _ (MatchArm (WildcardPattern # _) _ _ _) _) = True"
| "first_is_wildcard _ = False"

fun first_alternative_only :: "match_case \<Rightarrow> match_case" where
  "first_alternative_only (MatchCase m (MatchArm ps loc g at) e) =
     MatchCase m (MatchArm (take 1 ps) loc g at) e"

lemma organize_cases_skip_wildcards:
  "organize_cases new (filter (\<lambda>c. \<not> first_is_wildcard c) cs) m = organize_cases new cs m"
proof (induction cs arbitrary: m)
  case Nil
  then show ?case by simp
next
  case (Cons c cs)
  obtain mm ps loc g at e where c: "c = MatchCase mm (MatchArm ps loc g at) e"
    by (metis match_case.exhaust match_arm.exhaust)
  show ?case
  proof (cases "first_is_wildcard c")
    case True
    then obtain qs where "ps = WildcardPattern # qs"
      unfolding c by (cases ps; cases "hd ps") auto
    with True Cons.IH show ?thesis by (simp add: c)
  next
    case False
    then show ?thesis
      using Cons.IH
      by (simp add: c Let_def
            split: list.splits pattern.splits option.splits tuple_pattern_items.splits)
  qed
qed

lemma organize_cases_first_alternative:
  "organize_cases new (map first_alternative_only cs) m = organize_cases new cs m"
proof (induction cs arbitrary: m)
  case Nil
  then show ?case by simp
next
  case (Cons c cs)
  obtain mm ps loc g at e where c: "c = MatchCase mm (MatchArm ps loc g at) e"
    by (metis match_case.exhaust match_arm.exhaust)
  show ?case
    using Cons.IH
    by (cases ps)
       (simp_all add: c Let_def
          split: list.splits pattern.splits option.splits tuple_pattern_items.splits)
qed

lemma simplify_tuple_match_cong_organize:
  assumes "organize_tuple_patterns new (MatchExpr m (TupleExpr tm es tia toa tloc) cs ia oa loc)
           = organize_tuple_patterns new (MatchExpr m (TupleExpr tm es tia toa tloc) cs' ia oa loc)"
  shows "simplify_tuple_match new (MatchExpr m (TupleExpr tm es tia toa tloc) cs ia oa loc)
         = simplify_tuple_match new (MatchExpr m (TupleExpr tm es tia toa tloc) cs' ia oa loc)"
  by (simp add: simplify_tuple_match.simps [of new m "TupleExpr tm es tia toa tloc"] assms)

text \<open>
  Claim C5.  Only the first alternative of an arm is read: cutting every arm down to its
  first alternative changes neither the map nor the rearranged match.  A case whose
  first alternative is a wildcard adds nothing: removing these cases changes neither
  the map nor the rearranged match, so no case of the nested match comes from them.
\<close>

theorem organize_tuple_patterns_ignores_wildcards:
  "organize_tuple_patterns new (MatchExpr m s (map first_alternative_only cs) ia oa loc)
     = organize_tuple_patterns new (MatchExpr m s cs ia oa loc) \<and>
   organize_tuple_patterns new (MatchExpr m s (filter (\<lambda>c. \<not> first_is_wildcard c) cs) ia oa loc)
     = organize_tuple_patterns new (MatchExpr m s cs ia oa loc) \<and>
   simplify_tuple_match new
       (MatchExpr m (TupleExpr tm es tia toa tloc) (map first_alternative_only cs) ia oa loc)
     = simplify_tuple_match new (MatchExpr m (TupleExpr tm es tia toa tloc) cs ia oa loc) \<and>
   simplify_tuple_match new
       (MatchExpr m (TupleExpr tm es tia toa tloc) (filter (\<lambda>c. \<not> first_is_wildcard c) cs) ia oa loc)
     = simplify_tuple_match new (MatchExpr m (TupleExpr tm es tia toa tloc) cs ia oa loc)"
proof -
  have a: "organize_tuple_patterns new (MatchExpr m s' (map first_alternative_only cs) ia oa loc)
     = organize_tuple_patterns new (MatchExpr m s' cs ia oa loc)" for s'
    by (simp add: organize_tuple_patterns_def organize_cases_first_alternative)
  have b: "organize_tuple_patterns new
             (MatchExpr m s' (filter (\<lambda>c. \<not> first_is_wildcard c) cs) ia oa loc)
     = organize_tuple_patterns new (MatchExpr m s' cs ia oa loc)" for s'
    by (simp add: organize_tuple_patterns_def organize_cases_skip_wildcards)
  show ?thesis
    using a b simplify_tuple_match_cong_organize [OF a] simplify_tuple_match_cong_organize [OF b]
    by simp
qed

section \<open>The recursion of simplify_tuple_match\<close>

text \<open>
  The arity of a scrutinee: the number of elements of a tuple expression, and one for
  any other expression.
\<close>

fun tuple_arity :: "expr \<Rightarrow> nat" where
  "tuple_arity (TupleExpr _ elems _ _ _) = length elems"
| "tuple_arity _ = 1"

text \<open>
  Claim C6, as stated: every recursive call has a scrutinee whose arity is one less than
  the caller's.  For \<^verbatim>\<open>match (a, (b, c)) { (1, (2, 3)) => 10 }\<close> the one element left
  after the head is used bare, and it is the pair \<^verbatim>\<open>(b, c)\<close>: the recursive call has a
  scrutinee of arity two, as its caller has, and recurses once more.
\<close>

theorem simplify_tuple_match_arity_counterexample:
  "\<not> tuple_arity (remaining_of 2
         (tl [path ''a'', TupleExpr 3 [path ''b'', path ''c''] [] [] (Locus 2)]) [] (Locus 1))
      < tuple_arity nested_scrutinee \<and>
   simplify_tuple_match bump nested_match =
     Inr (MatchExpr 1 (path ''a'')
       [MatchCase 1 (MatchArm [int_pattern ''1''] (Locus 0) None [])
         (Match (MatchExpr 1 (path ''b'')
           [MatchCase 1 (MatchArm [int_pattern ''2''] (Locus 0) None [])
             (Match (MatchExpr 1 (path ''c'')
               [MatchCase 10 (MatchArm [int_pattern ''3''] UnknownLocus None [])
                 (int_expr ''10'')]
               [] [] (Locus 0)))]
           [] [] (Locus 0)))]
       [] [] (Locus 0))"
  by (simp add: nested_scrutinee_def nested_match_def remaining_of_def path_def
        simplify_tuple_match.simps organize_tuple_patterns_def pair_pattern_def
        bump_def map_keys_def)

lemma collect_Inr:
  "collect rs = Inr xs \<Longrightarrow> list_all2 (\<lambda>r x. r = Inr x) rs xs"
proof (induction rs arbitrary: xs)
  case Nil
  then show ?case by simp
next
  case (Cons r rs)
  then show ?case
    by (cases r; cases "collect rs") auto
qed

lemma simplify_tuple_match_unfold:
  "2 \<le> length elems \<Longrightarrow>
    simplify_tuple_match new (MatchExpr m (TupleExpr tm elems tia toa tloc) cs ia oa loc) =
      (case organize_tuple_patterns new
              (MatchExpr m (TupleExpr tm elems tia toa tloc) cs ia oa loc) of
         Inl e \<Rightarrow> Inl e
       | Inr mp \<Rightarrow>
           (case collect
                   (map (\<lambda>entry.
                           case simplify_tuple_match new
                                  (MatchExpr m (remaining_of tm (tl elems) toa tloc)
                                     (snd entry) [] oa loc) of
                             Inl e \<Rightarrow> Inl e
                           | Inr inner_match \<Rightarrow>
                               Inr (MatchCase m (MatchArm [snd (fst entry)] loc None [])
                                      (Match inner_match)))
                        mp) of
              Inl e \<Rightarrow> Inl e
            | Inr outer_cases \<Rightarrow> Inr (MatchExpr m (hd elems) outer_cases [] oa loc)))"
  by (simp add: simplify_tuple_match.simps [of new m "TupleExpr tm elems tia toa tloc"])

lemma simplify_tuple_match_inner:
  assumes "2 \<le> length elems"
    and "simplify_tuple_match new (MatchExpr m (TupleExpr tm elems tia toa tloc) cs ia oa loc)
         = Inr r"
  shows "\<exists>mp. organize_tuple_patterns new
                 (MatchExpr m (TupleExpr tm elems tia toa tloc) cs ia oa loc) = Inr mp \<and>
              get_scrutinee_expr r = hd elems \<and>
              list_all2
                (\<lambda>entry outer_case.
                   \<exists>inner_match.
                     simplify_tuple_match new
                       (MatchExpr m (remaining_of tm (tl elems) toa tloc) (snd entry) [] oa loc)
                       = Inr inner_match \<and>
                     outer_case = MatchCase m (MatchArm [snd (fst entry)] loc None [])
                                    (Match inner_match))
                mp (get_match_cases r)"
proof -
  let ?e = "MatchExpr m (TupleExpr tm elems tia toa tloc) cs ia oa loc"
  let ?f = "\<lambda>entry.
      case simplify_tuple_match new
             (MatchExpr m (remaining_of tm (tl elems) toa tloc) (snd entry) [] oa loc) of
        Inl e \<Rightarrow> Inl e
      | Inr inner_match \<Rightarrow>
          Inr (MatchCase m (MatchArm [snd (fst entry)] loc None []) (Match inner_match))"
  from assms obtain mp where mp: "organize_tuple_patterns new ?e = Inr mp"
    by (cases "organize_tuple_patterns new ?e") (auto simp: simplify_tuple_match_unfold)
  from assms mp obtain outer_cases where oc: "collect (map ?f mp) = Inr outer_cases"
    and r: "r = MatchExpr m (hd elems) outer_cases [] oa loc"
    by (cases "collect (map ?f mp)") (auto simp: simplify_tuple_match_unfold)
  from collect_Inr [OF oc] have "list_all2 (\<lambda>entry x. ?f entry = Inr x) mp outer_cases"
    by (simp add: list_all2_map1)
  then have "list_all2
     (\<lambda>entry outer_case.
        \<exists>inner_match.
          simplify_tuple_match new
            (MatchExpr m (remaining_of tm (tl elems) toa tloc) (snd entry) [] oa loc)
            = Inr inner_match \<and>
          outer_case = MatchCase m (MatchArm [snd (fst entry)] loc None []) (Match inner_match))
     mp outer_cases"
    by (rule list_all2_mono) (auto split: sum.splits)
  with mp r show ?thesis by simp
qed

text \<open>
  Claim C6, amended.  \<open>simplify_tuple_match\<close> is a total function: its definition
  above is accepted with the size of the scrutinee as the measure.  A match whose
  scrutinee is not a tuple expression is returned as it is, without a recursive call.
  A tuple scrutinee of fewer than two elements fails the assertion.  For a tuple
  scrutinee of two or more elements the result is built from the map and from one
  recursive call for each entry of the map, and every such call is on a match whose
  scrutinee is \<open>remaining_of\<close> and whose cases are those of the entry; the inner
  matches of the result are the results of these calls.  \<open>remaining_of\<close> is a
  strictly smaller expression than the caller's scrutinee: the tuple without its head,
  of arity one less, when more than one element is left, and the one element left, used
  bare, otherwise.
\<close>

theorem simplify_tuple_match_scrutinee_decreases:
  "(get_expression_type s \<noteq> Tuple \<longrightarrow>
      simplify_tuple_match new (MatchExpr m s cs ia oa loc) = Inr (MatchExpr m s cs ia oa loc)) \<and>
   (length elems < 2 \<longrightarrow>
      simplify_tuple_match new (MatchExpr m (TupleExpr tm elems tia toa tloc) cs ia oa loc)
        = Inl AssertionFailure) \<and>
   (2 \<le> length elems \<longrightarrow>
      simplify_tuple_match new (MatchExpr m (TupleExpr tm elems tia toa tloc) cs ia oa loc) =
        (case organize_tuple_patterns new
                (MatchExpr m (TupleExpr tm elems tia toa tloc) cs ia oa loc) of
           Inl e \<Rightarrow> Inl e
         | Inr mp \<Rightarrow>
             (case collect
                     (map (\<lambda>entry.
                             case simplify_tuple_match new
                                    (MatchExpr m (remaining_of tm (tl elems) toa tloc)
                                       (snd entry) [] oa loc) of
                               Inl e \<Rightarrow> Inl e
                             | Inr inner_match \<Rightarrow>
                                 Inr (MatchCase m (MatchArm [snd (fst entry)] loc None [])
                                        (Match inner_match)))
                          mp) of
                Inl e \<Rightarrow> Inl e
              | Inr outer_cases \<Rightarrow> Inr (MatchExpr m (hd elems) outer_cases [] oa loc)))) \<and>
   (2 \<le> length elems \<and>
    simplify_tuple_match new (MatchExpr m (TupleExpr tm elems tia toa tloc) cs ia oa loc)
      = Inr r \<longrightarrow>
      (\<exists>mp. organize_tuple_patterns new
               (MatchExpr m (TupleExpr tm elems tia toa tloc) cs ia oa loc) = Inr mp \<and>
            get_scrutinee_expr r = hd elems \<and>
            list_all2
              (\<lambda>entry outer_case.
                 \<exists>inner_match.
                   simplify_tuple_match new
                     (MatchExpr m (remaining_of tm (tl elems) toa tloc) (snd entry) [] oa loc)
                     = Inr inner_match \<and>
                   outer_case = MatchCase m (MatchArm [snd (fst entry)] loc None [])
                                  (Match inner_match))
              mp (get_match_cases r))) \<and>
   (2 \<le> length elems \<longrightarrow>
      size (remaining_of tm (tl elems) toa tloc) < size (TupleExpr tm elems tia toa tloc)) \<and>
   (2 < length elems \<longrightarrow>
      remaining_of tm (tl elems) toa tloc = TupleExpr tm (tl elems) [] toa tloc \<and>
      tuple_arity (remaining_of tm (tl elems) toa tloc) + 1
        = tuple_arity (TupleExpr tm elems tia toa tloc)) \<and>
   (length elems = 2 \<longrightarrow> remaining_of tm (tl elems) toa tloc = elems ! 1)"
proof -
  have base: "get_expression_type s \<noteq> Tuple \<Longrightarrow>
      simplify_tuple_match new (MatchExpr m s cs ia oa loc) = Inr (MatchExpr m s cs ia oa loc)"
    by (cases s) (simp_all add: simplify_tuple_match.simps)
  have short: "length elems < 2 \<Longrightarrow>
      simplify_tuple_match new (MatchExpr m (TupleExpr tm elems tia toa tloc) cs ia oa loc)
        = Inl AssertionFailure"
    by (simp add: simplify_tuple_match.simps [of new m "TupleExpr tm elems tia toa tloc"])
  have smaller: "2 \<le> length elems \<Longrightarrow>
      size (remaining_of tm (tl elems) toa tloc) < size (TupleExpr tm elems tia toa tloc)"
    using size_hd_tl_less [of elems] size_tl_less [of elems]
    by (auto simp: remaining_of_def)
  have wrapped: "2 < length elems \<Longrightarrow>
      remaining_of tm (tl elems) toa tloc = TupleExpr tm (tl elems) [] toa tloc \<and>
      tuple_arity (remaining_of tm (tl elems) toa tloc) + 1
        = tuple_arity (TupleExpr tm elems tia toa tloc)"
    by (auto simp: remaining_of_def)
  have bare: "length elems = 2 \<Longrightarrow> remaining_of tm (tl elems) toa tloc = elems ! 1"
    by (cases elems; cases "tl elems") (auto simp: remaining_of_def)
  note unfold = simplify_tuple_match_unfold [of elems new m tm tia toa tloc cs ia oa loc]
  note inner = simplify_tuple_match_inner [of elems new m tm tia toa tloc cs ia oa loc r]
  show ?thesis
    apply (intro conjI impI)
    subgoal by (rule base)
    subgoal by (rule short)
    subgoal by (rule unfold)
    subgoal using inner by blast
    subgoal by (rule smaller)
    subgoal using wrapped by blast
    subgoal using wrapped by blast
    subgoal by (rule bare)
    done
qed


theorem simplify_tuple_match_scrutinee_decreases_witness:
  "get_expression_type (path ''c'') \<noteq> Tuple \<and>
   simplify_tuple_match bump (MatchExpr 1 (path ''c'') [] [] [] (Locus 0))
     = Inr (MatchExpr 1 (path ''c'') [] [] [] (Locus 0)) \<and>
   simplify_tuple_match bump
       (MatchExpr 1 (TupleExpr 2 [path ''a''] [] [] (Locus 1)) [] [] [] (Locus 0))
     = Inl AssertionFailure \<and>
   organize_tuple_patterns bump scenario_match
     = Inr [((1, int_pattern ''1''),
             [MatchCase 10 (MatchArm [int_pattern ''2''] UnknownLocus None []) (int_expr ''10'')]),
            ((2, int_pattern ''1''),
             [MatchCase 11 (MatchArm [int_pattern ''3''] UnknownLocus None []) (int_expr ''20'')])] \<and>
   remaining_of 2 (tl [path ''a'', path ''b'']) [] (Locus 1) = path ''b'' \<and>
   simplify_tuple_match bump
       (MatchExpr 1 (path ''b'')
          [MatchCase 10 (MatchArm [int_pattern ''2''] UnknownLocus None []) (int_expr ''10'')]
          [] [] (Locus 0))
     = Inr (MatchExpr 1 (path ''b'')
          [MatchCase 10 (MatchArm [int_pattern ''2''] UnknownLocus None []) (int_expr ''10'')]
          [] [] (Locus 0)) \<and>
   simplify_tuple_match bump scenario_match
     = Inr (MatchExpr 1 (path ''a'')
         [MatchCase 1 (MatchArm [int_pattern ''1''] (Locus 0) None [])
            (Match (MatchExpr 1 (path ''b'')
               [MatchCase 10 (MatchArm [int_pattern ''2''] UnknownLocus None [])
                  (int_expr ''10'')]
               [] [] (Locus 0))),
          MatchCase 1 (MatchArm [int_pattern ''1''] (Locus 0) None [])
            (Match (MatchExpr 1 (path ''b'')
               [MatchCase 11 (MatchArm [int_pattern ''3''] UnknownLocus None [])
                  (int_expr ''20'')]
               [] [] (Locus 0)))]
         [] [] (Locus 0)) \<and>
   size (remaining_of 2 (tl [path ''a'', path ''b'', path ''c''])
           [] (Locus 1))
     < size (TupleExpr 2 [path ''a'', path ''b'', path ''c'']
               [] [] (Locus 1)) \<and>
   tuple_arity (remaining_of 2 (tl [path ''a'', path ''b'',
       path ''c'']) [] (Locus 1)) = 2"
proof -
  let ?cases = "[MatchCase 10
          (MatchArm [pair_pattern (int_pattern ''1'') (int_pattern ''2'')] (Locus 4) None [])
          (int_expr ''10''),
        MatchCase 11
          (MatchArm [pair_pattern (int_pattern ''1'') (int_pattern ''3'')] (Locus 5) None [])
          (int_expr ''20''),
        MatchCase 12 (MatchArm [WildcardPattern] (Locus 6) None []) (int_expr ''30'')]"
  have org: "organize_tuple_patterns bump scenario_match
     = Inr [((1, int_pattern ''1''),
             [MatchCase 10 (MatchArm [int_pattern ''2''] UnknownLocus None []) (int_expr ''10'')]),
            ((2, int_pattern ''1''),
             [MatchCase 11 (MatchArm [int_pattern ''3''] UnknownLocus None []) (int_expr ''20'')])]"
    by (simp add: scenario_match_def organize_tuple_patterns_def pair_pattern_def bump_def
          map_keys_def)
  have not_tuple: "get_expression_type (path ''b'') \<noteq> Tuple"
    "get_expression_type (path ''c'') \<noteq> Tuple"
    by (simp_all add: path_def)
  note inner = simplify_tuple_match_scrutinee_decreases
      [where s = "path ''b''" and new = bump and m = 1 and ia = "[]" and oa = "[]"
         and loc = "Locus 0", THEN conjunct1, rule_format, OF not_tuple(1)]
  note two = simplify_tuple_match_scrutinee_decreases
      [where new = bump and m = 1 and tm = 2 and elems = "[path ''a'', path ''b'']"
         and tia = "[]" and toa = "[]" and tloc = "Locus 1" and cs = ?cases
         and ia = "[]" and oa = "[]" and loc = "Locus 0"]
  have bare: "remaining_of 2 (tl [path ''a'', path ''b'']) [] (Locus 1) = path ''b''"
    using two by simp
  have unfold: "simplify_tuple_match bump scenario_match
     = Inr (MatchExpr 1 (path ''a'')
         [MatchCase 1 (MatchArm [int_pattern ''1''] (Locus 0) None [])
            (Match (MatchExpr 1 (path ''b'')
               [MatchCase 10 (MatchArm [int_pattern ''2''] UnknownLocus None [])
                  (int_expr ''10'')]
               [] [] (Locus 0))),
          MatchCase 1 (MatchArm [int_pattern ''1''] (Locus 0) None [])
            (Match (MatchExpr 1 (path ''b'')
               [MatchCase 11 (MatchArm [int_pattern ''3''] UnknownLocus None [])
                  (int_expr ''20'')]
               [] [] (Locus 0)))]
         [] [] (Locus 0))"
    using two [THEN conjunct2, THEN conjunct2, THEN conjunct1] org inner bare
    by (simp add: scenario_match_def)
  show ?thesis
    using simplify_tuple_match_scrutinee_decreases
          [where s = "path ''c''" and new = bump and m = 1 and cs = "[]" and ia = "[]"
             and oa = "[]" and loc = "Locus 0"
             and elems = "[path ''a'', path ''b'', path ''c'']"
             and tm = 2 and tia = "[]" and toa = "[]" and tloc = "Locus 1"]
          simplify_tuple_match_scrutinee_decreases
          [where s = "path ''c''" and new = bump and m = 1 and cs = "[]" and ia = "[]"
             and oa = "[]" and loc = "Locus 0"
             and elems = "[path ''a'']" and tm = 2 and tia = "[]" and toa = "[]"
             and tloc = "Locus 1"]
          org bare inner unfold not_tuple
    by simp
qed

section \<open>The rearranged match against the reference matcher\<close>

text \<open>
  Claim C2.  The claim has the rearranged match select the case that the original
  selects.  On scenario 1 of the spec, with both variables equal to 5, the original
  match selects the wildcard case and has the value 30.  The wildcard case is not in
  the map, so the rearranged match has the single head pattern 1 (twice), no case
  matches 5, and it has no value.  This holds for every allocator.
\<close>

theorem simplify_tuple_match_loses_wildcard_case:
  "eval all_five (Match scenario_match) = Some (VLit (Literal ''30'' Lit_INT)) \<and>
   (\<exists>m'. simplify_tuple_match new scenario_match = Inr m' \<and> eval all_five (Match m') = None)"
  by (simp add: scenario_match_def simplify_tuple_match.simps organize_tuple_patterns_def
        pair_pattern_def int_pattern_def int_expr_def path_def Let_def map_keys_def
        remaining_of_def all_five_def)

text \<open>
  The separate keys of equal heads change the selected case too: with ascending
  addresses the outer match reaches the inner match of \<^verbatim>\<open>(1, 2)\<close> first, and the
  scrutinee \<^verbatim>\<open>(1, 3)\<close>, for which the original match has the value 20, finds no case
  there.
\<close>

lemma simplify_tuple_match_equal_heads_shadow:
  "eval one_three (Match scenario_match) = Some (VLit (Literal ''20'' Lit_INT)) \<and>
   (\<exists>m'. simplify_tuple_match bump scenario_match = Inr m' \<and> eval one_three (Match m') = None)"
  by (simp add: scenario_match_def simplify_tuple_match.simps organize_tuple_patterns_def
        pair_pattern_def int_pattern_def int_expr_def path_def Let_def map_keys_def
        remaining_of_def one_three_def bump_def)

section \<open>Integer literals\<close>

text \<open>A call succeeds when it returns and reports no diagnostic.\<close>

definition succeeds :: "Context \<Rightarrow> error + (tree \<times> Context) \<Rightarrow> bool" where
  "succeeds ctx r = (case r of Inl _ \<Rightarrow> False | Inr (t, ctx') \<Rightarrow> diagnostics ctx' = diagnostics ctx)"

text \<open>
  Claim C3.  For a literal of kind integer whose text has the value \<open>ival\<close>, and a
  resolved type with the static bounds \<open>type_min\<close> and \<open>type_max\<close>: within the
  bounds, both included, the function returns the constant of the compiled type and
  reports nothing; below \<open>type_min\<close> or above \<open>type_max\<close> it returns the error
  node and reports the overflow at the location of the literal; and it succeeds if and
  only if the value is within the bounds.
\<close>

theorem compile_integer_literal_bounds:
  assumes "mpz_init_set_str B s 10 = Some ival"
    and "get_type_static_bounds B (TyTyResolveCompile_compile B tyty False) = (type_min, type_max)"
  shows "(type_min \<le> ival \<and> ival \<le> type_max \<longrightarrow>
            compile_integer_literal B T (LiteralExpr m (Literal s Lit_INT) locus) tyty ctx
              = Inr (double_int_to_tree B (TyTyResolveCompile_compile B tyty False)
                       (mpz_get_double_int B (TyTyResolveCompile_compile B tyty False) ival True),
                     ctx)) \<and>
         (ival < type_min \<or> type_max < ival \<longrightarrow>
            compile_integer_literal B T (LiteralExpr m (Literal s Lit_INT) locus) tyty ctx
              = Inr (error_mark_node,
                     ctx\<lparr>diagnostics := diagnostics ctx @
                        [Error_at locus ''integer overflows the respective type %<%s%>''
                           [get_name T tyty]]\<rparr>)) \<and>
         (succeeds ctx (compile_integer_literal B T (LiteralExpr m (Literal s Lit_INT) locus) tyty ctx)
            \<longleftrightarrow> type_min \<le> ival \<and> ival \<le> type_max)"
  using assms by (auto simp: succeeds_def rust_error_at_def Let_def)

theorem compile_integer_literal_bounds_witness:
  "compile_integer_literal example_backend example_tyctx
       (LiteralExpr 5 (Literal ''127'' Lit_INT) (Locus 9)) i8 example_context
     = Inr (INTEGER_CST (Node ''i8'' []) 127, example_context) \<and>
   compile_integer_literal example_backend example_tyctx
       (LiteralExpr 5 (Literal ''128'' Lit_INT) (Locus 9)) i8 example_context
     = Inr (error_mark_node,
            example_context\<lparr>diagnostics :=
              [Error_at (Locus 9) ''integer overflows the respective type %<%s%>'' [''i8'']]\<rparr>) \<and>
   compile_integer_literal example_backend example_tyctx
       (LiteralExpr 5 (Literal ''-128'' Lit_INT) (Locus 9)) i8 example_context
     = Inr (INTEGER_CST (Node ''i8'' []) (- 128), example_context) \<and>
   compile_integer_literal example_backend example_tyctx
       (LiteralExpr 5 (Literal ''-129'' Lit_INT) (Locus 9)) i8 example_context
     = Inr (error_mark_node,
            example_context\<lparr>diagnostics :=
              [Error_at (Locus 9) ''integer overflows the respective type %<%s%>'' [''i8'']]\<rparr>)"
  using compile_integer_literal_bounds
          [of example_backend "''127''" 127 i8 "- 128" 127 example_tyctx 5 "Locus 9" example_context]
        compile_integer_literal_bounds
          [of example_backend "''128''" 128 i8 "- 128" 127 example_tyctx 5 "Locus 9" example_context]
        compile_integer_literal_bounds
          [of example_backend "''-128''" "- 128" i8 "- 128" 127 example_tyctx 5 "Locus 9"
              example_context]
        compile_integer_literal_bounds
          [of example_backend "''-129''" "- 129" i8 "- 128" 127 example_tyctx 5 "Locus 9"
              example_context]
  by (simp add: example_backend_def example_tyctx_def example_context_def i8_def
        read_decimal_def digit_of_def)

section \<open>The adjustment engine\<close>

lemma resolve_adjustements_append:
  "resolve_adjustements B T C (xs @ ys) e locus ctx =
     (if list_ex (\<lambda>a. get_type a = ERROR) xs then resolve_adjustements B T C xs e locus ctx
      else and_then (resolve_adjustements B T C xs e locus ctx)
             (\<lambda>(e', ctx'). resolve_adjustements B T C ys e' locus ctx'))"
proof (induction xs arbitrary: e ctx)
  case Nil
  then show ?case by simp
next
  case (Cons x xs)
  show ?case
  proof (cases "get_type x")
    case DEREF
    then show ?thesis
      using Cons.IH
      by (cases "resolve_deref_adjustment B T C x e locus ctx") (auto split: prod.splits)
  next
    case DEREF_MUT
    then show ?thesis
      using Cons.IH
      by (cases "resolve_deref_adjustment B T C x e locus ctx") (auto split: prod.splits)
  next
    case UNSIZE
    then show ?thesis
      using Cons.IH
      by (cases "resolve_unsized_adjustment B x e locus") auto
  qed (use Cons.IH in auto)
qed

definition borrow :: adjustment where
  "borrow = \<lparr>get_type = IMM_REF, get_expected = ReferenceType (OtherType Kind_SLICE 0),
     get_deref_operator_fn = None, get_deref_adjustment_type = ERROR, get_deref_hir_item = 0\<rparr>"

definition indirection :: adjustment where
  "indirection = \<lparr>get_type = INDIRECTION, get_expected = OtherType Kind_INT 8,
     get_deref_operator_fn = None, get_deref_adjustment_type = ERROR, get_deref_hir_item = 0\<rparr>"

definition error_adjustment :: adjustment where
  "error_adjustment = \<lparr>get_type = ERROR, get_expected = OtherType Kind_ERROR 0,
     get_deref_operator_fn = None, get_deref_adjustment_type = ERROR, get_deref_hir_item = 0\<rparr>"

definition deref_without_overload :: adjustment where
  "deref_without_overload = \<lparr>get_type = DEREF, get_expected = OtherType Kind_INT 8,
     get_deref_operator_fn = None, get_deref_adjustment_type = ERROR, get_deref_hir_item = 0\<rparr>"

definition slice_value :: tree where
  "slice_value = Node ''var_decl'' [Node ''slice'' []]"

definition int_value :: tree where
  "int_value = Node ''var_decl'' [Node ''i8'' []]"

text \<open>
  Claim C4.  The list is applied from left to right: the result for \<open>xs @ ys\<close> is the
  result for \<open>ys\<close> on the value and the context that \<open>xs\<close> leaves, unless \<open>xs\<close>
  holds an adjustment of type \<^verbatim>\<open>ERROR\<close>, which ends the run.  A borrow of a value
  whose type is a slice returns the value as it is; a borrow of any other value is the
  address expression of the value at the compiled expected type.  Neither changes the
  context.
\<close>

theorem resolve_adjustements_left_to_right:
  "resolve_adjustements B T C (xs @ ys) e locus ctx =
     (if list_ex (\<lambda>a. get_type a = ERROR) xs then resolve_adjustements B T C xs e locus ctx
      else and_then (resolve_adjustements B T C xs e locus ctx)
             (\<lambda>(e', ctx'). resolve_adjustements B T C ys e' locus ctx')) \<and>
   (get_type a = IMM_REF \<or> get_type a = MUT_REF \<longrightarrow>
      resolve_adjustements B T C [a] e locus ctx =
        Inr (if SLICE_TYPE_P B (TREE_TYPE B e) then e
             else address_expression B e
                    (TyTyResolveCompile_compile B (get_expected a) False) locus,
             ctx))"
  using resolve_adjustements_append [of B T C xs ys e locus ctx]
  by (auto simp: borrow_adjustment_def)

theorem resolve_adjustements_left_to_right_witness:
  "resolve_adjustements example_backend example_tyctx example_compilers [borrow] slice_value
       (Locus 1) example_context
     = Inr (slice_value, example_context) \<and>
   resolve_adjustements example_backend example_tyctx example_compilers [borrow] int_value
       (Locus 1) example_context
     = Inr (Node ''addr_expr'' [Node ''type'' [], int_value], example_context) \<and>
   resolve_adjustements example_backend example_tyctx example_compilers ([borrow] @ [indirection])
       int_value (Locus 1) example_context
     = Inr (Node ''indirect_ref'' [Node ''i8'' [], Node ''addr_expr'' [Node ''type'' [], int_value]],
            example_context)"
  using resolve_adjustements_left_to_right
          [of example_backend example_tyctx example_compilers "[]" "[]"
              slice_value "Locus 1" example_context borrow]
        resolve_adjustements_left_to_right
          [of example_backend example_tyctx example_compilers "[borrow]" "[indirection]"
              int_value "Locus 1" example_context borrow]
  by (simp add: borrow_def indirection_def slice_value_def int_value_def example_backend_def
        borrow_adjustment_def resolve_indirection_adjustment_def)

lemma resolve_adjustements_error:
  assumes "get_type a = ERROR"
  shows "resolve_adjustements B T C (xs @ a # ys) e locus ctx =
      and_then (resolve_adjustements B T C xs e locus ctx) (\<lambda>(e', ctx'). Inr (error_mark_node, ctx'))"
proof (induction xs arbitrary: e ctx)
  case Nil
  then show ?case using assms by simp
next
  case (Cons x xs)
  show ?case
  proof (cases "get_type x")
    case DEREF
    then show ?thesis
      using Cons.IH
      by (cases "resolve_deref_adjustment B T C x e locus ctx") (auto split: prod.splits)
  next
    case DEREF_MUT
    then show ?thesis
      using Cons.IH
      by (cases "resolve_deref_adjustment B T C x e locus ctx") (auto split: prod.splits)
  next
    case UNSIZE
    then show ?thesis
      using Cons.IH
      by (cases "resolve_unsized_adjustment B x e locus") auto
  qed (use Cons.IH in auto)
qed

text \<open>The adjustments that neither call a compiler nor assert anything.\<close>

definition plain_adjustment :: "adjustment \<Rightarrow> bool" where
  "plain_adjustment a =
     (get_type a = IMM_REF \<or> get_type a = MUT_REF \<or> get_type a = INDIRECTION)"

lemma resolve_adjustements_plain:
  "list_all plain_adjustment xs \<Longrightarrow>
     \<exists>e'. resolve_adjustements B T C xs e locus ctx = Inr (e', ctx)"
proof (induction xs arbitrary: e)
  case Nil
  then show ?case by simp
next
  case (Cons x xs)
  then show ?case by (cases "get_type x") (auto simp: plain_adjustment_def)
qed

text \<open>
  Claim C9.  An adjustment of type \<^verbatim>\<open>ERROR\<close> ends the run with the error node: the
  result is the error node with the context that the adjustments before it leave, if
  they return at all (a dereference or an unsizing before it may fail its assertion),
  whatever the adjustments after it are.  None of the later adjustments is applied, and
  the value is converted no further.  After borrows and indirections only, the result
  is the error node and the context is the one given.
\<close>

theorem resolve_adjustements_error_exit:
  assumes "get_type a = ERROR"
  shows "resolve_adjustements B T C (xs @ a # ys) e locus ctx =
           and_then (resolve_adjustements B T C xs e locus ctx)
             (\<lambda>(e', ctx'). Inr (error_mark_node, ctx')) \<and>
         resolve_adjustements B T C (a # ys) e locus ctx = Inr (error_mark_node, ctx) \<and>
         (list_all plain_adjustment xs \<longrightarrow>
            resolve_adjustements B T C (xs @ a # ys) e locus ctx = Inr (error_mark_node, ctx))"
proof -
  have 1: "resolve_adjustements B T C (xs @ a # ys) e locus ctx =
           and_then (resolve_adjustements B T C xs e locus ctx)
             (\<lambda>(e', ctx'). Inr (error_mark_node, ctx'))"
    using assms by (rule resolve_adjustements_error)
  have 2: "resolve_adjustements B T C (a # ys) e locus ctx = Inr (error_mark_node, ctx)"
    using assms by simp
  have 3: "resolve_adjustements B T C (xs @ a # ys) e locus ctx = Inr (error_mark_node, ctx)"
    if "list_all plain_adjustment xs"
    using resolve_adjustements_plain [OF that, of B T C e locus ctx] 1 by auto
  from 1 2 3 show ?thesis by blast
qed

theorem resolve_adjustements_error_exit_witness:
  "get_type error_adjustment = ERROR \<and>
   resolve_adjustements example_backend example_tyctx example_compilers
       ([borrow] @ error_adjustment # [deref_without_overload]) int_value (Locus 1) example_context
     = Inr (error_mark_node, example_context) \<and>
   resolve_adjustements example_backend example_tyctx example_compilers
       [borrow, deref_without_overload] int_value (Locus 1) example_context
     = Inl AssertionFailure"
proof -
  have h: "get_type error_adjustment = ERROR" by (simp add: error_adjustment_def)
  show ?thesis
    using h resolve_adjustements_error_exit
            [OF h, of example_backend example_tyctx example_compilers "[borrow]"
               "[deref_without_overload]" int_value "Locus 1" example_context]
    by (simp add: borrow_def deref_without_overload_def borrow_adjustment_def
          resolve_deref_adjustment_def plain_adjustment_def)
qed

section \<open>The slot of a dynamic call\<close>

definition item_matches :: "fn_type \<Rightarrow> trait_item_reference \<Rightarrow> bool" where
  "item_matches fntype item =
     (case get_tyty item of FnDef ft \<Rightarrow> get_id ft = get_id fntype | _ \<Rightarrow> False)"

definition is_fn_item :: "trait_item_reference \<Rightarrow> bool" where
  "is_fn_item item = (case get_tyty item of FnDef _ \<Rightarrow> True | _ \<Rightarrow> False)"

lemma find_object_item_first:
  "list_all is_fn_item items \<Longrightarrow> i < length items \<Longrightarrow> item_matches fntype (items ! i) \<Longrightarrow>
     (\<forall>j<i. \<not> item_matches fntype (items ! j)) \<Longrightarrow>
     find_object_item items fntype k = Inr (Some (k + i))"
proof (induction items arbitrary: i k)
  case Nil
  then show ?case by simp
next
  case (Cons item items)
  obtain ft where ft: "get_tyty item = FnDef ft"
    using Cons.prems(1) by (cases "get_tyty item") (auto simp: is_fn_item_def)
  show ?case
  proof (cases i)
    case 0
    with Cons.prems ft show ?thesis by (simp add: item_matches_def)
  next
    case (Suc i')
    have nm: "\<not> item_matches fntype item" using Cons.prems(4) Suc by auto
    have "find_object_item items fntype (Suc k) = Inr (Some (Suc k + i'))"
      using Cons.prems Suc by (intro Cons.IH) auto
    with nm ft Suc show ?thesis by (simp add: item_matches_def)
  qed
qed

lemma find_object_item_none:
  "list_all is_fn_item items \<Longrightarrow> \<not> list_ex (item_matches fntype) items \<Longrightarrow>
     find_object_item items fntype k = Inr None"
proof (induction items arbitrary: k)
  case Nil
  then show ?case by simp
next
  case (Cons item items)
  obtain ft where ft: "get_tyty item = FnDef ft"
    using Cons.prems(1) by (cases "get_tyty item") (auto simp: is_fn_item_def)
  with Cons show ?case by (simp add: item_matches_def)
qed

definition object_items :: "trait_item_reference list" where
  "object_items =
     [TraitItemReference ''area'' (FnDef (FnType 10)),
      TraitItemReference ''name'' (FnDef (FnType 20)),
      TraitItemReference ''name'' (FnDef (FnType 20))]"

text \<open>
  Claim C7.  With object items that are all function types, as the assertion of the loop
  requires: if \<open>offs\<close> is the position of the first item with the identity of the
  resolved method, the call address is the object-type reference that indexes field 1 of
  the receiver by the constant \<open>offs\<close>; if no item has that identity, it is the error
  node.  The receiver passed on is field 0.  Both fields are read from the receiver
  after the indirection, which is applied to a receiver of reference type, at the
  compiled base type, and to no other receiver.
\<close>

theorem get_fn_addr_from_dyn_slot:
  assumes "list_all is_fn_item items"
    and "sort_out_indirection B receiver receiver_ref locus = Inr r"
  shows "(offs < length items \<and> item_matches fntype (items ! offs) \<and>
          (\<forall>j<offs. \<not> item_matches fntype (items ! j)) \<longrightarrow>
            get_fn_addr_from_dyn B (DynamicObjectType items) receiver fntype receiver_ref locus =
              Inr (OBJ_TYPE_REF locus (TyTyResolveCompile_compile B (FnDef fntype) True)
                     (ARRAY_REF locus
                        (TREE_TYPE B (TREE_TYPE B (struct_field_expression B r 1 locus)))
                        (struct_field_expression B r 1 locus)
                        (INTEGER_CST size_type_node (int offs)) NULL_TREE NULL_TREE)
                     r (INTEGER_CST size_type_node (int offs)))) \<and>
         (\<not> list_ex (item_matches fntype) items \<longrightarrow>
            get_fn_addr_from_dyn B (DynamicObjectType items) receiver fntype receiver_ref locus =
              Inr error_mark_node) \<and>
         get_receiver_from_dyn B (DynamicObjectType items) receiver fntype receiver_ref locus =
           Inr (struct_field_expression B r 0 locus) \<and>
         sort_out_indirection B (ReferenceType base) receiver_ref locus =
           Inr (indirect_expression B (TyTyResolveCompile_compile B base False) receiver_ref
                  True locus) \<and>
         (get_kind receiver \<noteq> Kind_REF \<longrightarrow> r = receiver_ref)"
proof -
  have found: "get_fn_addr_from_dyn B (DynamicObjectType items) receiver fntype receiver_ref locus =
      Inr (OBJ_TYPE_REF locus (TyTyResolveCompile_compile B (FnDef fntype) True)
             (ARRAY_REF locus
                (TREE_TYPE B (TREE_TYPE B (struct_field_expression B r 1 locus)))
                (struct_field_expression B r 1 locus)
                (INTEGER_CST size_type_node (int offs)) NULL_TREE NULL_TREE)
             r (INTEGER_CST size_type_node (int offs)))"
    if "offs < length items" "item_matches fntype (items ! offs)"
       "\<forall>j<offs. \<not> item_matches fntype (items ! j)"
    using find_object_item_first [OF assms(1) that, of 0] assms(2)
    by (simp add: Let_def)
  have missing: "get_fn_addr_from_dyn B (DynamicObjectType items) receiver fntype receiver_ref locus =
      Inr error_mark_node"
    if "\<not> list_ex (item_matches fntype) items"
    using find_object_item_none [OF assms(1) that, of 0] by simp
  have recv: "get_receiver_from_dyn B (DynamicObjectType items) receiver fntype receiver_ref locus =
      Inr (struct_field_expression B r 0 locus)"
    using assms(2) by simp
  have ref: "sort_out_indirection B (ReferenceType base) receiver_ref locus =
      Inr (indirect_expression B (TyTyResolveCompile_compile B base False) receiver_ref True locus)"
    by (simp add: sort_out_indirection_def)
  have plain: "get_kind receiver \<noteq> Kind_REF \<Longrightarrow> r = receiver_ref"
    using assms(2) by (simp add: sort_out_indirection_def)
  show ?thesis
    using found missing recv ref plain by blast
qed

theorem get_fn_addr_from_dyn_slot_witness:
  "list_all is_fn_item object_items \<and>
   get_fn_addr_from_dyn example_backend (DynamicObjectType object_items)
       (ReferenceType (DynamicObjectType object_items)) (FnType 20) (Node ''self'' []) (Locus 3)
     = Inr (OBJ_TYPE_REF (Locus 3) (Node ''type'' [])
              (ARRAY_REF (Locus 3) NULL_TREE
                 (Node ''component_ref''
                    [Node ''field_type'' [],
                     Node ''indirect_ref'' [Node ''type'' [], Node ''self'' []],
                     INTEGER_CST size_type_node 1])
                 (INTEGER_CST size_type_node 1) NULL_TREE NULL_TREE)
              (Node ''indirect_ref'' [Node ''type'' [], Node ''self'' []])
              (INTEGER_CST size_type_node 1)) \<and>
   get_fn_addr_from_dyn example_backend (DynamicObjectType object_items)
       (ReferenceType (DynamicObjectType object_items)) (FnType 30) (Node ''self'' []) (Locus 3)
     = Inr error_mark_node \<and>
   get_receiver_from_dyn example_backend (DynamicObjectType object_items)
       (ReferenceType (DynamicObjectType object_items)) (FnType 20) (Node ''self'' []) (Locus 3)
     = Inr (Node ''component_ref''
              [Node ''field_type'' [],
               Node ''indirect_ref'' [Node ''type'' [], Node ''self'' []],
               INTEGER_CST size_type_node 0])"
proof -
  have items: "list_all is_fn_item object_items"
    by (simp add: object_items_def is_fn_item_def)
  have ind: "sort_out_indirection example_backend (ReferenceType (DynamicObjectType object_items))
      (Node ''self'' []) (Locus 3) = Inr (Node ''indirect_ref'' [Node ''type'' [], Node ''self'' []])"
    by (simp add: sort_out_indirection_def example_backend_def)
  have m20: "1 < length object_items \<and> item_matches (FnType 20) (object_items ! 1) \<and>
      (\<forall>j<1. \<not> item_matches (FnType 20) (object_items ! j))"
    by (simp add: object_items_def item_matches_def)
  have m30: "\<not> list_ex (item_matches (FnType 30)) object_items"
    by (simp add: object_items_def item_matches_def)
  note slot20 = get_fn_addr_from_dyn_slot [OF items ind, of 1 "FnType 20"]
  note slot30 = get_fn_addr_from_dyn_slot [OF items ind, of 1 "FnType 30"]
  have a: "get_fn_addr_from_dyn example_backend (DynamicObjectType object_items)
       (ReferenceType (DynamicObjectType object_items)) (FnType 20) (Node ''self'' []) (Locus 3)
     = Inr (OBJ_TYPE_REF (Locus 3) (Node ''type'' [])
              (ARRAY_REF (Locus 3) NULL_TREE
                 (Node ''component_ref''
                    [Node ''field_type'' [],
                     Node ''indirect_ref'' [Node ''type'' [], Node ''self'' []],
                     INTEGER_CST size_type_node 1])
                 (INTEGER_CST size_type_node 1) NULL_TREE NULL_TREE)
              (Node ''indirect_ref'' [Node ''type'' [], Node ''self'' []])
              (INTEGER_CST size_type_node 1))"
    using slot20 [THEN conjunct1, rule_format, OF m20] by (simp add: example_backend_def)
  have b: "get_fn_addr_from_dyn example_backend (DynamicObjectType object_items)
       (ReferenceType (DynamicObjectType object_items)) (FnType 30) (Node ''self'' []) (Locus 3)
     = Inr error_mark_node"
    using slot30 [THEN conjunct2, THEN conjunct1, rule_format, OF m30] .
  have c: "get_receiver_from_dyn example_backend (DynamicObjectType object_items)
       (ReferenceType (DynamicObjectType object_items)) (FnType 20) (Node ''self'' []) (Locus 3)
     = Inr (Node ''component_ref''
              [Node ''field_type'' [],
               Node ''indirect_ref'' [Node ''type'' [], Node ''self'' []],
               INTEGER_CST size_type_node 0])"
    using slot20 [THEN conjunct2, THEN conjunct2, THEN conjunct1]
    by (simp add: example_backend_def)
  show ?thesis
    using items a b c by simp
qed

section \<open>Dereference of slices\<close>

definition overloaded_tyctx :: tyctx where
  "overloaded_tyctx = example_tyctx\<lparr>
     lookup_operator_overload := (\<lambda>m. Some (FnType 7)),
     lookup_resolved_name := (\<lambda>m. Some 11),
     lookup_node_to_hir := (\<lambda>m n. Some 12),
     lookup_receiver := (\<lambda>m. Some (OtherType Kind_INT 8)),
     lookup_autoderef_mappings := (\<lambda>m. Some [borrow])\<rparr>"

text \<open>
  Claim C10.  With the type of the expression resolved and the operand compiled: without
  an operator overload, the visit returns the operand as it is when its type and the
  compiled resolved type are both slice types, and otherwise the indirection of the
  operand at the compiled resolved type, marked known valid; with an operator overload,
  the same holds of the call that \<open>resolve_operator_overload\<close> returns, in place of the
  operand.
\<close>

theorem visit_DereferenceExpr_slice:
  assumes "lookup_type T m = Some tyty"
    and "run (CompileExpr_Compile C inner) ctx = Inr (operand, ctx1)"
  shows "(lookup_operator_overload T m = None \<longrightarrow>
            visit_DereferenceExpr B T C (DereferenceExpr m inner locus) ctx =
              Inr (if SLICE_TYPE_P B (TREE_TYPE B operand) \<and>
                      SLICE_TYPE_P B (TyTyResolveCompile_compile B tyty False)
                   then operand
                   else indirect_expression B (TyTyResolveCompile_compile B tyty False) operand
                          True locus,
                   ctx1)) \<and>
         (lookup_operator_overload T m \<noteq> None \<and>
          resolve_operator_overload B T C ItemType_DEREF m locus operand None inner None ctx1
            = Inr (call, ctx2) \<longrightarrow>
            visit_DereferenceExpr B T C (DereferenceExpr m inner locus) ctx =
              Inr (if SLICE_TYPE_P B (TREE_TYPE B call) \<and>
                      SLICE_TYPE_P B (TyTyResolveCompile_compile B tyty False)
                   then call
                   else indirect_expression B (TyTyResolveCompile_compile B tyty False) call
                          True locus,
                   ctx2))"
  using assms by (auto simp: Let_def)

theorem visit_DereferenceExpr_slice_witness:
  "visit_DereferenceExpr example_backend example_tyctx example_compilers
       (DereferenceExpr 3 (PathInExpression 3 ''s'' (Locus 2)) (Locus 1)) example_context
     = Inr (Node ''value'' [Node ''slice'' [], INTEGER_CST size_type_node 3], example_context) \<and>
   visit_DereferenceExpr example_backend example_tyctx example_compilers
       (DereferenceExpr 2 (PathInExpression 4 ''p'' (Locus 2)) (Locus 1)) example_context
     = Inr (Node ''indirect_ref''
              [Node ''i8'' [], Node ''value'' [Node ''i8'' [], INTEGER_CST size_type_node 4]],
            example_context) \<and>
   visit_DereferenceExpr example_backend overloaded_tyctx example_compilers
       (DereferenceExpr 2 (PathInExpression 4 ''p'' (Locus 2)) (Locus 1)) example_context
     = Inr (Node ''indirect_ref''
              [Node ''i8'' [],
               Node ''call_expr''
                 [Node ''fn_addr'' [],
                  Node ''addr_expr''
                    [Node ''type'' [],
                     Node ''value'' [Node ''i8'' [], INTEGER_CST size_type_node 4]]]],
            example_context\<lparr>other_state := 1\<rparr>)"
proof -
  have t3: "lookup_type example_tyctx 3 = Some (OtherType Kind_SLICE 0)"
    and t2: "lookup_type example_tyctx 2 = Some (OtherType Kind_INT 8)"
    and t2': "lookup_type overloaded_tyctx 2 = Some (OtherType Kind_INT 8)"
    by (simp_all add: example_tyctx_def overloaded_tyctx_def)
  have r3: "run (CompileExpr_Compile example_compilers (PathInExpression 3 ''s'' (Locus 2)))
              example_context
            = Inr (Node ''value'' [Node ''slice'' [], INTEGER_CST size_type_node 3], example_context)"
    and r4: "run (CompileExpr_Compile example_compilers (PathInExpression 4 ''p'' (Locus 2)))
              example_context
            = Inr (Node ''value'' [Node ''i8'' [], INTEGER_CST size_type_node 4], example_context)"
    by (simp_all add: run_def example_compilers_def example_context_def)
  have ov: "resolve_operator_overload example_backend overloaded_tyctx example_compilers
              ItemType_DEREF 2 (Locus 1)
              (Node ''value'' [Node ''i8'' [], INTEGER_CST size_type_node 4]) None
              (PathInExpression 4 ''p'' (Locus 2)) None example_context
            = Inr (Node ''call_expr''
                     [Node ''fn_addr'' [],
                      Node ''addr_expr''
                        [Node ''type'' [],
                         Node ''value'' [Node ''i8'' [], INTEGER_CST size_type_node 4]]],
                   example_context\<lparr>other_state := 1\<rparr>)"
    by (simp add: resolve_operator_overload_def overloaded_tyctx_def example_tyctx_def
          resolve_param_receiver_def run_def example_compilers_def example_context_def
          borrow_def borrow_adjustment_def example_backend_def)
  show ?thesis
    using visit_DereferenceExpr_slice [OF t3 r3, of example_backend "Locus 1"]
          visit_DereferenceExpr_slice [OF t2 r4, of example_backend "Locus 1"]
          visit_DereferenceExpr_slice [OF t2' r4, of example_backend "Locus 1" _ "example_context\<lparr>other_state := 1\<rparr>"]
          ov
    by (simp add: example_backend_def example_tyctx_def overloaded_tyctx_def)
qed

section \<open>The statements of a lowered match\<close>

text \<open>
  \<open>emits ctx stmts st ctx'\<close>: from \<open>ctx\<close> to \<open>ctx'\<close> the statements \<open>stmts\<close>
  were appended to the active block, the open blocks and functions are the same, and the
  state of the compilers outside is \<open>st\<close>.
\<close>

lemma and_then_InrE:
  assumes "and_then r f = Inr y"
  obtains x where "r = Inr x" and "f x = Inr y"
  using assms by (cases r) auto

definition emits :: "Context \<Rightarrow> tree list \<Rightarrow> nat \<Rightarrow> Context \<Rightarrow> bool" where
  "emits ctx stmts st ctx' =
     (case statements ctx of
        [] \<Rightarrow> False
      | active # below \<Rightarrow>
          statements ctx' = (active @ stmts) # below \<and>
          scope_stack ctx' = scope_stack ctx \<and> fn_stack ctx' = fn_stack ctx \<and>
          other_state ctx' = st)"

text \<open>
  What the lowering of a match adds to the active block, told from the compilers that it
  calls and the state in which it calls them.  Each predicate relates the state at the
  start, the statements added and the state at the end.

  The alternatives of an arm: for each pattern in turn, the statements of the compiler of
  case labels, the case label expression that it returns, and the statements of the
  compiler of bindings, which is given the scrutinee.
\<close>

fun pattern_statements ::
  "compilers \<Rightarrow> tree \<Rightarrow> tree \<Rightarrow> pattern list \<Rightarrow> nat \<Rightarrow> tree list \<Rightarrow> nat \<Rightarrow> bool" where
  "pattern_statements C case_label scrutinee [] st stmts st' = (stmts = [] \<and> st' = st)"
| "pattern_statements C case_label scrutinee (kase_pattern # kase_patterns) st stmts st' =
     (\<exists>switch_kase_expr label_stmts st1 binding_stmts st2 rest.
        CompilePatternCaseLabelExpr_Compile C kase_pattern case_label st
          = Inr (switch_kase_expr, label_stmts, st1) \<and>
        CompilePatternBindings_Compile C kase_pattern scrutinee st1
          = Inr ((), binding_stmts, st2) \<and>
        pattern_statements C case_label scrutinee kase_patterns st2 rest st' \<and>
        stmts = label_stmts @ [switch_kase_expr] @ binding_stmts @ rest)"

text \<open>
  The assignment of the value of an arm to the temporary, when there is one.
\<close>

definition result_assignment :: "backend \<Rightarrow> tree option \<Rightarrow> tree \<Rightarrow> location \<Rightarrow> tree list" where
  "result_assignment B tmp kase_expr_tree arm_locus =
     (case tmp of
        None \<Rightarrow> []
      | Some t \<Rightarrow>
          [assignment_statement B (var_expression B t arm_locus) kase_expr_tree arm_locus])"

text \<open>
  One case: the arm has a pattern; a label is made for the arm; the patterns are compiled
  with that label; the expression of the arm is compiled, to the tree
  \<open>kase_expr_tree\<close>; that tree is assigned to the temporary, when there is one; and
  a jump to the end label ends the case.
\<close>

definition case_statements ::
  "backend \<Rightarrow> compilers \<Rightarrow> tree \<Rightarrow> tree option \<Rightarrow> tree \<Rightarrow> tree \<Rightarrow> match_case \<Rightarrow> nat
     \<Rightarrow> tree list \<Rightarrow> nat \<Rightarrow> bool" where
  "case_statements B C fndecl tmp end_label scrutinee kase st stmts st' =
     (\<exists>case_label label_stmts st1 pattern_stmts st2 kase_expr_tree expr_stmts.
        get_patterns (get_arm kase) \<noteq> [] \<and>
        backend_label C fndecl [] (get_locus_arm (get_arm kase)) st
          = Inr (case_label, label_stmts, st1) \<and>
        pattern_statements C case_label scrutinee (get_patterns (get_arm kase)) st1
          pattern_stmts st2 \<and>
        CompileExpr_Compile C (get_expr kase) st2 = Inr (kase_expr_tree, expr_stmts, st') \<and>
        stmts = label_stmts @ pattern_stmts @ expr_stmts
          @ result_assignment B tmp kase_expr_tree (get_locus_arm (get_arm kase))
          @ [GOTO_EXPR (get_locus_arm (get_arm kase)) void_type_node end_label])"

text \<open>The cases in the order of the source, each from the state that the one before left.\<close>

fun cases_statements ::
  "backend \<Rightarrow> compilers \<Rightarrow> tree \<Rightarrow> tree option \<Rightarrow> tree \<Rightarrow> tree \<Rightarrow> match_case list \<Rightarrow> nat
     \<Rightarrow> tree list list \<Rightarrow> nat \<Rightarrow> bool" where
  "cases_statements B C fndecl tmp end_label scrutinee [] st segments st' =
     (segments = [] \<and> st' = st)"
| "cases_statements B C fndecl tmp end_label scrutinee (kase # kases) st segments st' =
     (\<exists>segment st1 rest.
        case_statements B C fndecl tmp end_label scrutinee kase st segment st1 \<and>
        cases_statements B C fndecl tmp end_label scrutinee kases st1 rest st' \<and>
        segments = segment # rest)"

text \<open>
  The switch: one end label is made, then the block of the body; the statements of the
  cases, all with that end label, are the statements of the body; the switch on the
  qualifier and the definition of the end label are added last.
\<close>

definition switch_statements ::
  "backend \<Rightarrow> compilers \<Rightarrow> tree \<Rightarrow> tree \<Rightarrow> tree option \<Rightarrow> match_expr \<Rightarrow> tree \<Rightarrow> tree \<Rightarrow> nat
     \<Rightarrow> tree list \<Rightarrow> nat \<Rightarrow> bool" where
  "switch_statements B C fndecl scope tmp expr scrutinee qualifier st stmts st' =
     (\<exists>end_label label_stmts st1 switch_body_block block_stmts st2 segments.
        backend_label C fndecl [] (get_locus_match expr) st = Inr (end_label, label_stmts, st1) \<and>
        backend_block C fndecl scope [] UnknownLocus UnknownLocus st1
          = Inr (switch_body_block, block_stmts, st2) \<and>
        cases_statements B C fndecl tmp end_label scrutinee (get_match_cases expr) st2
          segments st' \<and>
        stmts = label_stmts @ block_stmts
          @ [SWITCH_EXPR (get_locus_match expr) (TREE_TYPE B qualifier) qualifier
               (block_add_statements B switch_body_block (concat segments)),
             label_definition_statement B end_label])"

text \<open>
  The temporary: none for a match of unit type; otherwise the variable that
  \<open>temporary_variable\<close> makes, whose declaration is added.
\<close>

definition temporary_statements ::
  "backend \<Rightarrow> tyctx \<Rightarrow> compilers \<Rightarrow> tree \<Rightarrow> tree \<Rightarrow> tyty \<Rightarrow> location \<Rightarrow> nat
     \<Rightarrow> tree option \<Rightarrow> tree list \<Rightarrow> nat \<Rightarrow> bool" where
  "temporary_statements B T C fndecl scope expr_tyty locus st tmp stmts st' =
     (if is_unit T expr_tyty then tmp = None \<and> stmts = [] \<and> st' = st
      else
        (\<exists>t ret_var_stmt var_stmts.
           temporary_variable C fndecl scope (TyTyResolveCompile_compile B expr_tyty False)
             NULL_TREE False locus st = Inr ((t, ret_var_stmt), var_stmts, st') \<and>
           tmp = Some t \<and> stmts = var_stmts @ [ret_var_stmt]))"

text \<open>
  The match that is lowered, its scrutinee and the qualifier of the switch, from the
  compiled scrutinee of the match given: for a primitive type the match as it is, and
  the scrutinee is the qualifier; for an enum the match as it is, and the qualifier is
  the first field of the first field; for a tuple type and a tuple expression the
  rearranged match, whose scrutinee is compiled and is the qualifier.
\<close>

definition qualifier_statements ::
  "backend \<Rightarrow> tyctx \<Rightarrow> compilers \<Rightarrow> allocator \<Rightarrow> type_kind \<Rightarrow> match_expr \<Rightarrow> tree \<Rightarrow> nat
     \<Rightarrow> match_expr \<Rightarrow> tree \<Rightarrow> tree \<Rightarrow> tree list \<Rightarrow> nat \<Rightarrow> bool" where
  "qualifier_statements B T C new scrutinee_kind expr compiled st lowered scrutinee qualifier
       stmts st' =
     (if is_primitive_type_kind T scrutinee_kind
      then lowered = expr \<and> scrutinee = compiled \<and> qualifier = compiled \<and> stmts = [] \<and> st' = st
      else if scrutinee_kind = Kind_ADT
      then lowered = expr \<and> scrutinee = compiled \<and>
           qualifier = struct_field_expression B
             (struct_field_expression B compiled 0 (get_locus_expr (get_scrutinee_expr expr)))
             0 (get_locus_expr (get_scrutinee_expr expr)) \<and>
           stmts = [] \<and> st' = st
      else scrutinee_kind = Kind_TUPLE \<and>
           get_expression_type (get_scrutinee_expr expr) = Tuple \<and>
           simplify_tuple_match new expr = Inr lowered \<and>
           CompileExpr_Compile C (get_scrutinee_expr lowered) st = Inr (scrutinee, stmts, st') \<and>
           qualifier = scrutinee)"

text \<open>
  The whole match: the temporary, the scrutinee of the match given, the qualifier, and
  the switch over the cases of the match that is lowered.
\<close>

definition match_statements ::
  "backend \<Rightarrow> tyctx \<Rightarrow> compilers \<Rightarrow> allocator \<Rightarrow> tree \<Rightarrow> tree \<Rightarrow> tyty \<Rightarrow> tyty \<Rightarrow> match_expr
     \<Rightarrow> nat \<Rightarrow> tree option \<Rightarrow> match_expr \<Rightarrow> tree list \<Rightarrow> nat \<Rightarrow> bool" where
  "match_statements B T C new fndecl scope scrutinee_expr_tyty expr_tyty expr st tmp lowered
       stmts st' =
     (\<exists>tmp_stmts st1 compiled compiled_stmts st2 scrutinee qualifier qualifier_stmts st3
        switch_stmts.
        temporary_statements B T C fndecl scope expr_tyty (get_locus_match expr) st
          tmp tmp_stmts st1 \<and>
        CompileExpr_Compile C (get_scrutinee_expr expr) st1
          = Inr (compiled, compiled_stmts, st2) \<and>
        qualifier_statements B T C new (get_kind scrutinee_expr_tyty) expr compiled st2
          lowered scrutinee qualifier qualifier_stmts st3 \<and>
        switch_statements B C fndecl scope tmp lowered scrutinee qualifier st3
          switch_stmts st' \<and>
        stmts = tmp_stmts @ compiled_stmts @ qualifier_stmts @ switch_stmts)"

text \<open>
  \<open>total_compilers C\<close>: none of the compilers called by the lowering of a match
  aborts.  \<open>direct_scrutinee T t\<close>: the scrutinee is one that the visit lowers as it
  stands, of a primitive type other than the never type, or an enum with a variant.
\<close>

definition total_compilers :: "compilers \<Rightarrow> bool" where
  "total_compilers C =
     ((\<forall>e st. \<not> isl (CompileExpr_Compile C e st)) \<and>
      (\<forall>fndecl name l st. \<not> isl (backend_label C fndecl name l st)) \<and>
      (\<forall>fndecl scope type init taken l st.
          \<not> isl (temporary_variable C fndecl scope type init taken l st)) \<and>
      (\<forall>fndecl scope vars s e st. \<not> isl (backend_block C fndecl scope vars s e st)) \<and>
      (\<forall>p l st. \<not> isl (CompilePatternCaseLabelExpr_Compile C p l st)) \<and>
      (\<forall>p s st. \<not> isl (CompilePatternBindings_Compile C p s st)))"

definition direct_scrutinee :: "tyctx \<Rightarrow> tyty \<Rightarrow> bool" where
  "direct_scrutinee T t =
     (case t of
        ADTType is_enum number_of_variants \<Rightarrow> is_enum \<and> 0 < number_of_variants
      | _ \<Rightarrow> is_primitive_type_kind T (get_kind t) \<and> get_kind t \<noteq> Kind_NEVER \<and>
             get_kind t \<noteq> Kind_ADT)"

lemma emits_refl: "statements ctx \<noteq> [] \<Longrightarrow> emits ctx [] (other_state ctx) ctx"
  by (cases "statements ctx") (auto simp: emits_def)

lemma emits_trans: "emits a ss s b \<Longrightarrow> emits b ts t c \<Longrightarrow> emits a (ss @ ts) t c"
  by (cases "statements a") (auto simp: emits_def)

lemma emits_nonempty: "emits a ss s b \<Longrightarrow> statements b \<noteq> []"
  by (cases "statements a") (auto simp: emits_def)

lemma emits_state: "emits a ss s b \<Longrightarrow> other_state b = s"
  by (cases "statements a") (auto simp: emits_def)

lemma emits_statements:
  "emits ctx ss s ctx' \<Longrightarrow> statements ctx = active # below \<Longrightarrow>
     statements ctx' = (active @ ss) # below"
  by (simp add: emits_def)

lemma emits_scope: "emits ctx ss s ctx' \<Longrightarrow> scope_stack ctx' = scope_stack ctx"
  by (cases "statements ctx") (simp_all add: emits_def)

lemma emits_peek: "emits ctx ss s ctx' \<Longrightarrow> peek_enclosing_scope ctx' = peek_enclosing_scope ctx"
  by (simp add: peek_enclosing_scope_def emits_scope)

lemma add_statement_emits:
  "add_statement s ctx = Inr ctx' \<Longrightarrow> emits ctx [s] (other_state ctx) ctx'"
  by (cases "statements ctx") (auto simp: add_statement_def emits_def)

lemma add_statements_emits:
  "statements ctx \<noteq> [] \<Longrightarrow> add_statements ss ctx = Inr ctx' \<Longrightarrow>
     emits ctx ss (other_state ctx) ctx'"
proof (induction ss arbitrary: ctx)
  case Nil
  then show ?case by (simp add: emits_refl)
next
  case (Cons s ss)
  from Cons.prems(2) obtain c where c: "add_statement s ctx = Inr c"
    and r: "add_statements ss c = Inr ctx'"
    by (auto elim: and_then_InrE)
  have e: "emits ctx [s] (other_state ctx) c" using c by (rule add_statement_emits)
  have "emits c ss (other_state c) ctx'" using emits_nonempty [OF e] r by (rule Cons.IH)
  with e emits_state [OF e] show ?case using emits_trans by fastforce
qed

lemma emits_other_state:
  "emits (ctx\<lparr>other_state := s0\<rparr>) ss st ctx' \<Longrightarrow> emits ctx ss st ctx'"
  by (cases "statements ctx") (simp_all add: emits_def)

lemma run_emits:
  assumes "statements ctx \<noteq> []" and "run f ctx = Inr (r, ctx')"
  shows "\<exists>stmts st. f (other_state ctx) = Inr (r, stmts, st) \<and> emits ctx stmts st ctx'"
proof -
  from assms(2) obtain x where x: "f (other_state ctx) = Inr x"
    and rest: "(case x of (r, stmts, st) \<Rightarrow>
        and_then (add_statements stmts (ctx\<lparr>other_state := st\<rparr>)) (\<lambda>ctx'. Inr (r, ctx')))
        = Inr (r, ctx')"
    unfolding run_def by (auto elim: and_then_InrE)
  obtain r0 stmts st where xs: "x = (r0, stmts, st)" by (cases x) auto
  from rest xs obtain c where a: "add_statements stmts (ctx\<lparr>other_state := st\<rparr>) = Inr c"
    and "c = ctx'" and r0: "r0 = r"
    by (auto elim: and_then_InrE)
  then have "emits (ctx\<lparr>other_state := st\<rparr>) stmts st ctx'"
    using assms(1) add_statements_emits [of "ctx\<lparr>other_state := st\<rparr>" stmts ctx'] by simp
  then have "emits ctx stmts st ctx'" by (rule emits_other_state)
  with x xs r0 show ?thesis by blast
qed

lemma compile_patterns_emits:
  "statements ctx \<noteq> [] \<Longrightarrow> compile_patterns C ps case_label scrutinee ctx = Inr ctx' \<Longrightarrow>
     \<exists>stmts st'. pattern_statements C case_label scrutinee ps (other_state ctx) stmts st' \<and>
       emits ctx stmts st' ctx'"
proof (induction ps arbitrary: ctx)
  case Nil
  then show ?case using emits_refl by auto
next
  case (Cons p ps)
  from Cons.prems(2) obtain x1 where
    x1: "run (CompilePatternCaseLabelExpr_Compile C p case_label) ctx = Inr x1"
    and k1: "(case x1 of (switch_kase_expr, ctx1) \<Rightarrow>
        and_then (add_statement switch_kase_expr ctx1) (\<lambda>ctx2.
        and_then (run (CompilePatternBindings_Compile C p scrutinee) ctx2)
          (\<lambda>(u, ctx3). compile_patterns C ps case_label scrutinee ctx3))) = Inr ctx'"
    by (auto elim: and_then_InrE)
  obtain sk c1 where x1p: "x1 = (sk, c1)" by (cases x1) auto
  from run_emits [OF Cons.prems(1) x1 [unfolded x1p]] obtain ls st1 where
    f1: "CompilePatternCaseLabelExpr_Compile C p case_label (other_state ctx) = Inr (sk, ls, st1)"
    and e1: "emits ctx ls st1 c1" by blast
  from k1 x1p obtain c2 where a2: "add_statement sk c1 = Inr c2"
    and k2: "and_then (run (CompilePatternBindings_Compile C p scrutinee) c2)
          (\<lambda>(u, ctx3). compile_patterns C ps case_label scrutinee ctx3) = Inr ctx'"
    by (auto elim: and_then_InrE)
  have e2: "emits c1 [sk] st1 c2"
    using add_statement_emits [OF a2] emits_state [OF e1] by simp
  from k2 obtain x3 where x3: "run (CompilePatternBindings_Compile C p scrutinee) c2 = Inr x3"
    and k3: "(case x3 of (u, ctx3) \<Rightarrow> compile_patterns C ps case_label scrutinee ctx3) = Inr ctx'"
    by (auto elim: and_then_InrE)
  obtain u c3 where x3p: "x3 = (u, c3)" by (cases x3) auto
  from run_emits [OF emits_nonempty [OF e2] x3 [unfolded x3p]] emits_state [OF e2]
  obtain bs st2 where
    f3: "CompilePatternBindings_Compile C p scrutinee st1 = Inr ((), bs, st2)"
    and e3: "emits c2 bs st2 c3" by auto
  from k3 x3p have "compile_patterns C ps case_label scrutinee c3 = Inr ctx'" by simp
  from Cons.IH [OF emits_nonempty [OF e3] this] emits_state [OF e3] obtain rest st' where
    p4: "pattern_statements C case_label scrutinee ps st2 rest st'"
    and e4: "emits c3 rest st' ctx'" by auto
  have "emits ctx (ls @ [sk] @ bs @ rest) st' ctx'"
    using emits_trans [OF emits_trans [OF emits_trans [OF e1 e2] e3] e4] by simp
  moreover have "pattern_statements C case_label scrutinee (p # ps) (other_state ctx)
      (ls @ [sk] @ bs @ rest) st'"
    using f1 f3 p4 by auto
  ultimately show ?case by blast
qed

lemma compile_case_emits:
  assumes "statements ctx \<noteq> []"
    and "compile_case B C fndecl tmp end_label scrutinee kase ctx = Inr ctx'"
  shows "\<exists>segment st'.
           case_statements B C fndecl tmp end_label scrutinee kase (other_state ctx) segment st' \<and>
           emits ctx segment st' ctx'"
proof -
  let ?loc = "get_locus_arm (get_arm kase)"
  from assms(2) have pos: "get_patterns (get_arm kase) \<noteq> []"
    by (auto simp: compile_case_def Let_def split: if_splits)
  from assms(2) pos obtain x1 where x1: "run (backend_label C fndecl [] ?loc) ctx = Inr x1"
    and k1: "(case x1 of (case_label, ctx1) \<Rightarrow>
        and_then (compile_patterns C (get_patterns (get_arm kase)) case_label scrutinee ctx1)
          (\<lambda>ctx2.
        and_then (run (CompileExpr_Compile C (get_expr kase)) ctx2) (\<lambda>(kase_expr_tree, ctx3).
        and_then
          (case tmp of
             Some t \<Rightarrow> add_statement (assignment_statement B (var_expression B t ?loc) kase_expr_tree ?loc) ctx3
           | None \<Rightarrow> Inr ctx3)
          (\<lambda>ctx4. add_statement (GOTO_EXPR ?loc void_type_node end_label) ctx4)))) = Inr ctx'"
    by (auto simp: compile_case_def Let_def elim: and_then_InrE)
  obtain lbl c1 where x1p: "x1 = (lbl, c1)" by (cases x1) auto
  from run_emits [OF assms(1) x1 [unfolded x1p]] obtain ls st1 where
    f1: "backend_label C fndecl [] ?loc (other_state ctx) = Inr (lbl, ls, st1)"
    and e1: "emits ctx ls st1 c1" by blast
  from k1 x1p obtain c2 where
    p2: "compile_patterns C (get_patterns (get_arm kase)) lbl scrutinee c1 = Inr c2"
    and k2: "and_then (run (CompileExpr_Compile C (get_expr kase)) c2) (\<lambda>(kase_expr_tree, ctx3).
        and_then
          (case tmp of
             Some t \<Rightarrow> add_statement (assignment_statement B (var_expression B t ?loc) kase_expr_tree ?loc) ctx3
           | None \<Rightarrow> Inr ctx3)
          (\<lambda>ctx4. add_statement (GOTO_EXPR ?loc void_type_node end_label) ctx4)) = Inr ctx'"
    by (auto elim: and_then_InrE)
  from compile_patterns_emits [OF emits_nonempty [OF e1] p2] emits_state [OF e1]
  obtain ps st2 where
    f2: "pattern_statements C lbl scrutinee (get_patterns (get_arm kase)) st1 ps st2"
    and e2: "emits c1 ps st2 c2" by auto
  from k2 obtain x3 where x3: "run (CompileExpr_Compile C (get_expr kase)) c2 = Inr x3"
    and k3: "(case x3 of (kase_expr_tree, ctx3) \<Rightarrow>
        and_then
          (case tmp of
             Some t \<Rightarrow> add_statement (assignment_statement B (var_expression B t ?loc) kase_expr_tree ?loc) ctx3
           | None \<Rightarrow> Inr ctx3)
          (\<lambda>ctx4. add_statement (GOTO_EXPR ?loc void_type_node end_label) ctx4)) = Inr ctx'"
    by (auto elim: and_then_InrE)
  obtain v c3 where x3p: "x3 = (v, c3)" by (cases x3) auto
  from run_emits [OF emits_nonempty [OF e2] x3 [unfolded x3p]] emits_state [OF e2]
  obtain es st3 where
    f3: "CompileExpr_Compile C (get_expr kase) st2 = Inr (v, es, st3)"
    and e3: "emits c2 es st3 c3" by auto
  from k3 x3p obtain c4 where a4: "(case tmp of
             Some t \<Rightarrow> add_statement (assignment_statement B (var_expression B t ?loc) v ?loc) c3
           | None \<Rightarrow> Inr c3) = Inr c4"
    and g: "add_statement (GOTO_EXPR ?loc void_type_node end_label) c4 = Inr ctx'"
    by (auto elim: and_then_InrE)
  have e4: "emits c3 (result_assignment B tmp v ?loc) st3 c4"
    using a4 emits_refl [OF emits_nonempty [OF e3]] emits_state [OF e3]
    by (cases tmp) (auto simp: result_assignment_def dest: add_statement_emits)
  have e5: "emits c4 [GOTO_EXPR ?loc void_type_node end_label] st3 ctx'"
    using add_statement_emits [OF g] emits_state [OF e4] by simp
  have "emits ctx (ls @ ps @ es @ result_assignment B tmp v ?loc
          @ [GOTO_EXPR ?loc void_type_node end_label]) st3 ctx'"
    using emits_trans [OF emits_trans [OF emits_trans [OF emits_trans [OF e1 e2] e3] e4] e5]
    by simp
  moreover have "case_statements B C fndecl tmp end_label scrutinee kase (other_state ctx)
      (ls @ ps @ es @ result_assignment B tmp v ?loc
         @ [GOTO_EXPR ?loc void_type_node end_label]) st3"
    unfolding case_statements_def using pos f1 f2 f3 by blast
  ultimately show ?thesis by blast
qed

lemma compile_cases_emits:
  "statements ctx \<noteq> [] \<Longrightarrow>
   compile_cases B C fndecl tmp end_label scrutinee kases ctx = Inr ctx' \<Longrightarrow>
     \<exists>segments st'.
       cases_statements B C fndecl tmp end_label scrutinee kases (other_state ctx) segments st' \<and>
       emits ctx (concat segments) st' ctx'"
proof (induction kases arbitrary: ctx)
  case Nil
  then have "emits ctx (concat []) (other_state ctx) ctx'" by (simp add: emits_refl)
  then show ?case by fastforce
next
  case (Cons kase kases)
  from Cons.prems(2) obtain c1 where
    c1: "compile_case B C fndecl tmp end_label scrutinee kase ctx = Inr c1"
    and r: "compile_cases B C fndecl tmp end_label scrutinee kases c1 = Inr ctx'"
    by (auto elim: and_then_InrE)
  from compile_case_emits [OF Cons.prems(1) c1] obtain seg st1 where
    s1: "case_statements B C fndecl tmp end_label scrutinee kase (other_state ctx) seg st1"
    and e1: "emits ctx seg st1 c1" by blast
  from Cons.IH [OF emits_nonempty [OF e1] r] emits_state [OF e1] obtain segs st' where
    s2: "cases_statements B C fndecl tmp end_label scrutinee kases st1 segs st'"
    and e2: "emits c1 (concat segs) st' ctx'"
    by auto
  have "emits ctx (concat (seg # segs)) st' ctx'" using emits_trans [OF e1 e2] by simp
  moreover have "cases_statements B C fndecl tmp end_label scrutinee (kase # kases)
      (other_state ctx) (seg # segs) st'"
    using s1 s2 by auto
  ultimately show ?case by blast
qed

lemma lower_switch_shape:
  assumes ne: "statements ctx \<noteq> []"
    and run: "lower_switch B C fndecl tmp expr scrutinee qualifier translated ctx
              = Inr (translated', ctx')"
  shows "\<exists>q stmts st'.
           qualifier = Some q \<and>
           switch_statements B C fndecl (peek_enclosing_scope ctx) tmp expr scrutinee q
             (other_state ctx) stmts st' \<and>
           emits ctx stmts st' ctx' \<and>
           translated' = (case tmp of Some t \<Rightarrow> var_expression B t (get_locus_match expr)
                          | None \<Rightarrow> translated)"
proof -
  obtain active below where st: "statements ctx = active # below"
    using ne by (cases "statements ctx") auto
  from run obtain x1 where x1: "run (backend_label C fndecl [] (get_locus_match expr)) ctx = Inr x1"
    and k1: "(case x1 of (end_label, ctx1) \<Rightarrow>
       and_then (run (backend_block C fndecl (peek_enclosing_scope ctx1) [] UnknownLocus UnknownLocus) ctx1)
         (\<lambda>(switch_body_block, ctx2).
       and_then (compile_cases B C fndecl tmp end_label scrutinee (get_match_cases expr)
                   (push_block switch_body_block ctx2)) (\<lambda>ctx3.
       and_then (pop_block B ctx3) (\<lambda>(match_body, ctx4).
         case qualifier of
           None \<Rightarrow> Inl UndefinedBehaviour
         | Some q \<Rightarrow>
             and_then (add_statement
                         (SWITCH_EXPR (get_locus_match expr) (TREE_TYPE B q) q match_body) ctx4)
               (\<lambda>ctx5.
             and_then (add_statement (label_definition_statement B end_label) ctx5) (\<lambda>ctx6.
               Inr (case tmp of Some t \<Rightarrow> var_expression B t (get_locus_match expr)
                    | None \<Rightarrow> translated, ctx6))))))) = Inr (translated', ctx')"
    unfolding lower_switch_def Let_def by (erule and_then_InrE)
  obtain end_label c1 where x1p: "x1 = (end_label, c1)" by (cases x1) auto
  from run_emits [OF ne x1 [unfolded x1p]] obtain s1 st1 where
    f1: "backend_label C fndecl [] (get_locus_match expr) (other_state ctx)
         = Inr (end_label, s1, st1)"
    and e1: "emits ctx s1 st1 c1" by blast
  from k1 [unfolded x1p prod.case] obtain x2 where
    x2: "run (backend_block C fndecl (peek_enclosing_scope c1) [] UnknownLocus UnknownLocus) c1 = Inr x2"
    and k2: "(case x2 of (switch_body_block, ctx2) \<Rightarrow>
       and_then (compile_cases B C fndecl tmp end_label scrutinee (get_match_cases expr)
                   (push_block switch_body_block ctx2)) (\<lambda>ctx3.
       and_then (pop_block B ctx3) (\<lambda>(match_body, ctx4).
         case qualifier of
           None \<Rightarrow> Inl UndefinedBehaviour
         | Some q \<Rightarrow>
             and_then (add_statement
                         (SWITCH_EXPR (get_locus_match expr) (TREE_TYPE B q) q match_body) ctx4)
               (\<lambda>ctx5.
             and_then (add_statement (label_definition_statement B end_label) ctx5) (\<lambda>ctx6.
               Inr (case tmp of Some t \<Rightarrow> var_expression B t (get_locus_match expr)
                    | None \<Rightarrow> translated, ctx6)))))) = Inr (translated', ctx')"
    by (erule and_then_InrE)
  obtain blk c2 where x2p: "x2 = (blk, c2)" by (cases x2) auto
  from run_emits [OF emits_nonempty [OF e1] x2 [unfolded x2p]] emits_state [OF e1]
    emits_peek [OF e1]
  obtain s2 st2 where
    f2: "backend_block C fndecl (peek_enclosing_scope ctx) [] UnknownLocus UnknownLocus st1
         = Inr (blk, s2, st2)"
    and e2: "emits c1 s2 st2 c2" by auto
  note e12 = emits_trans [OF e1 e2]
  have st2: "statements c2 = (active @ s1 @ s2) # below"
    using emits_statements [OF e12 st] by simp
  from k2 [unfolded x2p prod.case] obtain c3 where
    cs: "compile_cases B C fndecl tmp end_label scrutinee (get_match_cases expr)
           (push_block blk c2) = Inr c3"
    and k3: "and_then (pop_block B c3) (\<lambda>(match_body, ctx4).
         case qualifier of
           None \<Rightarrow> Inl UndefinedBehaviour
         | Some q \<Rightarrow>
             and_then (add_statement
                         (SWITCH_EXPR (get_locus_match expr) (TREE_TYPE B q) q match_body) ctx4)
               (\<lambda>ctx5.
             and_then (add_statement (label_definition_statement B end_label) ctx5) (\<lambda>ctx6.
               Inr (case tmp of Some t \<Rightarrow> var_expression B t (get_locus_match expr)
                    | None \<Rightarrow> translated, ctx6)))) = Inr (translated', ctx')"
    by (erule and_then_InrE)
  have pst: "statements (push_block blk c2) = [] # (active @ s1 @ s2) # below"
    and psc: "scope_stack (push_block blk c2) = blk # scope_stack c2"
    and pfn: "fn_stack (push_block blk c2) = fn_stack c2"
    and pos: "other_state (push_block blk c2) = st2"
    using st2 emits_state [OF e2] by (simp_all add: push_block_def)
  from compile_cases_emits [OF _ cs] pst pos obtain segments st3 where
    f3: "cases_statements B C fndecl tmp end_label scrutinee (get_match_cases expr) st2
           segments st3"
    and e3: "emits (push_block blk c2) (concat segments) st3 c3"
    by auto
  have st3: "statements c3 = concat segments # (active @ s1 @ s2) # below"
    using emits_statements [OF e3 pst] by simp
  have sc3: "scope_stack c3 = blk # scope_stack c2"
    using emits_scope [OF e3] psc by simp
  have fn3: "fn_stack c3 = fn_stack c2"
    using e3 pfn pst by (simp add: emits_def)
  have pop: "pop_block B c3 =
      Inr (block_add_statements B blk (concat segments),
           c3\<lparr>scope_stack := scope_stack c2, statements := (active @ s1 @ s2) # below\<rparr>)"
    using st3 sc3 by (simp add: pop_block_def)
  let ?c4 = "c3\<lparr>scope_stack := scope_stack c2, statements := (active @ s1 @ s2) # below\<rparr>"
  from k3 [unfolded pop and_then_simps prod.case] obtain q where q: "qualifier = Some q"
    and k4: "and_then (add_statement
                 (SWITCH_EXPR (get_locus_match expr) (TREE_TYPE B q) q
                    (block_add_statements B blk (concat segments))) ?c4)
               (\<lambda>ctx5.
             and_then (add_statement (label_definition_statement B end_label) ctx5) (\<lambda>ctx6.
               Inr (case tmp of Some t \<Rightarrow> var_expression B t (get_locus_match expr)
                    | None \<Rightarrow> translated, ctx6))) = Inr (translated', ctx')"
    by (cases qualifier) auto
  let ?last = "[SWITCH_EXPR (get_locus_match expr) (TREE_TYPE B q) q
                   (block_add_statements B blk (concat segments)),
                 label_definition_statement B end_label]"
  from k4 have res: "translated' = (case tmp of Some t \<Rightarrow> var_expression B t (get_locus_match expr)
                          | None \<Rightarrow> translated)"
    and fin: "ctx' = ?c4\<lparr>statements := (active @ (s1 @ s2) @ ?last) # below\<rparr>"
    by (auto simp: add_statement_def)
  have "emits ctx (s1 @ s2 @ ?last) st3 ctx'"
    using fin st emits_scope [OF e12] e12 fn3 emits_state [OF e3]
    by (simp add: emits_def)
  moreover have "switch_statements B C fndecl (peek_enclosing_scope ctx) tmp expr scrutinee q
      (other_state ctx) (s1 @ s2 @ ?last) st3"
    unfolding switch_statements_def using f1 f2 f3 by blast
  ultimately show ?thesis using q res by blast
qed

lemma add_statements_result:
  "statements ctx = active # below \<Longrightarrow>
     add_statements ss ctx = Inr (ctx\<lparr>statements := (active @ ss) # below\<rparr>)"
proof (induction ss arbitrary: ctx active)
  case Nil
  then show ?case by simp
next
  case (Cons s ss)
  have "add_statement s ctx = Inr (ctx\<lparr>statements := (active @ [s]) # below\<rparr>)"
    using Cons.prems by (simp add: add_statement_def)
  moreover have "add_statements ss (ctx\<lparr>statements := (active @ [s]) # below\<rparr>)
      = Inr (ctx\<lparr>statements := (active @ [s]) # below,
                  statements := ((active @ [s]) @ ss) # below\<rparr>)"
    by (rule Cons.IH) simp
  ultimately show ?case by simp
qed

lemma allocate_temporary_unit:
  "is_unit T expr_tyty \<Longrightarrow>
     allocate_temporary B T C fndecl expr_tyty locus ctx = Inr (None, ctx)"
  by (simp add: allocate_temporary_def)

lemma allocate_temporary_value:
  assumes "\<not> is_unit T expr_tyty"
    and "temporary_variable C fndecl (peek_enclosing_scope ctx)
           (TyTyResolveCompile_compile B expr_tyty False) NULL_TREE False locus (other_state ctx)
         = Inr ((t, ret_var_stmt), stmts, st)"
    and "statements ctx = active # below"
  shows "allocate_temporary B T C fndecl expr_tyty locus ctx =
           Inr (Some t, ctx\<lparr>other_state := st,
                            statements := (active @ stmts @ [ret_var_stmt]) # below\<rparr>)"
  using assms add_statements_result [of "ctx\<lparr>other_state := st\<rparr>" active below stmts]
  by (simp add: allocate_temporary_def Let_def run_def add_statement_def)

lemma allocate_temporary_emits:
  assumes "statements ctx \<noteq> []"
    and "allocate_temporary B T C fndecl expr_tyty locus ctx = Inr (tmp, ctx1)"
  shows "\<exists>stmts st'.
           temporary_statements B T C fndecl (peek_enclosing_scope ctx) expr_tyty locus
             (other_state ctx) tmp stmts st' \<and>
           emits ctx stmts st' ctx1"
proof (cases "is_unit T expr_tyty")
  case True
  with assms show ?thesis
    using emits_refl [OF assms(1)]
    by (auto simp: allocate_temporary_def temporary_statements_def)
next
  case False
  with assms(2) obtain x where
    x: "run (temporary_variable C fndecl (peek_enclosing_scope ctx)
               (TyTyResolveCompile_compile B expr_tyty False) NULL_TREE False locus) ctx = Inr x"
    and k: "(case x of ((tmp, ret_var_stmt), ctx1) \<Rightarrow>
               and_then (add_statement ret_var_stmt ctx1) (\<lambda>ctx2. Inr (Some tmp, ctx2)))
            = Inr (tmp, ctx1)"
    unfolding allocate_temporary_def Let_def by (auto elim: and_then_InrE)
  obtain t d c where xp: "x = ((t, d), c)" by (cases x) auto
  from run_emits [OF assms(1) x [unfolded xp]] obtain s1 st1 where
    f1: "temporary_variable C fndecl (peek_enclosing_scope ctx)
           (TyTyResolveCompile_compile B expr_tyty False) NULL_TREE False locus (other_state ctx)
         = Inr ((t, d), s1, st1)"
    and e1: "emits ctx s1 st1 c" by blast
  from k [unfolded xp prod.case] obtain c2 where a: "add_statement d c = Inr c2"
    and r: "tmp = Some t" "ctx1 = c2"
    by (auto elim: and_then_InrE)
  have e2: "emits c [d] st1 c2" using add_statement_emits [OF a] emits_state [OF e1] by simp
  have "emits ctx (s1 @ [d]) st1 ctx1" using emits_trans [OF e1 e2] r by simp
  moreover have "temporary_statements B T C fndecl (peek_enclosing_scope ctx) expr_tyty locus
      (other_state ctx) tmp (s1 @ [d]) st1"
    unfolding temporary_statements_def using False f1 r by auto
  ultimately show ?thesis by blast
qed

lemma temporary_statements_iff:
  "temporary_statements B T C fndecl scope expr_tyty locus st tmp stmts st' \<Longrightarrow>
     (tmp \<noteq> None \<longleftrightarrow> \<not> is_unit T expr_tyty)"
  by (auto simp: temporary_statements_def)

lemma scrutinee_qualifier_nonempty:
  assumes "statements ctx \<noteq> []"
    and "scrutinee_qualifier B T C new scrutinee_kind expr compiled ctx
         = Inr ((lowered, scrutinee, qualifier), ctx')"
  shows "statements ctx' \<noteq> []"
proof (cases "is_primitive_type_kind T scrutinee_kind \<or> scrutinee_kind = Kind_ADT")
  case True
  with assms show ?thesis
    by (auto simp: scrutinee_qualifier_def Let_def split: if_splits)
next
  case False
  show ?thesis
  proof (cases "get_expression_type (get_scrutinee_expr expr) = Tuple")
    case True
    with False assms(2) obtain outer where
      r: "run (CompileExpr_Compile C (get_scrutinee_expr outer)) ctx = Inr (scrutinee, ctx')"
      by (auto simp: scrutinee_qualifier_def split: if_splits elim!: and_then_InrE)
    from run_emits [OF assms(1) r] emits_nonempty show ?thesis by blast
  next
    case nt: False
    with False assms(2) have "ctx' = ctx"
      by (auto simp: scrutinee_qualifier_def split: if_splits expr_type.splits)
    then show ?thesis using assms(1) by simp
  qed
qed

lemma scrutinee_qualifier_emits:
  assumes "statements ctx \<noteq> []"
    and "scrutinee_qualifier B T C new scrutinee_kind expr compiled ctx
         = Inr ((lowered, scrutinee, Some q), ctx')"
  shows "\<exists>stmts st'.
           qualifier_statements B T C new scrutinee_kind expr compiled (other_state ctx)
             lowered scrutinee q stmts st' \<and>
           emits ctx stmts st' ctx'"
proof (cases "is_primitive_type_kind T scrutinee_kind \<or> scrutinee_kind = Kind_ADT")
  case True
  with assms show ?thesis
    using emits_refl [OF assms(1)]
    by (auto simp: scrutinee_qualifier_def qualifier_statements_def Let_def split: if_splits)
next
  case False
  from False assms(2) have k: "scrutinee_kind = Kind_TUPLE"
    by (auto simp: scrutinee_qualifier_def split: if_splits)
  from False assms(2) k have t: "get_expression_type (get_scrutinee_expr expr) = Tuple"
    by (auto simp: scrutinee_qualifier_def split: if_splits expr_type.splits)
  from False assms(2) k t obtain x where
    s: "simplify_tuple_match new expr = Inr lowered"
    and r: "run (CompileExpr_Compile C (get_scrutinee_expr lowered)) ctx = Inr (scrutinee, ctx')"
    and q: "q = scrutinee"
    by (auto simp: scrutinee_qualifier_def split: if_splits elim!: and_then_InrE)
  from run_emits [OF assms(1) r] obtain stmts st' where
    f: "CompileExpr_Compile C (get_scrutinee_expr lowered) (other_state ctx)
        = Inr (scrutinee, stmts, st')"
    and e: "emits ctx stmts st' ctx'" by blast
  have "qualifier_statements B T C new scrutinee_kind expr compiled (other_state ctx)
      lowered scrutinee q stmts st'"
    unfolding qualifier_statements_def using False k t s f q by auto
  with e show ?thesis by blast
qed

lemma qualifier_statements_same:
  "qualifier_statements B T C new scrutinee_kind expr compiled st lowered scrutinee q stmts st'
     \<Longrightarrow> scrutinee_kind \<noteq> Kind_TUPLE \<Longrightarrow> lowered = expr"
  by (auto simp: qualifier_statements_def split: if_splits)

lemma check_scrutinee_type_frame:
  "check_scrutinee_type t locus ctx = Inr ctx0 \<Longrightarrow>
     statements ctx0 = statements ctx \<and> scope_stack ctx0 = scope_stack ctx \<and>
     fn_stack ctx0 = fn_stack ctx \<and> other_state ctx0 = other_state ctx"
  by (auto simp: check_scrutinee_type_def sorry_at_def split: if_splits tyty.splits)

lemma visit_MatchExpr_shape:
  assumes "visit_MatchExpr B T C new expr translated ctx = Inr (translated', ctx')"
    and "lookup_type T (get_mappings_expr (get_scrutinee_expr expr)) = Some scrutinee_expr_tyty"
    and "lookup_type T (get_mappings_match expr) = Some expr_tyty"
    and "statements ctx = active # below"
  shows "\<exists>fndecl tmp lowered stmts.
           peek_fn ctx = Inr fndecl \<and>
           match_statements B T C new fndecl (peek_enclosing_scope ctx) scrutinee_expr_tyty
             expr_tyty expr (other_state ctx) tmp lowered stmts (other_state ctx') \<and>
           statements ctx' = (active @ stmts) # below \<and>
           (tmp \<noteq> None \<longleftrightarrow> \<not> is_unit T expr_tyty) \<and>
           translated' = (case tmp of Some t \<Rightarrow> var_expression B t (get_locus_match lowered)
                          | None \<Rightarrow> translated) \<and>
           (get_kind scrutinee_expr_tyty \<noteq> Kind_TUPLE \<longrightarrow> lowered = expr)"
proof -
  let ?kind = "get_kind scrutinee_expr_tyty"
  from assms(1,2,3) obtain ctx0 where
    chk: "check_scrutinee_type scrutinee_expr_tyty (get_locus_match expr) ctx = Inr ctx0"
    and k0: "and_then (peek_fn ctx0) (\<lambda>fndecl.
                and_then (allocate_temporary B T C fndecl expr_tyty (get_locus_match expr) ctx0)
                  (\<lambda>(tmp, ctx1).
                and_then (run (CompileExpr_Compile C (get_scrutinee_expr expr)) ctx1)
                  (\<lambda>(match_scrutinee_expr, ctx2).
                and_then (scrutinee_qualifier B T C new ?kind expr match_scrutinee_expr ctx2)
                  (\<lambda>((expr', match_scrutinee_expr', qualifier), ctx3).
                   lower_switch B C fndecl tmp expr' match_scrutinee_expr' qualifier
                     translated ctx3)))) = Inr (translated', ctx')"
    unfolding visit_MatchExpr_def Let_def
    by (auto split: if_splits elim!: and_then_InrE)
  note frame = check_scrutinee_type_frame [OF chk]
  have st0: "statements ctx0 = active # below"
    using frame assms(4) by simp
  have sc0: "peek_enclosing_scope ctx0 = peek_enclosing_scope ctx"
    and fn0: "peek_fn ctx0 = peek_fn ctx"
    and os0: "other_state ctx0 = other_state ctx"
    using frame by (simp_all add: peek_enclosing_scope_def peek_fn_def)
  from k0 obtain fndecl where pf: "peek_fn ctx0 = Inr fndecl" and
    k1: "and_then (allocate_temporary B T C fndecl expr_tyty (get_locus_match expr) ctx0)
                  (\<lambda>(tmp, ctx1).
                and_then (run (CompileExpr_Compile C (get_scrutinee_expr expr)) ctx1)
                  (\<lambda>(match_scrutinee_expr, ctx2).
                and_then (scrutinee_qualifier B T C new ?kind expr match_scrutinee_expr ctx2)
                  (\<lambda>((expr', match_scrutinee_expr', qualifier), ctx3).
                   lower_switch B C fndecl tmp expr' match_scrutinee_expr' qualifier
                     translated ctx3))) = Inr (translated', ctx')"
    by (cases "peek_fn ctx0") auto
  from k1 obtain x1 where
    x1: "allocate_temporary B T C fndecl expr_tyty (get_locus_match expr) ctx0 = Inr x1"
    and k2: "(case x1 of (tmp, ctx1) \<Rightarrow>
                and_then (run (CompileExpr_Compile C (get_scrutinee_expr expr)) ctx1)
                  (\<lambda>(match_scrutinee_expr, ctx2).
                and_then (scrutinee_qualifier B T C new ?kind expr match_scrutinee_expr ctx2)
                  (\<lambda>((expr', match_scrutinee_expr', qualifier), ctx3).
                   lower_switch B C fndecl tmp expr' match_scrutinee_expr' qualifier
                     translated ctx3))) = Inr (translated', ctx')"
    by (erule and_then_InrE)
  obtain tmp c1 where x1p: "x1 = (tmp, c1)" by (cases x1) auto
  have ne0: "statements ctx0 \<noteq> []" using st0 by simp
  from allocate_temporary_emits [OF ne0 x1 [unfolded x1p]] sc0 os0 obtain s1 st1 where
    f1: "temporary_statements B T C fndecl (peek_enclosing_scope ctx) expr_tyty
           (get_locus_match expr) (other_state ctx) tmp s1 st1"
    and e1: "emits ctx0 s1 st1 c1" by auto
  from k2 [unfolded x1p prod.case] obtain x2 where
    x2: "run (CompileExpr_Compile C (get_scrutinee_expr expr)) c1 = Inr x2"
    and k3: "(case x2 of (match_scrutinee_expr, ctx2) \<Rightarrow>
                and_then (scrutinee_qualifier B T C new ?kind expr match_scrutinee_expr ctx2)
                  (\<lambda>((expr', match_scrutinee_expr', qualifier), ctx3).
                   lower_switch B C fndecl tmp expr' match_scrutinee_expr' qualifier
                     translated ctx3)) = Inr (translated', ctx')"
    by (erule and_then_InrE)
  obtain compiled c2 where x2p: "x2 = (compiled, c2)" by (cases x2) auto
  from run_emits [OF emits_nonempty [OF e1] x2 [unfolded x2p]] emits_state [OF e1]
  obtain s2 st2 where
    f2: "CompileExpr_Compile C (get_scrutinee_expr expr) st1 = Inr (compiled, s2, st2)"
    and e2: "emits c1 s2 st2 c2" by auto
  from k3 [unfolded x2p prod.case] obtain x3 where
    x3: "scrutinee_qualifier B T C new ?kind expr compiled c2 = Inr x3"
    and k4: "(case x3 of ((expr', match_scrutinee_expr', qualifier), ctx3) \<Rightarrow>
                   lower_switch B C fndecl tmp expr' match_scrutinee_expr' qualifier
                     translated ctx3) = Inr (translated', ctx')"
    by (cases "scrutinee_qualifier B T C new ?kind expr compiled c2") auto
  obtain lowered scr qual c3 where x3p: "x3 = ((lowered, scr, qual), c3)"
    by (cases x3) auto
  from k4 [unfolded x3p prod.case] have
    ls: "lower_switch B C fndecl tmp lowered scr qual translated c3 = Inr (translated', ctx')" .
  have ne3: "statements c3 \<noteq> []"
    using scrutinee_qualifier_nonempty [OF emits_nonempty [OF e2] x3 [unfolded x3p]] .
  from lower_switch_shape [OF ne3 ls] obtain q s4 st4 where
    qual: "qual = Some q"
    and f4: "switch_statements B C fndecl (peek_enclosing_scope c3) tmp lowered scr q
               (other_state c3) s4 st4"
    and e4: "emits c3 s4 st4 ctx'"
    and res: "translated' = (case tmp of Some t \<Rightarrow> var_expression B t (get_locus_match lowered)
                          | None \<Rightarrow> translated)"
    by blast
  from scrutinee_qualifier_emits [OF emits_nonempty [OF e2] x3 [unfolded x3p qual]]
    emits_state [OF e2]
  obtain s3 st3 where
    f3: "qualifier_statements B T C new ?kind expr compiled st2 lowered scr q s3 st3"
    and e3: "emits c2 s3 st3 c3" by auto
  have sc3: "peek_enclosing_scope c3 = peek_enclosing_scope ctx"
    using emits_peek [OF e1] emits_peek [OF e2] emits_peek [OF e3] sc0 by simp
  have f4': "switch_statements B C fndecl (peek_enclosing_scope ctx) tmp lowered scr q
               st3 s4 st4"
    using f4 sc3 emits_state [OF e3] by simp
  note e = emits_trans [OF emits_trans [OF emits_trans [OF e1 e2] e3] e4]
  have fin: "statements ctx' = (active @ s1 @ s2 @ s3 @ s4) # below"
    using emits_statements [OF e st0] by simp
  have os: "other_state ctx' = st4" using emits_state [OF e4] .
  have ms: "match_statements B T C new fndecl (peek_enclosing_scope ctx) scrutinee_expr_tyty
      expr_tyty expr (other_state ctx) tmp lowered (s1 @ s2 @ s3 @ s4) (other_state ctx')"
    unfolding match_statements_def os using f1 f2 f3 f4' by blast
  have pf': "peek_fn ctx = Inr fndecl" using pf fn0 by simp
  have same: "?kind \<noteq> Kind_TUPLE \<longrightarrow> lowered = expr"
    using qualifier_statements_same [OF f3] by blast
  from pf' ms fin temporary_statements_iff [OF f1] res same show ?thesis by blast
qed

lemma add_statements_ok:
  "statements ctx \<noteq> [] \<Longrightarrow> \<exists>ctx'. add_statements ss ctx = Inr ctx'"
  using add_statements_result [of ctx _ _ ss] by (cases "statements ctx") auto

lemma run_ok:
  assumes "statements ctx \<noteq> []" and "\<not> isl (f (other_state ctx))"
  shows "\<exists>r ctx'. run f ctx = Inr (r, ctx') \<and> statements ctx' \<noteq> []"
proof -
  from assms(2) obtain r stmts st where f: "f (other_state ctx) = Inr (r, stmts, st)"
    by (cases "f (other_state ctx)") auto
  from add_statements_ok [of "ctx\<lparr>other_state := st\<rparr>" stmts] assms(1)
  obtain ctx' where a: "add_statements stmts (ctx\<lparr>other_state := st\<rparr>) = Inr ctx'" by auto
  have r: "run f ctx = Inr (r, ctx')" using f a by (simp add: run_def)
  from run_emits [OF assms(1) r] emits_nonempty show ?thesis using r by blast
qed

lemma add_statement_ok:
  "statements ctx \<noteq> [] \<Longrightarrow> \<exists>ctx'. add_statement s ctx = Inr ctx' \<and> statements ctx' \<noteq> []"
  by (cases "statements ctx") (auto simp: add_statement_def)

lemma compile_patterns_ok:
  "total_compilers C \<Longrightarrow> statements ctx \<noteq> [] \<Longrightarrow>
     \<exists>ctx'. compile_patterns C ps case_label scrutinee ctx = Inr ctx' \<and> statements ctx' \<noteq> []"
proof (induction ps arbitrary: ctx)
  case Nil
  then show ?case by simp
next
  case (Cons p ps)
  from Cons.prems have "\<not> isl (CompilePatternCaseLabelExpr_Compile C p case_label (other_state ctx))"
    by (simp add: total_compilers_def)
  from run_ok [where f = "CompilePatternCaseLabelExpr_Compile C p case_label", OF Cons.prems(2) this]
  obtain sk c1 where
    r1: "run (CompilePatternCaseLabelExpr_Compile C p case_label) ctx = Inr (sk, c1)"
    and n1: "statements c1 \<noteq> []" by blast
  from add_statement_ok [OF n1] obtain c2 where a2: "add_statement sk c1 = Inr c2"
    and n2: "statements c2 \<noteq> []" by blast
  from Cons.prems have "\<not> isl (CompilePatternBindings_Compile C p scrutinee (other_state c2))"
    by (simp add: total_compilers_def)
  from run_ok [where f = "CompilePatternBindings_Compile C p scrutinee", OF n2 this]
  obtain u c3 where
    r3: "run (CompilePatternBindings_Compile C p scrutinee) c2 = Inr (u, c3)"
    and n3: "statements c3 \<noteq> []" by blast
  from Cons.IH [OF Cons.prems(1) n3] obtain c4 where
    "compile_patterns C ps case_label scrutinee c3 = Inr c4" "statements c4 \<noteq> []" by blast
  with r1 a2 r3 show ?case by simp
qed

lemma compile_case_ok:
  assumes "total_compilers C" and "statements ctx \<noteq> []"
    and "get_patterns (get_arm kase) \<noteq> []"
  shows "\<exists>ctx'. compile_case B C fndecl tmp end_label scrutinee kase ctx = Inr ctx' \<and>
           statements ctx' \<noteq> []"
proof -
  let ?loc = "get_locus_arm (get_arm kase)"
  from assms(1) have "\<not> isl (backend_label C fndecl [] ?loc (other_state ctx))"
    by (simp add: total_compilers_def)
  from run_ok [where f = "backend_label C fndecl [] ?loc", OF assms(2) this]
  obtain lbl c1 where
    r1: "run (backend_label C fndecl [] ?loc) ctx = Inr (lbl, c1)"
    and n1: "statements c1 \<noteq> []" by blast
  from compile_patterns_ok [OF assms(1) n1] obtain c2 where
    p2: "compile_patterns C (get_patterns (get_arm kase)) lbl scrutinee c1 = Inr c2"
    and n2: "statements c2 \<noteq> []" by blast
  from assms(1) have "\<not> isl (CompileExpr_Compile C (get_expr kase) (other_state c2))"
    by (simp add: total_compilers_def)
  from run_ok [where f = "CompileExpr_Compile C (get_expr kase)", OF n2 this]
  obtain v c3 where
    r3: "run (CompileExpr_Compile C (get_expr kase)) c2 = Inr (v, c3)"
    and n3: "statements c3 \<noteq> []" by blast
  obtain c4 where a4: "(case tmp of
         Some t \<Rightarrow> add_statement (assignment_statement B (var_expression B t ?loc) v ?loc) c3
       | None \<Rightarrow> Inr c3) = Inr c4" and n4: "statements c4 \<noteq> []"
    using n3 add_statement_ok [OF n3] by (cases tmp) auto
  from add_statement_ok [OF n4] obtain c5 where
    a5: "add_statement (GOTO_EXPR ?loc void_type_node end_label) c4 = Inr c5"
    and n5: "statements c5 \<noteq> []" by blast
  from assms(3) r1 p2 r3 a4 a5 n5 show ?thesis
    by (simp add: compile_case_def Let_def)
qed

lemma compile_cases_ok:
  "total_compilers C \<Longrightarrow> statements ctx \<noteq> [] \<Longrightarrow>
   list_all (\<lambda>kase. get_patterns (get_arm kase) \<noteq> []) kases \<Longrightarrow>
     \<exists>ctx'. compile_cases B C fndecl tmp end_label scrutinee kases ctx = Inr ctx'"
proof (induction kases arbitrary: ctx)
  case Nil
  then show ?case by simp
next
  case (Cons kase kases)
  from compile_case_ok [OF Cons.prems(1,2), of kase B fndecl tmp end_label scrutinee] Cons.prems(3)
  obtain c1 where c1: "compile_case B C fndecl tmp end_label scrutinee kase ctx = Inr c1"
    and n1: "statements c1 \<noteq> []" by auto
  from Cons.IH [OF Cons.prems(1) n1] Cons.prems(3) obtain c2 where
    "compile_cases B C fndecl tmp end_label scrutinee kases c1 = Inr c2" by auto
  with c1 show ?case by simp
qed

lemma lower_switch_ok:
  assumes "total_compilers C" and "statements ctx \<noteq> []"
    and "list_all (\<lambda>kase. get_patterns (get_arm kase) \<noteq> []) (get_match_cases expr)"
  shows "\<exists>res. lower_switch B C fndecl tmp expr scrutinee (Some q) translated ctx = Inr res"
proof -
  from assms(1) have "\<not> isl (backend_label C fndecl [] (get_locus_match expr) (other_state ctx))"
    by (simp add: total_compilers_def)
  from run_ok [where f = "backend_label C fndecl [] (get_locus_match expr)", OF assms(2) this]
  obtain end_label c1 where
    r1: "run (backend_label C fndecl [] (get_locus_match expr)) ctx = Inr (end_label, c1)"
    and n1: "statements c1 \<noteq> []" by blast
  from assms(1) have "\<not> isl (backend_block C fndecl (peek_enclosing_scope c1) [] UnknownLocus
      UnknownLocus (other_state c1))"
    by (simp add: total_compilers_def)
  from run_ok [where f = "backend_block C fndecl (peek_enclosing_scope c1) [] UnknownLocus
      UnknownLocus", OF n1 this]
  obtain blk c2 where
    r2: "run (backend_block C fndecl (peek_enclosing_scope c1) [] UnknownLocus UnknownLocus) c1
         = Inr (blk, c2)"
    and n2: "statements c2 \<noteq> []" by blast
  have pst: "statements (push_block blk c2) = [] # statements c2"
    and psc: "scope_stack (push_block blk c2) = blk # scope_stack c2"
    by (simp_all add: push_block_def)
  have np: "statements (push_block blk c2) \<noteq> []" using pst by simp
  from compile_cases_ok [OF assms(1) np assms(3)] obtain c3 where
    cs: "compile_cases B C fndecl tmp end_label scrutinee (get_match_cases expr)
           (push_block blk c2) = Inr c3" by blast
  from compile_cases_emits [OF np cs] obtain segments st3 where
    e3: "emits (push_block blk c2) (concat segments) st3 c3" by blast
  have st3: "statements c3 = concat segments # statements c2"
    using emits_statements [OF e3 pst] by simp
  have sc3: "scope_stack c3 = blk # scope_stack c2"
    using emits_scope [OF e3] psc by simp
  have pop: "pop_block B c3 =
      Inr (block_add_statements B blk (concat segments),
           c3\<lparr>scope_stack := scope_stack c2, statements := statements c2\<rparr>)"
    using st3 sc3 by (simp add: pop_block_def)
  let ?c4 = "c3\<lparr>scope_stack := scope_stack c2, statements := statements c2\<rparr>"
  have n4: "statements ?c4 \<noteq> []" using n2 by simp
  from add_statement_ok [OF n4] obtain c5 where
    a5: "add_statement (SWITCH_EXPR (get_locus_match expr) (TREE_TYPE B q) q
           (block_add_statements B blk (concat segments))) ?c4 = Inr c5"
    and n5: "statements c5 \<noteq> []" by blast
  from add_statement_ok [OF n5] obtain c6 where
    a6: "add_statement (label_definition_statement B end_label) c5 = Inr c6" by blast
  from r1 r2 cs pop a5 a6 show ?thesis
    by (simp add: lower_switch_def Let_def)
qed

lemma direct_scrutinee_kind:
  "direct_scrutinee T t \<Longrightarrow>
     (is_primitive_type_kind T (get_kind t) \<and> get_kind t \<noteq> Kind_NEVER) \<or> get_kind t = Kind_ADT"
  by (cases t) (auto simp: direct_scrutinee_def)

lemma check_scrutinee_type_ok:
  "direct_scrutinee T t \<Longrightarrow> \<exists>ctx0. check_scrutinee_type t locus ctx = Inr ctx0"
  by (cases t) (auto simp: direct_scrutinee_def check_scrutinee_type_def)

lemma allocate_temporary_ok:
  assumes "total_compilers C" and "statements ctx \<noteq> []"
  shows "\<exists>tmp ctx'. allocate_temporary B T C fndecl expr_tyty locus ctx = Inr (tmp, ctx') \<and>
           statements ctx' \<noteq> []"
proof (cases "is_unit T expr_tyty")
  case True
  then show ?thesis using assms(2) by (simp add: allocate_temporary_def)
next
  case False
  let ?f = "temporary_variable C fndecl (peek_enclosing_scope ctx)
              (TyTyResolveCompile_compile B expr_tyty False) NULL_TREE False locus"
  from assms(1) have "\<not> isl (?f (other_state ctx))"
    by (simp add: total_compilers_def)
  from run_ok [where f = ?f, OF assms(2) this] obtain r c1 where
    r1: "run ?f ctx = Inr (r, c1)" and n1: "statements c1 \<noteq> []" by blast
  obtain t s where r: "r = (t, s)" by (cases r)
  from add_statement_ok [OF n1] obtain c2 where
    a2: "add_statement s c1 = Inr c2" and n2: "statements c2 \<noteq> []" by blast
  from False r1 r a2 n2 show ?thesis
    by (simp add: allocate_temporary_def Let_def)
qed

lemma scrutinee_qualifier_ok:
  assumes "(is_primitive_type_kind T k \<and> k \<noteq> Kind_NEVER) \<or> k = Kind_ADT"
  shows "\<exists>q. scrutinee_qualifier B T C new k expr v ctx = Inr ((expr, v, Some q), ctx)"
  using assms by (auto simp: scrutinee_qualifier_def Let_def)

lemma visit_MatchExpr_returns:
  assumes total: "total_compilers C"
    and sty: "lookup_type T (get_mappings_expr (get_scrutinee_expr expr)) = Some scrutinee_expr_tyty"
    and direct: "direct_scrutinee T scrutinee_expr_tyty"
    and ety: "lookup_type T (get_mappings_match expr) = Some expr_tyty"
    and fn: "fn_stack ctx \<noteq> []"
    and st: "statements ctx \<noteq> []"
    and pats: "list_all (\<lambda>kase. get_patterns (get_arm kase) \<noteq> []) (get_match_cases expr)"
  shows "\<exists>res. visit_MatchExpr B T C new expr translated ctx = Inr res"
proof -
  note kind = direct_scrutinee_kind [OF direct]
  from check_scrutinee_type_ok [OF direct] obtain c0 where
    c0: "check_scrutinee_type scrutinee_expr_tyty (get_locus_match expr) ctx = Inr c0" by blast
  note frame = check_scrutinee_type_frame [OF c0]
  from fn frame have "fn_stack c0 \<noteq> []" by simp
  then have "\<exists>fndecl. peek_fn c0 = Inr fndecl"
    by (cases "fn_stack c0") (simp_all add: peek_fn_def)
  then obtain fndecl where pf: "peek_fn c0 = Inr fndecl" by blast
  from st frame have n0: "statements c0 \<noteq> []" by simp
  from allocate_temporary_ok [OF total n0] obtain tmp c1 where
    a1: "allocate_temporary B T C fndecl expr_tyty (get_locus_match expr) c0 = Inr (tmp, c1)"
    and n1: "statements c1 \<noteq> []" by blast
  from total have "\<not> isl (CompileExpr_Compile C (get_scrutinee_expr expr) (other_state c1))"
    by (simp add: total_compilers_def)
  from run_ok [where f = "CompileExpr_Compile C (get_scrutinee_expr expr)", OF n1 this]
  obtain v c2 where r2: "run (CompileExpr_Compile C (get_scrutinee_expr expr)) c1 = Inr (v, c2)"
    and n2: "statements c2 \<noteq> []" by blast
  from scrutinee_qualifier_ok [OF kind] obtain q where
    q: "scrutinee_qualifier B T C new (get_kind scrutinee_expr_tyty) expr v c2
          = Inr ((expr, v, Some q), c2)" by blast
  from lower_switch_ok [OF total n2 pats] obtain res where
    l: "lower_switch B C fndecl tmp expr v (Some q) translated c2 = Inr res" by blast
  from sty ety kind c0 pf a1 r2 q l show ?thesis
    by (auto simp: visit_MatchExpr_def Let_def)
qed

lemmas visit_MatchExpr_unfold =
  visit_MatchExpr_def check_scrutinee_type_def allocate_temporary_def scrutinee_qualifier_def
  lower_switch_def compile_case_def run_def add_statement_def push_block_def pop_block_def
  peek_fn_def peek_enclosing_scope_def example_backend_def example_tyctx_def
  example_compilers_def example_context_def int_match_def unit_match_def int_pattern_def
  int_expr_def Let_def

text \<open>
  Claim C8, as stated: the value of a match whose type is the unit type is the unit value.
  The visit assigns \<^verbatim>\<open>translated\<close> under \<^verbatim>\<open>if (tmp != NULL)\<close> only.  For
  \<^verbatim>\<open>match x { 1 => (), _ => () }\<close>, whose type is the unit type, the visit returns the
  value that \<^verbatim>\<open>translated\<close> held on entry, be it the error node or the null tree, and
  neither is the unit expression of the backend.
\<close>

theorem visit_MatchExpr_unit_counterexample:
  "is_unit example_tyctx (OtherType Kind_TUPLE 0) \<and>
   lookup_type example_tyctx (get_mappings_match unit_match) = Some (OtherType Kind_TUPLE 0) \<and>
   (case visit_MatchExpr example_backend example_tyctx example_compilers bump unit_match
           error_mark_node example_context of
      Inr (v, ctx) \<Rightarrow> v = error_mark_node \<and> v \<noteq> unit_expression example_backend
    | Inl e \<Rightarrow> False) \<and>
   (case visit_MatchExpr example_backend example_tyctx example_compilers bump unit_match
           NULL_TREE example_context of
      Inr (v, ctx) \<Rightarrow> v = NULL_TREE \<and> v \<noteq> unit_expression example_backend
    | Inl e \<Rightarrow> False)"
  by (simp add: visit_MatchExpr_unfold)

text \<open>
  Claim C8, amended.  The temporary: for a match of unit type no variable is made, no
  statement is added and the context is left as it is; for any other type the variable
  is the one that \<open>temporary_variable\<close> makes, and its declaration is appended to the
  active block.

  The visit: when it returns, with both types resolved, the statements that the active
  block has gained are those of \<open>match_statements\<close>, from the state of the compilers
  on entry to their state at the end.  There is a temporary if and only if the type of
  the match is not the unit type.  One end label is made.  The body of the switch is
  the statements of the cases in the order of the source: for each case a label, the
  case label expression and the bindings of each of its patterns, the statements of the
  expression of the arm, the assignment of the tree of that expression to the
  temporary, when there is one, and the jump to the end label.  The switch and the
  definition of the end label come last.  The value of the match is the temporary when
  there is one, and otherwise the value that \<^verbatim>\<open>translated\<close> held on entry.  The match
  lowered is the one given unless the scrutinee has a tuple type.

  And the visit does return: when the compilers it calls return, both types are
  resolved, the scrutinee is lowered as it stands, a function and a block are open, and
  every arm has a pattern.
\<close>

theorem visit_MatchExpr_lowering:
  "(is_unit T expr_tyty \<longrightarrow>
      allocate_temporary B T C fndecl expr_tyty locus c = Inr (None, c)) \<and>
   (\<not> is_unit T expr_tyty \<and>
    temporary_variable C fndecl (peek_enclosing_scope c)
        (TyTyResolveCompile_compile B expr_tyty False) NULL_TREE False locus (other_state c)
      = Inr ((t, ret_var_stmt), stmts, st) \<and>
    statements c = active # below \<longrightarrow>
      allocate_temporary B T C fndecl expr_tyty locus c =
        Inr (Some t, c\<lparr>other_state := st,
                        statements := (active @ stmts @ [ret_var_stmt]) # below\<rparr>)) \<and>
   (visit_MatchExpr B T C new expr translated ctx = Inr (translated', ctx') \<and>
    lookup_type T (get_mappings_expr (get_scrutinee_expr expr)) = Some scrutinee_expr_tyty \<and>
    lookup_type T (get_mappings_match expr) = Some expr_tyty \<and>
    statements ctx = active # below \<longrightarrow>
      (\<exists>fndecl tmp lowered stmts.
           peek_fn ctx = Inr fndecl \<and>
           match_statements B T C new fndecl (peek_enclosing_scope ctx) scrutinee_expr_tyty
             expr_tyty expr (other_state ctx) tmp lowered stmts (other_state ctx') \<and>
           statements ctx' = (active @ stmts) # below \<and>
           (tmp \<noteq> None \<longleftrightarrow> \<not> is_unit T expr_tyty) \<and>
           translated' = (case tmp of Some t \<Rightarrow> var_expression B t (get_locus_match lowered)
                          | None \<Rightarrow> translated) \<and>
           (get_kind scrutinee_expr_tyty \<noteq> Kind_TUPLE \<longrightarrow> lowered = expr))) \<and>
   (total_compilers C \<and>
    lookup_type T (get_mappings_expr (get_scrutinee_expr expr)) = Some scrutinee_expr_tyty \<and>
    direct_scrutinee T scrutinee_expr_tyty \<and>
    lookup_type T (get_mappings_match expr) = Some expr_tyty \<and>
    fn_stack ctx \<noteq> [] \<and> statements ctx \<noteq> [] \<and>
    list_all (\<lambda>kase. get_patterns (get_arm kase) \<noteq> []) (get_match_cases expr) \<longrightarrow>
      (\<exists>res. visit_MatchExpr B T C new expr translated ctx = Inr res))"
proof (intro conjI impI)
  show "allocate_temporary B T C fndecl expr_tyty locus c = Inr (None, c)"
    if "is_unit T expr_tyty"
    using that by (rule allocate_temporary_unit)
next
  show "allocate_temporary B T C fndecl expr_tyty locus c =
        Inr (Some t, c\<lparr>other_state := st,
                        statements := (active @ stmts @ [ret_var_stmt]) # below\<rparr>)"
    if "\<not> is_unit T expr_tyty \<and>
        temporary_variable C fndecl (peek_enclosing_scope c)
            (TyTyResolveCompile_compile B expr_tyty False) NULL_TREE False locus (other_state c)
          = Inr ((t, ret_var_stmt), stmts, st) \<and>
        statements c = active # below"
    using that allocate_temporary_value by blast
next
  show "\<exists>fndecl tmp lowered stmts.
           peek_fn ctx = Inr fndecl \<and>
           match_statements B T C new fndecl (peek_enclosing_scope ctx) scrutinee_expr_tyty
             expr_tyty expr (other_state ctx) tmp lowered stmts (other_state ctx') \<and>
           statements ctx' = (active @ stmts) # below \<and>
           (tmp \<noteq> None \<longleftrightarrow> \<not> is_unit T expr_tyty) \<and>
           translated' = (case tmp of Some t \<Rightarrow> var_expression B t (get_locus_match lowered)
                          | None \<Rightarrow> translated) \<and>
           (get_kind scrutinee_expr_tyty \<noteq> Kind_TUPLE \<longrightarrow> lowered = expr)"
    if "visit_MatchExpr B T C new expr translated ctx = Inr (translated', ctx') \<and>
        lookup_type T (get_mappings_expr (get_scrutinee_expr expr)) = Some scrutinee_expr_tyty \<and>
        lookup_type T (get_mappings_match expr) = Some expr_tyty \<and>
        statements ctx = active # below"
    using that visit_MatchExpr_shape [of B T C new expr translated ctx translated' ctx'
                                         scrutinee_expr_tyty expr_tyty active below]
    by blast
next
  show "\<exists>res. visit_MatchExpr B T C new expr translated ctx = Inr res"
    if "total_compilers C \<and>
        lookup_type T (get_mappings_expr (get_scrutinee_expr expr)) = Some scrutinee_expr_tyty \<and>
        direct_scrutinee T scrutinee_expr_tyty \<and>
        lookup_type T (get_mappings_match expr) = Some expr_tyty \<and>
        fn_stack ctx \<noteq> [] \<and> statements ctx \<noteq> [] \<and>
        list_all (\<lambda>kase. get_patterns (get_arm kase) \<noteq> []) (get_match_cases expr)"
    using that visit_MatchExpr_returns [of C T expr scrutinee_expr_tyty expr_tyty ctx B new
                                           translated]
    by blast
qed

theorem visit_MatchExpr_lowering_witness:
  "is_unit example_tyctx (OtherType Kind_TUPLE 0) \<and>
   allocate_temporary example_backend example_tyctx example_compilers (Node ''function_decl'' [])
       (OtherType Kind_TUPLE 0) (Locus 0) example_context
     = Inr (None, example_context) \<and>
   \<not> is_unit example_tyctx i8 \<and>
   allocate_temporary example_backend example_tyctx example_compilers (Node ''function_decl'' [])
       i8 (Locus 0) example_context
     = Inr (Some (Node ''var_decl'' [Node ''i8'' [], INTEGER_CST size_type_node 0]),
            example_context\<lparr>other_state := 1,
              statements :=
                [[Node ''decl_expr''
                    [Node ''var_decl'' [Node ''i8'' [], INTEGER_CST size_type_node 0]]]]\<rparr>) \<and>
   visit_MatchExpr example_backend example_tyctx example_compilers bump (int_match 2)
       error_mark_node example_context
     = Inr (Node ''var_decl'' [Node ''i8'' [], INTEGER_CST size_type_node 0],
            example_context\<lparr>other_state := 5,
              statements :=
                [[Node ''decl_expr''
                    [Node ''var_decl'' [Node ''i8'' [], INTEGER_CST size_type_node 0]],
                  SWITCH_EXPR (Locus 0) (Node ''i8'' [])
                    (Node ''value'' [Node ''i8'' [], INTEGER_CST size_type_node 2])
                    (Node ''bind_expr''
                       [Node ''block'' [INTEGER_CST size_type_node 2],
                        Node ''case_label_expr''
                          [Node ''1'' [], Node ''label_decl'' [INTEGER_CST size_type_node 3]],
                        Node ''modify_expr''
                          [Node ''var_decl'' [Node ''i8'' [], INTEGER_CST size_type_node 0],
                           Node ''literal'' [Node ''i8'' [], Node ''10'' []]],
                        GOTO_EXPR (Locus 4) void_type_node
                          (Node ''label_decl'' [INTEGER_CST size_type_node 1]),
                        Node ''case_label_expr''
                          [Node ''2'' [], Node ''label_decl'' [INTEGER_CST size_type_node 4]],
                        Node ''case_label_expr''
                          [Node ''3'' [], Node ''label_decl'' [INTEGER_CST size_type_node 4]],
                        Node ''modify_expr''
                          [Node ''var_decl'' [Node ''i8'' [], INTEGER_CST size_type_node 0],
                           Node ''literal'' [Node ''i8'' [], Node ''20'' []]],
                        GOTO_EXPR (Locus 5) void_type_node
                          (Node ''label_decl'' [INTEGER_CST size_type_node 1])]),
                  Node ''label_expr'' [Node ''label_decl'' [INTEGER_CST size_type_node 1]]]]\<rparr>) \<and>
   match_statements example_backend example_tyctx example_compilers bump
       (Node ''function_decl'' []) (Node ''block'' []) i8 i8 (int_match 2) 0
       (Some (Node ''var_decl'' [Node ''i8'' [], INTEGER_CST size_type_node 0]))
       (int_match 2)
       [Node ''decl_expr''
          [Node ''var_decl'' [Node ''i8'' [], INTEGER_CST size_type_node 0]],
        SWITCH_EXPR (Locus 0) (Node ''i8'' [])
          (Node ''value'' [Node ''i8'' [], INTEGER_CST size_type_node 2])
          (Node ''bind_expr''
             [Node ''block'' [INTEGER_CST size_type_node 2],
              Node ''case_label_expr''
                [Node ''1'' [], Node ''label_decl'' [INTEGER_CST size_type_node 3]],
              Node ''modify_expr''
                [Node ''var_decl'' [Node ''i8'' [], INTEGER_CST size_type_node 0],
                 Node ''literal'' [Node ''i8'' [], Node ''10'' []]],
              GOTO_EXPR (Locus 4) void_type_node
                (Node ''label_decl'' [INTEGER_CST size_type_node 1]),
              Node ''case_label_expr''
                [Node ''2'' [], Node ''label_decl'' [INTEGER_CST size_type_node 4]],
              Node ''case_label_expr''
                [Node ''3'' [], Node ''label_decl'' [INTEGER_CST size_type_node 4]],
              Node ''modify_expr''
                [Node ''var_decl'' [Node ''i8'' [], INTEGER_CST size_type_node 0],
                 Node ''literal'' [Node ''i8'' [], Node ''20'' []]],
              GOTO_EXPR (Locus 5) void_type_node
                (Node ''label_decl'' [INTEGER_CST size_type_node 1])]),
        Node ''label_expr'' [Node ''label_decl'' [INTEGER_CST size_type_node 1]]]
       5 \<and>
   cases_statements example_backend example_compilers (Node ''function_decl'' [])
       (Some (Node ''var_decl'' [Node ''i8'' [], INTEGER_CST size_type_node 0]))
       (Node ''label_decl'' [INTEGER_CST size_type_node 1])
       (Node ''value'' [Node ''i8'' [], INTEGER_CST size_type_node 2])
       (get_match_cases (int_match 2)) 3
       [[Node ''case_label_expr''
           [Node ''1'' [], Node ''label_decl'' [INTEGER_CST size_type_node 3]],
         Node ''modify_expr''
           [Node ''var_decl'' [Node ''i8'' [], INTEGER_CST size_type_node 0],
            Node ''literal'' [Node ''i8'' [], Node ''10'' []]],
         GOTO_EXPR (Locus 4) void_type_node
           (Node ''label_decl'' [INTEGER_CST size_type_node 1])],
        [Node ''case_label_expr''
           [Node ''2'' [], Node ''label_decl'' [INTEGER_CST size_type_node 4]],
         Node ''case_label_expr''
           [Node ''3'' [], Node ''label_decl'' [INTEGER_CST size_type_node 4]],
         Node ''modify_expr''
           [Node ''var_decl'' [Node ''i8'' [], INTEGER_CST size_type_node 0],
            Node ''literal'' [Node ''i8'' [], Node ''20'' []]],
         GOTO_EXPR (Locus 5) void_type_node
           (Node ''label_decl'' [INTEGER_CST size_type_node 1])]]
       5 \<and>
   total_compilers example_compilers \<and> direct_scrutinee example_tyctx i8 \<and>
   (\<exists>res. visit_MatchExpr example_backend example_tyctx example_compilers bump unit_match
            NULL_TREE example_context = Inr res)"
proof -
  let ?var = "Node ''var_decl'' [Node ''i8'' [], INTEGER_CST size_type_node 0]"
  let ?end = "Node ''label_decl'' [INTEGER_CST size_type_node 1]"
  let ?segment1 = "[Node ''case_label_expr''
           [Node ''1'' [], Node ''label_decl'' [INTEGER_CST size_type_node 3]],
         Node ''modify_expr'' [?var, Node ''literal'' [Node ''i8'' [], Node ''10'' []]],
         GOTO_EXPR (Locus 4) void_type_node ?end]"
  let ?segment2 = "[Node ''case_label_expr''
           [Node ''2'' [], Node ''label_decl'' [INTEGER_CST size_type_node 4]],
         Node ''case_label_expr''
           [Node ''3'' [], Node ''label_decl'' [INTEGER_CST size_type_node 4]],
         Node ''modify_expr'' [?var, Node ''literal'' [Node ''i8'' [], Node ''20'' []]],
         GOTO_EXPR (Locus 5) void_type_node ?end]"
  let ?stmts = "[Node ''decl_expr'' [?var],
        SWITCH_EXPR (Locus 0) (Node ''i8'' [])
          (Node ''value'' [Node ''i8'' [], INTEGER_CST size_type_node 2])
          (Node ''bind_expr''
             (Node ''block'' [INTEGER_CST size_type_node 2] # ?segment1 @ ?segment2)),
        Node ''label_expr'' [?end]]"
  let ?ctx' = "example_context\<lparr>other_state := 5, statements := [?stmts]\<rparr>"
  have is_u: "is_unit example_tyctx (OtherType Kind_TUPLE 0)"
    and not_u: "\<not> is_unit example_tyctx i8"
    by (simp_all add: example_tyctx_def i8_def)
  have var: "temporary_variable example_compilers (Node ''function_decl'' [])
        (peek_enclosing_scope example_context)
        (TyTyResolveCompile_compile example_backend i8 False) NULL_TREE False (Locus 0)
        (other_state example_context)
      = Inr ((?var, Node ''decl_expr'' [?var]), [], 1)"
    by (simp add: example_compilers_def example_backend_def example_context_def i8_def
          peek_enclosing_scope_def)
  have st: "statements example_context = [] # []"
    by (simp add: example_context_def)
  have ev: "visit_MatchExpr example_backend example_tyctx example_compilers bump (int_match 2)
      error_mark_node example_context = Inr (?var, ?ctx')"
    by (simp add: visit_MatchExpr_unfold)
  have ts: "lookup_type example_tyctx (get_mappings_expr (get_scrutinee_expr (int_match 2)))
      = Some i8"
    and tm: "lookup_type example_tyctx (get_mappings_match (int_match 2)) = Some i8"
    by (simp_all add: example_tyctx_def int_match_def i8_def)
  note a = visit_MatchExpr_lowering
             [where T = example_tyctx and expr_tyty = "OtherType Kind_TUPLE 0"
                and B = example_backend and C = example_compilers
                and fndecl = "Node ''function_decl'' []" and locus = "Locus 0"
                and c = example_context, THEN conjunct1, rule_format, OF is_u]
  note b = visit_MatchExpr_lowering
             [where T = example_tyctx and expr_tyty = i8
                and B = example_backend and C = example_compilers
                and fndecl = "Node ''function_decl'' []" and locus = "Locus 0"
                and c = example_context and active = "[]" and below = "[]",
              THEN conjunct2, THEN conjunct1, rule_format, OF conjI [OF not_u conjI [OF var st]]]
  note c = visit_MatchExpr_lowering
             [where T = example_tyctx and expr_tyty = i8 and scrutinee_expr_tyty = i8
                and B = example_backend and C = example_compilers and new = bump
                and expr = "int_match 2" and translated = error_mark_node
                and ctx = example_context and active = "[]" and below = "[]",
              THEN conjunct2, THEN conjunct2, THEN conjunct1, rule_format,
              OF conjI [OF ev conjI [OF ts conjI [OF tm st]]]]
  from c obtain fndecl tmp lowered stmts where
    pf: "peek_fn example_context = Inr fndecl"
    and ms: "match_statements example_backend example_tyctx example_compilers bump fndecl
               (peek_enclosing_scope example_context) i8 i8 (int_match 2)
               (other_state example_context) tmp lowered stmts (other_state ?ctx')"
    and sts: "statements ?ctx' = ([] @ stmts) # []"
    and tn: "tmp \<noteq> None \<longleftrightarrow> \<not> is_unit example_tyctx i8"
    and tr: "?var = (case tmp of
                       Some t \<Rightarrow> var_expression example_backend t (get_locus_match lowered)
                     | None \<Rightarrow> error_mark_node)"
    and lw: "get_kind i8 \<noteq> Kind_TUPLE \<longrightarrow> lowered = int_match 2"
    by blast
  have v1: "fndecl = Node ''function_decl'' []"
    using pf by (simp add: peek_fn_def example_context_def)
  have v2: "lowered = int_match 2" using lw by (simp add: i8_def)
  have v3: "stmts = ?stmts" using sts by simp
  have v4: "tmp = Some ?var"
    using tn tr not_u by (cases tmp) (simp_all add: example_backend_def)
  have v5: "peek_enclosing_scope example_context = Node ''block'' []"
    "other_state example_context = 0" "other_state ?ctx' = 5"
    by (simp_all add: peek_enclosing_scope_def example_context_def)
  have ms': "match_statements example_backend example_tyctx example_compilers bump
      (Node ''function_decl'' []) (Node ''block'' []) i8 i8 (int_match 2) 0 (Some ?var)
      (int_match 2) ?stmts 5"
    using ms unfolding v1 v2 v3 v4 v5 .
  have cs: "cases_statements example_backend example_compilers (Node ''function_decl'' [])
      (Some ?var) ?end (Node ''value'' [Node ''i8'' [], INTEGER_CST size_type_node 2])
      (get_match_cases (int_match 2)) 3 [?segment1, ?segment2] 5"
    by (simp add: case_statements_def result_assignment_def example_backend_def
          example_compilers_def int_match_def int_pattern_def int_expr_def)
  have total: "total_compilers example_compilers"
    by (simp add: total_compilers_def example_compilers_def split: expr.split)
  have direct: "direct_scrutinee example_tyctx i8"
    by (simp add: direct_scrutinee_def example_tyctx_def i8_def)
  have tu: "lookup_type example_tyctx (get_mappings_match unit_match)
      = Some (OtherType Kind_TUPLE 0)"
    and su: "lookup_type example_tyctx (get_mappings_expr (get_scrutinee_expr unit_match))
      = Some i8"
    by (simp_all add: example_tyctx_def unit_match_def i8_def)
  have stacks: "fn_stack example_context \<noteq> []" "statements example_context \<noteq> []"
    by (simp_all add: example_context_def)
  have pats: "list_all (\<lambda>kase. get_patterns (get_arm kase) \<noteq> [])
      (get_match_cases unit_match)"
    by (simp add: unit_match_def)
  note d = visit_MatchExpr_lowering
             [where T = example_tyctx and expr_tyty = "OtherType Kind_TUPLE 0"
                and scrutinee_expr_tyty = i8
                and B = example_backend and C = example_compilers and new = bump
                and expr = unit_match and translated = NULL_TREE
                and ctx = example_context,
              THEN conjunct2, THEN conjunct2, THEN conjunct2, rule_format,
              OF conjI [OF total conjI [OF su conjI [OF direct conjI [OF tu
                   conjI [OF stacks(1) conjI [OF stacks(2) pats]]]]]]]
  from is_u not_u a b ev ms' cs total direct d show ?thesis by simp
qed

end
